(* ===== verification/Prelude.thy ===== *)
theory Prelude
  imports Main "HOL-Library.Sublist"
begin

text \<open>
  Shared vocabulary of the development.

  A Go \<^verbatim>\<open>string\<close> and a Go \<^verbatim>\<open>[]byte\<close> are byte sequences; both are HOL's \<open>string\<close> (a
  \<open>char list\<close>, one \<open>char\<close> per byte).  The functions of package \<^verbatim>\<open>strings\<close> that the sources
  call are defined here with Go's meaning, together with 64-bit signed wrap-around and the
  collections of rewrite rules the component theories share.
\<close>

named_theorems go_string \<open>unfolding rules for the functions of package strings\<close>
named_theorems wire_simp \<open>what each client operation puts on the wire\<close>
named_theorems gate_simp \<open>the read-only gate of the mutating operations\<close>

type_synonym bytes = string

abbreviation slash :: char where
  "slash \<equiv> CHR ''/''"

subsection \<open>Package strings\<close>

definition HasPrefix :: "string \<Rightarrow> string \<Rightarrow> bool" where
  "HasPrefix s p \<longleftrightarrow> take (length p) s = p"

definition TrimPrefix :: "string \<Rightarrow> string \<Rightarrow> string" where
  "TrimPrefix s p = (if HasPrefix s p then drop (length p) s else s)"

definition TrimRight_char :: "string \<Rightarrow> char \<Rightarrow> string" where
  "TrimRight_char s c = rev (dropWhile (\<lambda>x. x = c) (rev s))"

lemma HasPrefix_iff_prefix [go_string]: "HasPrefix s p \<longleftrightarrow> prefix p s"
  by (auto simp: HasPrefix_def prefix_def) (metis append_take_drop_id)

lemma HasPrefix_append [simp]: "HasPrefix (p @ s) p"
  by (simp add: HasPrefix_def)

lemma HasPrefix_slice: "length s < length p \<or> take (length p) s \<noteq> p \<longleftrightarrow> \<not> HasPrefix s p"
  by (auto simp: HasPrefix_def)

lemma HasPrefixE: "HasPrefix s p \<Longrightarrow> (\<And>t. s = p @ t \<Longrightarrow> P) \<Longrightarrow> P"
  by (auto simp: HasPrefix_iff_prefix prefix_def)

lemma TrimPrefix_append [simp]: "TrimPrefix (p @ s) p = s"
  by (simp add: TrimPrefix_def)

lemma TrimPrefix_self [simp]: "TrimPrefix p p = []"
  by (simp add: TrimPrefix_def HasPrefix_def)

lemma TrimRight_char_last: "s = [] \<or> last s \<noteq> c \<Longrightarrow> TrimRight_char s c = s"
  by (cases s rule: rev_cases) (auto simp: TrimRight_char_def)

lemma TrimRight_char_snoc [simp]: "TrimRight_char (s @ [c]) c = TrimRight_char s c"
  by (simp add: TrimRight_char_def)

lemma TrimRight_char_not_last: "TrimRight_char s c = [] \<or> last (TrimRight_char s c) \<noteq> c"
proof (cases "dropWhile (\<lambda>x. x = c) (rev s)")
  case (Cons x xs)
  then have "x \<noteq> c" using hd_dropWhile[of "\<lambda>x. x = c" "rev s"] by auto
  with Cons show ?thesis by (simp add: TrimRight_char_def)
qed (simp add: TrimRight_char_def)

subsection \<open>64-bit signed arithmetic\<close>

text \<open>Go's \<^verbatim>\<open>int64\<close> (and \<^verbatim>\<open>int\<close> on the supported platforms): two's complement wrap-around.\<close>

definition wrap64 :: "int \<Rightarrow> int" where
  "wrap64 x = (x + 2 ^ 63) mod 2 ^ 64 - 2 ^ 63"

definition is_int64 :: "int \<Rightarrow> bool" where
  "is_int64 x \<longleftrightarrow> - (2 ^ 63) \<le> x \<and> x < 2 ^ 63"

lemma wrap64_id: "is_int64 x \<Longrightarrow> wrap64 x = x"
  by (simp add: wrap64_def is_int64_def)

lemma wrap64_range: "is_int64 (wrap64 x)"
proof -
  have "0 \<le> (x + 2 ^ 63) mod 2 ^ 64" and "(x + 2 ^ 63) mod 2 ^ 64 < (2::int) ^ 64"
    by simp_all
  then show ?thesis unfolding wrap64_def is_int64_def by simp
qed

text \<open>A natural number in decimal, as \<^verbatim>\<open>%d\<close> and \<^verbatim>\<open>strconv\<close> print it.\<close>

fun dec_digits :: "nat \<Rightarrow> string" where
  "dec_digits n = (if n < 10 then [char_of (48 + n)] else dec_digits (n div 10) @ [char_of (48 + n mod 10)])"

declare dec_digits.simps [simp del]

subsection \<open>Lists\<close>

lemma take_length_le: "length xs \<le> n \<Longrightarrow> take n xs = xs"
  by simp

lemma concat_filter_Nil: "concat (filter (\<lambda>x. x \<noteq> []) xss) = concat xss"
  by (induction xss) auto

lemma fold_append_map: "fold (\<lambda>x acc. acc @ f x) xs acc = acc @ concat (map f xs)"
  by (induction xs arbitrary: acc) auto

end
