(* ===== verification/GoErrors.thy ===== *)
theory GoErrors
  imports Prelude
begin

text \<open>
  Go error values.  An error is a tree: a sentinel (\<^verbatim>\<open>errors.New\<close> held in a package variable),
  a \<^verbatim>\<open>fmt.Errorf\<close> node with its format string, its printed arguments and the errors its
  \<^verbatim>\<open>%w\<close> verbs wrap, an \<^verbatim>\<open>errors.Join\<close> node, or one of the two markers of rclone's
  \<^verbatim>\<open>fserrors\<close> package that the status mapper attaches.  \<^verbatim>\<open>errors.Is\<close> walks the tree.
\<close>

datatype sentinel =
    ErrPermissionDenied | ErrInvalidArgument | ErrNotFound | ErrAlreadyExists | ErrPermanentOther
  | Fs_ErrorPermissionDenied | Fs_ErrorObjectNotFound | Fs_ErrorDirNotFound | Fs_ErrorIsDir
  | Fs_ErrorCantSetModTime | Fs_ErrorCantCopy | Fs_ErrorCantMove | Fs_ErrorCantDirMove
  | Hash_ErrUnsupported
  | Io_EOF | Io_ErrClosedPipe
  | Os_ErrNotExist | Sys_ENOTCONN | Sys_EROFS | Ctx_Canceled
  | ErrMountMethodUnavailable | ErrDetachDidNotReturn | ErrUnsupportedDirectMountOption

datatype fmt_arg = FStr string | FInt int

datatype gerror =
    Sentinel sentinel
  | Errorf string "fmt_arg list" "gerror list"
  | ErrorsJoin "gerror list"
  | RetryError gerror
  | ErrorRetryAfter int

primrec errors_is :: "gerror \<Rightarrow> sentinel \<Rightarrow> bool" where
  "errors_is (Sentinel s) t \<longleftrightarrow> s = t"
| "errors_is (Errorf f args es) t \<longleftrightarrow> list_ex id (map (\<lambda>e. errors_is e t) es)"
| "errors_is (ErrorsJoin es) t \<longleftrightarrow> list_ex id (map (\<lambda>e. errors_is e t) es)"
| "errors_is (RetryError e) t \<longleftrightarrow> errors_is e t"
| "errors_is (ErrorRetryAfter d) t \<longleftrightarrow> False"

text \<open>The retry marker: the error is one the retry layers of rclone drive again.\<close>

primrec is_retry :: "gerror \<Rightarrow> bool" where
  "is_retry (Sentinel s) \<longleftrightarrow> False"
| "is_retry (Errorf f args es) \<longleftrightarrow> list_ex id (map is_retry es)"
| "is_retry (ErrorsJoin es) \<longleftrightarrow> list_ex id (map is_retry es)"
| "is_retry (RetryError e) \<longleftrightarrow> True"
| "is_retry (ErrorRetryAfter d) \<longleftrightarrow> False"

text \<open>The back-off hints carried by an error, in nanoseconds.\<close>

primrec retry_after_hints :: "gerror \<Rightarrow> int list" where
  "retry_after_hints (Sentinel s) = []"
| "retry_after_hints (Errorf f args es) = concat (map retry_after_hints es)"
| "retry_after_hints (ErrorsJoin es) = concat (map retry_after_hints es)"
| "retry_after_hints (RetryError e) = retry_after_hints e"
| "retry_after_hints (ErrorRetryAfter d) = [d]"

type_synonym 'a result = "gerror + 'a"

text \<open>\<^verbatim>\<open>errors.Join\<close>: nil when every argument is nil.\<close>

definition errors_Join :: "gerror list \<Rightarrow> gerror option" where
  "errors_Join es = (if es = [] then None else Some (ErrorsJoin es))"

lemma errors_Join_None [simp]: "errors_Join es = None \<longleftrightarrow> es = []"
  by (simp add: errors_Join_def)

abbreviation EOF :: gerror where
  "EOF \<equiv> Sentinel Io_EOF"

abbreviation wrapf :: "string \<Rightarrow> fmt_arg list \<Rightarrow> gerror \<Rightarrow> gerror" where
  "wrapf f args e \<equiv> Errorf f args [e]"

abbreviation msgf :: "string \<Rightarrow> fmt_arg list \<Rightarrow> gerror" where
  "msgf f args \<equiv> Errorf f args []"

end
