(* ===== verification/Streams.thy ===== *)
theory Streams
  imports GoErrors
begin

text \<open>
  Byte streams.  The sources read every body through \<^verbatim>\<open>io.Reader\<close>; a read may return fewer
  bytes than asked, may return none without an error, and may deliver the last bytes together with
  the terminal error.  \<open>body\<close> is a stream with all of that freedom: a finite script of chunks
  and a terminal error.  \<open>go_reader\<close> is the contract of \<^verbatim>\<open>io.Reader\<close> that consumers rely
  on; a response body, \<^verbatim>\<open>io.LimitReader\<close> and (in theory \<open>Download\<close>) the bounded download
  body are its instances.
\<close>

subsection \<open>Response bodies\<close>

record body =
  chunks :: "bytes list"
  fin :: gerror
  eager :: bool

definition body_read :: "body \<Rightarrow> nat \<Rightarrow> bytes \<times> gerror option \<times> body" where
  "body_read b n =
     (case chunks b of
        [] \<Rightarrow> ([], Some (fin b), b)
      | c # cs \<Rightarrow>
          if length c \<le> n
          then (c, if cs = [] \<and> eager b then Some (fin b) else None, b\<lparr>chunks := cs\<rparr>)
          else (take n c, None, b\<lparr>chunks := drop n c # cs\<rparr>))"

definition body_content :: "body \<Rightarrow> bytes" where
  "body_content b = concat (chunks b)"

definition body_left :: "body \<Rightarrow> nat" where
  "body_left b = length (concat (chunks b)) + length (chunks b)"

subsection \<open>The reader contract\<close>

text \<open>
  \<open>rd r n\<close> is one call of \<^verbatim>\<open>Read\<close> with a buffer of \<open>n\<close> bytes.  \<open>content\<close> is what the
  reader has still to deliver, \<open>ends r e\<close> says that \<open>e\<close> may end the stream, and
  \<open>left\<close> decreases with every read that does not end it.
\<close>

locale go_reader =
  fixes rd :: "'r \<Rightarrow> nat \<Rightarrow> bytes \<times> gerror option \<times> 'r"
    and content :: "'r \<Rightarrow> bytes"
    and ends :: "'r \<Rightarrow> gerror \<Rightarrow> bool"
    and left :: "'r \<Rightarrow> nat"
  assumes rd_length: "rd r n = (bs, e, r') \<Longrightarrow> length bs \<le> n"
    and rd_content: "rd r n = (bs, e, r') \<Longrightarrow> content r = bs @ content r'"
    and rd_end: "rd r n = (bs, Some err, r') \<Longrightarrow> content r' = [] \<and> ends r err"
    and rd_ends: "rd r n = (bs, None, r') \<Longrightarrow> ends r' err \<Longrightarrow> ends r err"
    and rd_left: "rd r n = (bs, None, r') \<Longrightarrow> 0 < n \<Longrightarrow> left r' < left r"

text \<open>A consumer that reads to the end with a buffer of \<open>k\<close> bytes; \<open>None\<close> is not returning.\<close>

partial_function (option) drain ::
  "('r \<Rightarrow> nat \<Rightarrow> bytes \<times> gerror option \<times> 'r) \<Rightarrow> nat \<Rightarrow> 'r \<Rightarrow> bytes \<Rightarrow> (bytes \<times> gerror) option" where
  "drain rd k r acc =
     (case rd r k of (bs, e, r') \<Rightarrow>
        (case e of
           None \<Rightarrow> drain rd k r' (acc @ bs)
         | Some err \<Rightarrow> Some (acc @ bs, err)))"

declare drain.simps [code]

context go_reader
begin

lemma drain_complete:
  assumes "0 < k"
  shows "\<exists>e. ends r e \<and> drain rd k r acc = Some (acc @ content r, e)"
proof (induction "left r" arbitrary: r acc rule: less_induct)
  case less
  obtain bs e r' where step: "rd r k = (bs, e, r')" by (cases "rd r k") auto
  show ?case
  proof (cases e)
    case None
    then have "left r' < left r" using rd_left step assms by blast
    from less[OF this, of "acc @ bs"] obtain e' where
      "ends r' e'" and "drain rd k r' (acc @ bs) = Some ((acc @ bs) @ content r', e')" by blast
    moreover have "ends r e'" using rd_ends step None \<open>ends r' e'\<close> by blast
    ultimately show ?thesis
      using step None rd_content[OF step] by (subst drain.simps) auto
  next
    case (Some e')
    then have "content r' = []" and "ends r e'" using rd_end step by blast+
    then show ?thesis
      using step Some rd_content[OF step] by (subst drain.simps) auto
  qed
qed

lemma drain_bytes: "0 < k \<Longrightarrow> drain rd k r acc = Some (out, e) \<Longrightarrow> out = acc @ content r \<and> ends r e"
  using drain_complete[of k r acc] by auto

end

lemma body_read_fin: "body_read b n = (bs, e, b') \<Longrightarrow> fin b' = fin b"
  by (auto simp: body_read_def split: list.splits if_splits)

interpretation resp_body: go_reader body_read body_content "\<lambda>b e. e = fin b" body_left
proof unfold_locales
  fix r n bs e r'
  assume "body_read r n = (bs, e, r')"
  then show "length bs \<le> n" and "body_content r = bs @ body_content r'"
    by (auto simp: body_read_def body_content_def split: list.splits if_splits)
next
  fix r n bs e r'
  assume "body_read r n = (bs, Some e, r')"
  then show "body_content r' = [] \<and> e = fin r"
    by (auto simp: body_read_def body_content_def split: list.splits if_splits)
next
  fix r n bs r' e
  assume "body_read r n = (bs, None, r')" and "e = fin r'"
  then show "e = fin r"
    by (auto simp: body_read_def split: list.splits if_splits)
next
  fix r n bs r'
  assume "body_read r n = (bs, None, r')" and "0 < n"
  then show "body_left r' < body_left r"
    by (auto simp: body_read_def body_left_def split: list.splits if_splits)
qed

subsection \<open>io.LimitReader, io.ReadAll, io.ReadFull\<close>

record limited =
  src :: body
  remaining_N :: int

definition limit_read :: "limited \<Rightarrow> nat \<Rightarrow> bytes \<times> gerror option \<times> limited" where
  "limit_read l n =
     (if remaining_N l \<le> 0 then ([], Some EOF, l)
      else (case body_read (src l) (min n (nat (remaining_N l))) of
              (bs, e, b') \<Rightarrow> (bs, e, l\<lparr>src := b', remaining_N := remaining_N l - int (length bs)\<rparr>)))"

definition limit_content :: "limited \<Rightarrow> bytes" where
  "limit_content l = take (nat (remaining_N l)) (body_content (src l))"

definition limit_ends :: "limited \<Rightarrow> gerror \<Rightarrow> bool" where
  "limit_ends l e \<longleftrightarrow>
     (remaining_N l \<le> int (length (body_content (src l))) \<and> e = EOF) \<or>
     (int (length (body_content (src l))) \<le> remaining_N l \<and> e = fin (src l))"

interpretation limit_reader: go_reader limit_read limit_content limit_ends "\<lambda>l. body_left (src l)"
proof unfold_locales
  fix r n bs e r'
  assume st: "limit_read r n = (bs, e, r')"
  show len: "length bs \<le> n"
    using st by (auto simp: limit_read_def split: if_splits prod.splits dest: resp_body.rd_length)
  show "limit_content r = bs @ limit_content r'"
  proof (cases "remaining_N r \<le> 0")
    case False
    then obtain b' where b: "body_read (src r) (min n (nat (remaining_N r))) = (bs, e, b')"
      and r': "r' = r\<lparr>src := b', remaining_N := remaining_N r - int (length bs)\<rparr>"
      using st by (auto simp: limit_read_def split: prod.splits)
    have "length bs \<le> nat (remaining_N r)" using resp_body.rd_length[OF b] by simp
    moreover have "nat (remaining_N r - int (length bs)) = nat (remaining_N r) - length bs" by simp
    ultimately show ?thesis
      using r' resp_body.rd_content[OF b] by (simp add: limit_content_def)
  qed (use st in \<open>auto simp: limit_read_def limit_content_def\<close>)
next
  fix r n bs e r'
  assume st: "limit_read r n = (bs, Some e, r')"
  show "limit_content r' = [] \<and> limit_ends r e"
  proof (cases "remaining_N r \<le> 0")
    case False
    then obtain b' where b: "body_read (src r) (min n (nat (remaining_N r))) = (bs, Some e, b')"
      and r': "r' = r\<lparr>src := b', remaining_N := remaining_N r - int (length bs)\<rparr>"
      using st by (auto simp: limit_read_def split: prod.splits)
    have c: "body_content b' = []" and e: "e = fin (src r)" using resp_body.rd_end[OF b] by auto
    have "length (body_content (src r)) \<le> nat (remaining_N r)"
      using resp_body.rd_content[OF b] resp_body.rd_length[OF b] c by simp
    then have "int (length (body_content (src r))) \<le> remaining_N r" using False by linarith
    then show ?thesis using c e by (simp add: r' limit_content_def limit_ends_def)
  qed (use st in \<open>auto simp: limit_read_def limit_content_def limit_ends_def\<close>)
next
  fix r n bs r' e
  assume st: "limit_read r n = (bs, None, r')" and en: "limit_ends r' e"
  then obtain b' where b: "body_read (src r) (min n (nat (remaining_N r))) = (bs, None, b')"
    and r': "r' = r\<lparr>src := b', remaining_N := remaining_N r - int (length bs)\<rparr>"
    by (auto simp: limit_read_def split: if_splits prod.splits)
  have "length (body_content (src r)) = length bs + length (body_content b')"
    using resp_body.rd_content[OF b] by simp
  moreover have "fin b' = fin (src r)" using b by (rule body_read_fin)
  ultimately show "limit_ends r e" using en by (simp add: limit_ends_def r' le_diff_eq diff_le_eq add.commute)
next
  fix r n bs r'
  assume "limit_read r n = (bs, None, r')" and "0 < (n::nat)"
  then show "body_left (src r') < body_left (src r)"
    by (auto simp: limit_read_def split: if_splits prod.splits intro: resp_body.rd_left)
qed

text \<open>
  \<^verbatim>\<open>io.ReadAll\<close> over a limited reader, with the 512-byte buffer it starts from; the end of the
  stream is reported as no error.
\<close>

definition readAllBuf :: nat where
  "readAllBuf = 512"

function ReadAll_loop :: "limited \<Rightarrow> bytes \<Rightarrow> bytes \<times> gerror option \<times> limited" where
  "ReadAll_loop l acc =
     (case limit_read l readAllBuf of (bs, e, l') \<Rightarrow>
        (case e of
           None \<Rightarrow> ReadAll_loop l' (acc @ bs)
         | Some err \<Rightarrow> (acc @ bs, if err = EOF then None else Some err, l')))"
  by pat_completeness auto
termination
  by (relation "measure (\<lambda>(l, acc). body_left (src l))")
     (auto simp: readAllBuf_def intro: limit_reader.rd_left[OF sym])

declare ReadAll_loop.simps [simp del]

definition ReadAll_limited :: "body \<Rightarrow> int \<Rightarrow> bytes \<times> gerror option \<times> body" where
  "ReadAll_limited b n =
     (case ReadAll_loop \<lparr>src = b, remaining_N = n\<rparr> [] of (bs, e, l') \<Rightarrow> (bs, e, src l'))"

text \<open>\<^verbatim>\<open>io.ReadFull\<close> of one byte: reads again while a read returns nothing and no error.\<close>

function read_one :: "body \<Rightarrow> bytes \<times> gerror option \<times> body" where
  "read_one b =
     (case body_read b 1 of (bs, e, b') \<Rightarrow>
        if bs = [] \<and> e = None then read_one b' else (bs, e, b'))"
  by pat_completeness auto
termination
  by (relation "measure body_left") (auto intro: resp_body.rd_left[OF sym])

declare read_one.simps [simp del]

lemma ReadAll_loop_content:
  "ReadAll_loop l acc = (out, e, l') \<Longrightarrow>
     out = acc @ limit_content l \<and>
     body_content (src l) = limit_content l @ body_content (src l') \<and>
     (\<exists>err. limit_ends l err \<and> e = (if err = EOF then None else Some err))"
proof (induction l acc arbitrary: out e l' rule: ReadAll_loop.induct)
  case (1 l acc)
  obtain bs err l1 where st: "limit_read l readAllBuf = (bs, err, l1)"
    by (cases "limit_read l readAllBuf") auto
  have split: "body_content (src l) = bs @ body_content (src l1)"
    using st by (auto simp: limit_read_def split: if_splits prod.splits dest: resp_body.rd_content)
  have lc: "limit_content l = bs @ limit_content l1" by (rule limit_reader.rd_content[OF st])
  show ?case
  proof (cases err)
    case None
    then have "ReadAll_loop l1 (acc @ bs) = (out, e, l')"
      using "1.prems" st by (simp add: ReadAll_loop.simps[of l acc])
    from "1.IH"[OF st[symmetric] refl None this]
    obtain er where IH: "out = (acc @ bs) @ limit_content l1"
        "body_content (src l1) = limit_content l1 @ body_content (src l')"
        "e = (if er = EOF then None else Some er)" and er: "limit_ends l1 er" by blast
    have "limit_ends l er" using limit_reader.rd_ends[of l readAllBuf bs l1 er] st None er by simp
    moreover have "body_content (src l) = limit_content l @ body_content (src l')"
      using IH(2) lc split by simp
    ultimately show ?thesis using IH lc by auto
  next
    case (Some e1)
    with st have "limit_content l1 = []" and en: "limit_ends l e1"
      using limit_reader.rd_end[of l readAllBuf bs e1 l1] by simp_all
    then have "limit_content l = bs" using lc by simp
    moreover have "out = acc @ bs" "l' = l1" "e = (if e1 = EOF then None else Some e1)"
      using "1.prems" st Some by (simp_all add: ReadAll_loop.simps[of l acc])
    ultimately show ?thesis using split en by blast
  qed
qed

lemma ReadAll_limited_content:
  assumes "ReadAll_limited b n = (out, e, b')"
  shows "out = take (nat n) (body_content b)"
    and "body_content b = out @ body_content b'"
    and "int (length (body_content b)) < n \<Longrightarrow> e = (if fin b = EOF then None else Some (fin b))"
    and "n < int (length (body_content b)) \<Longrightarrow> e = None"
proof -
  obtain l' where "ReadAll_loop \<lparr>src = b, remaining_N = n\<rparr> [] = (out, e, l')" and "b' = src l'"
    using assms by (auto simp: ReadAll_limited_def split: prod.splits)
  from ReadAll_loop_content[OF this(1)] this(2)
  show "out = take (nat n) (body_content b)" and "body_content b = out @ body_content b'"
    and "int (length (body_content b)) < n \<Longrightarrow> e = (if fin b = EOF then None else Some (fin b))"
    and "n < int (length (body_content b)) \<Longrightarrow> e = None"
    by (auto simp: limit_content_def limit_ends_def)
qed

lemma read_one_content:
  "read_one b = (bs, e, b') \<Longrightarrow>
     (body_content b = [] \<longrightarrow> bs = [] \<and> e = Some (fin b)) \<and>
     (body_content b \<noteq> [] \<longrightarrow> bs = [hd (body_content b)])"
proof (induction b rule: read_one.induct)
  case (1 b)
  obtain cs er b1 where st: "body_read b 1 = (cs, er, b1)" by (cases "body_read b 1") auto
  show ?case
  proof (cases "cs = [] \<and> er = None")
    case True
    then have "read_one b1 = (bs, e, b')" using "1.prems" st by (simp add: read_one.simps[of b])
    with "1.IH" st True have
      "(body_content b1 = [] \<longrightarrow> bs = [] \<and> e = Some (fin b1)) \<and>
       (body_content b1 \<noteq> [] \<longrightarrow> bs = [hd (body_content b1)])" by auto
    then show ?thesis using resp_body.rd_content[OF st] True body_read_fin[OF st] by auto
  next
    case False
    then have eq: "bs = cs" "e = er" "b' = b1" using "1.prems" st by (auto simp: read_one.simps[of b] split: if_splits)
    have len: "length cs \<le> 1" using resp_body.rd_length[OF st] .
    show ?thesis
    proof (cases cs)
      case Nil
      with False obtain x where "er = Some x" by auto
      then have "body_content b1 = []" "x = fin b" using resp_body.rd_end st by blast+
      then show ?thesis using eq Nil \<open>er = Some x\<close> resp_body.rd_content[OF st] by auto
    next
      case (Cons a as)
      then show ?thesis using eq len resp_body.rd_content[OF st] by auto
    qed
  qed
qed

end
