(* ===== verification/RpcErrors.thy ===== *)
theory RpcErrors
  imports Complex_Main Streams
begin

text \<open>
  \<^verbatim>\<open>internal/brokerrpc/errors.go\<close>: the mapping from an HTTP status to a typed error with its
  retry posture, and the bounded capture of an error body.

  \<^verbatim>\<open>strconv.ParseFloat\<close> and float64 multiplication are arguments of the model (record
  \<open>float64\<close>): a finite float is the rational it denotes.
\<close>

datatype fval = Fin rat | PosInf | NegInf | NaN

record float64 =
  ParseFloat :: "string \<Rightarrow> fval option"
  fmul :: "rat \<Rightarrow> rat \<Rightarrow> rat"

definition maxRetryAfterSeconds :: rat where
  "maxRetryAfterSeconds = 3600"

definition maxErrorBodyBytes :: int where
  "maxErrorBodyBytes = 65536"

definition errorBodyTruncationMarker :: string where
  "errorBodyTruncationMarker = '' ...[truncated]''"

definition boundErrorBody :: "bytes \<Rightarrow> string" where
  "boundErrorBody bd =
     (if int (length bd) \<le> maxErrorBodyBytes then bd
      else take (nat maxErrorBodyBytes) bd @ errorBodyTruncationMarker)"

definition captureErrorBody :: "body \<Rightarrow> bytes" where
  "captureErrorBody r =
     (case ReadAll_limited r maxErrorBodyBytes of (bd, _, r') \<Rightarrow>
        if int (length bd) = maxErrorBodyBytes
        then (case read_one r' of (probe, _, _) \<Rightarrow>
                if 0 < length probe then bd @ errorBodyTruncationMarker else bd)
        else bd)"

text \<open>
  The accepted Retry-After hint: a number that parses, is positive and below the ceiling; the
  comparisons with an infinity or NaN are Go's.
\<close>

definition float_secs_ok :: "fval \<Rightarrow> rat option" where
  "float_secs_ok v =
     (case v of Fin secs \<Rightarrow> if 0 < secs \<and> secs < maxRetryAfterSeconds then Some secs else None
      | PosInf \<Rightarrow> None | NegInf \<Rightarrow> None | NaN \<Rightarrow> None)"

definition duration_of_float :: "rat \<Rightarrow> int" where
  "duration_of_float x = (if 0 \<le> x then \<lfloor>x\<rfloor> else \<lceil>x\<rceil>)"

definition retryAfterHint :: "float64 \<Rightarrow> string \<Rightarrow> int option" where
  "retryAfterHint fl raw =
     (if raw = [] then None
      else (case ParseFloat fl raw of
              None \<Rightarrow> None
            | Some v \<Rightarrow> map_option (\<lambda>secs. duration_of_float (fmul fl secs 1000000000)) (float_secs_ok v)))"

definition MapHTTPStatus :: "float64 \<Rightarrow> int \<Rightarrow> bytes \<Rightarrow> string \<Rightarrow> gerror" where
  "MapHTTPStatus fl status bd retryAfterRaw =
     (let msg = boundErrorBody bd; args = [FInt status, FStr msg] in
      if status = 401 \<or> status = 403 then
        wrapf ''%w: status %d: %s'' args (Sentinel ErrPermissionDenied)
      else if status = 404 then
        wrapf ''%w: status %d: %s'' args (Sentinel ErrNotFound)
      else if status = 409 then
        wrapf ''%w: status %d: %s'' args (Sentinel ErrAlreadyExists)
      else if status = 400 \<or> status = 422 then
        wrapf ''%w: status %d: %s'' args (Sentinel ErrInvalidArgument)
      else if status = 429 then
        (let base = msgf ''brokerrpc: resource exhausted: status %d: %s'' args in
         case retryAfterHint fl retryAfterRaw of
           Some d \<Rightarrow> RetryError (Errorf ''%w: %w'' [] [base, ErrorRetryAfter d])
         | None \<Rightarrow> RetryError base)
      else if status = 503 then
        RetryError (msgf ''brokerrpc: unavailable: status %d: %s'' args)
      else
        wrapf ''%w: status %d: %s'' args (Sentinel ErrPermanentOther))"

text \<open>The sentinel a status stands for; the two retryable statuses carry none.\<close>

definition status_sentinel :: "int \<Rightarrow> sentinel option" where
  "status_sentinel s =
     (if s \<in> {401, 403} then Some ErrPermissionDenied
      else if s = 404 then Some ErrNotFound
      else if s = 409 then Some ErrAlreadyExists
      else if s \<in> {400, 422} then Some ErrInvalidArgument
      else if s \<in> {429, 503} then None
      else Some ErrPermanentOther)"

lemma errors_is_MapHTTPStatus: "errors_is (MapHTTPStatus fl s bd ra) t \<longleftrightarrow> status_sentinel s = Some t"
  by (auto simp: MapHTTPStatus_def status_sentinel_def Let_def split: option.splits)

lemma is_retry_MapHTTPStatus: "is_retry (MapHTTPStatus fl s bd ra) \<longleftrightarrow> s = 429 \<or> s = 503"
  by (auto simp: MapHTTPStatus_def Let_def split: option.splits)

lemma hints_MapHTTPStatus:
  "retry_after_hints (MapHTTPStatus fl s bd ra) =
     (if s = 429 then (case retryAfterHint fl ra of None \<Rightarrow> [] | Some d \<Rightarrow> [d]) else [])"
  by (auto simp: MapHTTPStatus_def Let_def split: option.splits)

lemma captureErrorBody_eq: "captureErrorBody r = boundErrorBody (body_content r)"
proof -
  obtain bd e r' where ra: "ReadAll_limited r maxErrorBodyBytes = (bd, e, r')"
    by (cases "ReadAll_limited r maxErrorBodyBytes") auto
  obtain pr e2 r2 where ro: "read_one r' = (pr, e2, r2)" by (cases "read_one r'") auto
  let ?n = "nat maxErrorBodyBytes"
  have bd: "bd = take ?n (body_content r)" and rest: "body_content r = bd @ body_content r'"
    using ReadAll_limited_content[OF ra] by blast+
  have n: "int ?n = maxErrorBodyBytes" by (simp add: maxErrorBodyBytes_def)
  show ?thesis
  proof (cases "length (body_content r) \<le> ?n")
    case True
    then have whole: "bd = body_content r" using bd by simp
    then have "body_content r' = []" using rest by simp
    then have "pr = []" using read_one_content[OF ro] by simp
    moreover have "int (length (body_content r)) \<le> maxErrorBodyBytes" using True n by linarith
    ultimately show ?thesis
      using whole by (simp add: captureErrorBody_def boundErrorBody_def ra ro)
  next
    case False
    then have len: "length bd = ?n" using bd by simp
    then have "body_content r' \<noteq> []" using False arg_cong[OF rest, of length] by auto
    then have "0 < length pr" using read_one_content[OF ro] by auto
    moreover have "\<not> int (length (body_content r)) \<le> maxErrorBodyBytes" using False n by linarith
    moreover have "int (length bd) = maxErrorBodyBytes" using len n by simp
    ultimately show ?thesis
      using bd by (simp add: captureErrorBody_def boundErrorBody_def ra ro)
  qed
qed

lemma boundErrorBody_idem: "boundErrorBody (boundErrorBody bd) = boundErrorBody bd"
  by (simp add: boundErrorBody_def maxErrorBodyBytes_def errorBodyTruncationMarker_def)

lemma length_boundErrorBody: "int (length (boundErrorBody bd)) \<le> maxErrorBodyBytes + 15"
  by (simp add: boundErrorBody_def maxErrorBodyBytes_def errorBodyTruncationMarker_def)

lemma retryAfterHint_bounds:
  assumes h: "retryAfterHint fl ra = Some d"
    and mono: "\<And>x y. x \<le> y \<Longrightarrow> fmul fl x 1000000000 \<le> fmul fl y 1000000000"
    and zero: "fmul fl 0 1000000000 = 0"
    and top: "fmul fl 3600 1000000000 = 3600000000000"
  shows "0 \<le> d \<and> d \<le> 3600000000000"
proof -
  obtain secs where s: "0 < secs" "secs < 3600" and d: "d = duration_of_float (fmul fl secs 1000000000)"
    using h by (auto simp: retryAfterHint_def float_secs_ok_def maxRetryAfterSeconds_def
        split: if_splits option.splits fval.splits)
  have lo: "0 \<le> fmul fl secs 1000000000" using mono[of 0 secs] s zero by simp
  have hi: "fmul fl secs 1000000000 \<le> 3600000000000" using mono[of secs 3600] s top by simp
  have "\<lfloor>fmul fl secs 1000000000\<rfloor> \<le> \<lfloor>3600000000000 :: rat\<rfloor>" using hi by (rule floor_mono)
  then show ?thesis using lo by (simp add: d duration_of_float_def)
qed

end
