(* ===== verification/GoJson.thy ===== *)
theory GoJson
  imports Prelude
begin

text \<open>
  Package \<^verbatim>\<open>encoding/json\<close> at the level of JSON values.  A message body is the value its text
  denotes; the text itself (whitespace, escapes) is not modelled.  Decoding into a struct follows
  Go: the members of an object are taken in order, a member finds its field by a case-insensitive
  comparison, \<^verbatim>\<open>null\<close> leaves a plain field alone and clears a pointer or slice, a member of the
  wrong type is an error, and a member with no field is skipped or, under
  \<^verbatim>\<open>DisallowUnknownFields\<close>, an error.
\<close>

datatype json =
    JNull
  | JBool bool
  | JInt int
  | JNumLit string
  | JStr string
  | JArr "json list"
  | JObj "(string \<times> json) list"

text \<open>
  The folded form of a member name: ASCII letters lose their case, and the two non-ASCII letters
  that fold to ASCII (U+017F and U+212A, here as UTF-8 bytes) become the letter they fold to.
\<close>

definition lower_char :: "char \<Rightarrow> char" where
  "lower_char c =
     (let n = of_char c :: nat in if 65 \<le> n \<and> n \<le> 90 then char_of (n + 32) else c)"

fun fold_name :: "string \<Rightarrow> string" where
  "fold_name (a # b # c # cs) =
     (if a = CHR 0xE2 \<and> b = CHR 0x84 \<and> c = CHR 0xAA then CHR ''k'' # fold_name cs
      else if a = CHR 0xC5 \<and> b = CHR 0xBF then CHR ''s'' # fold_name (c # cs)
      else lower_char a # fold_name (b # c # cs))"
| "fold_name [a, b] =
     (if a = CHR 0xC5 \<and> b = CHR 0xBF then ''s'' else [lower_char a, lower_char b])"
| "fold_name [a] = [lower_char a]"
| "fold_name [] = []"

type_synonym 'a decoder = "json \<Rightarrow> 'a \<Rightarrow> 'a option"

definition dec_string :: "string decoder" where
  "dec_string j old = (case j of JStr s \<Rightarrow> Some s | JNull \<Rightarrow> Some old | _ \<Rightarrow> None)"

definition dec_bool :: "bool decoder" where
  "dec_bool j old = (case j of JBool b \<Rightarrow> Some b | JNull \<Rightarrow> Some old | _ \<Rightarrow> None)"

definition dec_int64 :: "int decoder" where
  "dec_int64 j old =
     (case j of JInt i \<Rightarrow> if is_int64 i then Some i else None | JNull \<Rightarrow> Some old | _ \<Rightarrow> None)"

definition dec_ptr :: "'a decoder \<Rightarrow> 'a \<Rightarrow> 'a option decoder" where
  "dec_ptr d zero j old =
     (case j of
        JNull \<Rightarrow> Some None
      | _ \<Rightarrow> map_option Some (d j (case old of None \<Rightarrow> zero | Some x \<Rightarrow> x)))"

fun dec_elems :: "'a decoder \<Rightarrow> 'a \<Rightarrow> json list \<Rightarrow> 'a list option" where
  "dec_elems d zero [] = Some []"
| "dec_elems d zero (j # js) =
     (case d j zero of
        None \<Rightarrow> None
      | Some x \<Rightarrow> map_option (\<lambda>xs. x # xs) (dec_elems d zero js))"

text \<open>A slice is \<open>None\<close> when nil.\<close>

definition dec_slice :: "'a decoder \<Rightarrow> 'a \<Rightarrow> 'a list option decoder" where
  "dec_slice d zero j old =
     (case j of
        JNull \<Rightarrow> Some None
      | JArr js \<Rightarrow> map_option Some (dec_elems d zero js)
      | _ \<Rightarrow> None)"

fun dec_members ::
  "bool \<Rightarrow> (string \<times> 'a decoder) list \<Rightarrow> (string \<times> json) list \<Rightarrow> 'a \<Rightarrow> 'a option" where
  "dec_members strict fs [] a = Some a"
| "dec_members strict fs ((k, v) # kvs) a =
     (case find (\<lambda>(n, _). fold_name n = fold_name k) fs of
        None \<Rightarrow> if strict then None else dec_members strict fs kvs a
      | Some (_, d) \<Rightarrow> (case d v a of None \<Rightarrow> None | Some a' \<Rightarrow> dec_members strict fs kvs a'))"

definition dec_struct :: "bool \<Rightarrow> (string \<times> 'a decoder) list \<Rightarrow> 'a decoder" where
  "dec_struct strict fs j old =
     (case j of
        JObj kvs \<Rightarrow> dec_members strict fs kvs old
      | JNull \<Rightarrow> Some old
      | _ \<Rightarrow> None)"

text \<open>A decoder for one field of a record, from its getter and its setter.\<close>

definition field :: "string \<Rightarrow> 'b decoder \<Rightarrow> ('a \<Rightarrow> 'b) \<Rightarrow> (('b \<Rightarrow> 'b) \<Rightarrow> 'a \<Rightarrow> 'a) \<Rightarrow> string \<times> 'a decoder" where
  "field n d get upd = (n, \<lambda>j a. map_option (\<lambda>v. upd (\<lambda>_. v) a) (d j (get a)))"

lemma dec_members_append:
  "dec_members strict fs (xs @ ys) a =
     (case dec_members strict fs xs a of None \<Rightarrow> None | Some a' \<Rightarrow> dec_members strict fs ys a')"
  by (induction strict fs xs a rule: dec_members.induct) (auto split: option.splits)

text \<open>Tolerance: a member that names no field is skipped wherever it stands.\<close>

lemma dec_members_unknown:
  assumes "\<forall>n \<in> set (map fst fs). fold_name n \<noteq> fold_name k"
  shows "dec_members False fs (xs @ (k, v) # ys) a = dec_members False fs (xs @ ys) a"
    and "dec_members True fs (xs @ (k, v) # ys) a = None"
proof -
  have "find (\<lambda>(n, _). fold_name n = fold_name k) fs = None"
    using assms by (auto simp: find_None_iff)
  then show "dec_members False fs (xs @ (k, v) # ys) a = dec_members False fs (xs @ ys) a"
    and "dec_members True fs (xs @ (k, v) # ys) a = None"
    by (simp_all add: dec_members_append split: option.splits)
qed

text \<open>A member whose value never decodes makes the object fail, and an element the array.\<close>

lemma dec_members_bad:
  assumes "(k, v) \<in> set kvs" "find (\<lambda>(n, _). fold_name n = fold_name k) fs = Some (n, d)" "\<And>a. d v a = None"
  shows "dec_members strict fs kvs a = None"
  using assms(1)
proof (induction kvs arbitrary: a)
  case (Cons kv kvs)
  obtain k' v' where kv: "kv = (k', v')" by fastforce
  show ?case
  proof (cases "(k, v) = kv")
    case True
    then show ?thesis using assms(2,3) kv by simp
  next
    case False
    then show ?thesis using Cons kv by (auto split: option.splits)
  qed
qed simp

lemma dec_elems_bad: "j \<in> set js \<Longrightarrow> d j zero = None \<Longrightarrow> dec_elems d zero js = None"
  by (induction js) (auto split: option.splits)

end
