(* ===== verification/Wire.thy ===== *)
theory Wire
  imports GoJson GoErrors
begin

text \<open>
  \<^verbatim>\<open>internal/brokerrpc/intent.go\<close> and \<^verbatim>\<open>messages.go\<close>: the operation names, the central
  operation-to-intent table, the request messages with their JSON form and the response messages
  with their tolerant decoders.
\<close>

subsection \<open>Operations and intents (intent.go)\<close>

type_synonym Op = string

definition OpListDirectory :: Op where "OpListDirectory = ''listDirectory''"
definition OpReadFile :: Op where "OpReadFile = ''readFile''"
definition OpReadMetadata :: Op where "OpReadMetadata = ''readMetadata''"
definition OpGetFileMetadata :: Op where "OpGetFileMetadata = ''getFileMetadata''"
definition OpListFiles :: Op where "OpListFiles = ''listFiles''"
definition OpFileDownload :: Op where "OpFileDownload = ''fileDownload''"
definition OpMakeDirectory :: Op where "OpMakeDirectory = ''makeDirectory''"
definition OpMoveDirectory :: Op where "OpMoveDirectory = ''moveDirectory''"
definition OpRemoveDirectory :: Op where "OpRemoveDirectory = ''removeDirectory''"
definition OpCreateFile :: Op where "OpCreateFile = ''createFile''"
definition OpCopyFile :: Op where "OpCopyFile = ''copyFile''"
definition OpMoveFile :: Op where "OpMoveFile = ''moveFile''"
definition OpRemoveFile :: Op where "OpRemoveFile = ''removeFile''"
definition OpFileUpload :: Op where "OpFileUpload = ''fileUpload''"
definition OpImportFiles :: Op where "OpImportFiles = ''importFiles''"
definition OpImportZip :: Op where "OpImportZip = ''importZip''"
definition OpMigrateFilesystem :: Op where "OpMigrateFilesystem = ''migrateFilesystem''"
definition OpRemoveFilesystem :: Op where "OpRemoveFilesystem = ''removeFilesystem''"

lemmas op_defs =
  OpListDirectory_def OpReadFile_def OpReadMetadata_def OpGetFileMetadata_def OpListFiles_def
  OpFileDownload_def OpMakeDirectory_def OpMoveDirectory_def OpRemoveDirectory_def
  OpCreateFile_def OpCopyFile_def OpMoveFile_def OpRemoveFile_def OpFileUpload_def
  OpImportFiles_def OpImportZip_def OpMigrateFilesystem_def OpRemoveFilesystem_def

definition opIntentTable :: "(Op \<times> string) list" where
  "opIntentTable =
     [(OpListDirectory, ''read''), (OpReadFile, ''read''), (OpReadMetadata, ''read''),
      (OpGetFileMetadata, ''read''), (OpListFiles, ''read''), (OpFileDownload, ''read''),
      (OpMakeDirectory, ''write''), (OpMoveDirectory, ''write''), (OpRemoveDirectory, ''write''),
      (OpCreateFile, ''write''), (OpCopyFile, ''write''), (OpMoveFile, ''write''),
      (OpRemoveFile, ''write''), (OpFileUpload, ''write''), (OpImportFiles, ''write''),
      (OpImportZip, ''write''), (OpMigrateFilesystem, ''write''), (OpRemoveFilesystem, ''write'')]"

definition IntentFor :: "Op \<Rightarrow> string result" where
  "IntentFor op =
     (case map_of opIntentTable op of
        None \<Rightarrow> Inl (msgf ''brokerrpc: unknown op %q'' [FStr op])
      | Some intent \<Rightarrow> Inr intent)"

record AuthorizationMetadata =
  Intent :: string
  Downloadable :: bool

definition StampAuthMeta :: "Op \<Rightarrow> AuthorizationMetadata result" where
  "StampAuthMeta op =
     (case IntentFor op of
        Inl err \<Rightarrow> Inl err
      | Inr intent \<Rightarrow> Inr \<lparr>Intent = intent, Downloadable = False\<rparr>)"

subsection \<open>Request messages (messages.go)\<close>

record Range =
  Offset :: int
  Length :: int

datatype request =
    ListDirectoryRequest string string AuthorizationMetadata string
  | MakeDirectoryRequest string string AuthorizationMetadata
  | MoveDirectoryRequest string string string AuthorizationMetadata
  | RemoveDirectoryRequest string string AuthorizationMetadata
  | ReadMetadataRequest string string AuthorizationMetadata
  | CopyFileRequest string string string bool AuthorizationMetadata
  | MoveFileRequest string string string bool AuthorizationMetadata
  | RemoveFileRequest string string AuthorizationMetadata
  | FileUploadRequest string string int bool AuthorizationMetadata
  | FileDownloadRequest string string "Range option" AuthorizationMetadata

definition json_AuthorizationMetadata :: "AuthorizationMetadata \<Rightarrow> json" where
  "json_AuthorizationMetadata am =
     JObj [(''intent'', JStr (Intent am)), (''downloadable'', JBool (Downloadable am))]"

definition json_Range :: "Range \<Rightarrow> json" where
  "json_Range r = JObj [(''offset'', JInt (Offset r)), (''length'', JInt (Length r))]"

text \<open>\<^verbatim>\<open>json.Marshal\<close> of a request: the members in declaration order, \<^verbatim>\<open>omitempty\<close> ones only when set.\<close>

primrec marshal :: "request \<Rightarrow> json" where
  "marshal (ListDirectoryRequest fsID p am cursor) =
     JObj ([(''filesystem_id'', JStr fsID), (''path'', JStr p),
            (''authorization_metadata'', json_AuthorizationMetadata am)] @
           (if cursor = [] then [] else [(''cursor'', JStr cursor)]))"
| "marshal (MakeDirectoryRequest fsID p am) =
     JObj [(''filesystem_id'', JStr fsID), (''path'', JStr p),
           (''authorization_metadata'', json_AuthorizationMetadata am)]"
| "marshal (MoveDirectoryRequest fsID s d am) =
     JObj [(''filesystem_id'', JStr fsID), (''source'', JStr s), (''destination'', JStr d),
           (''authorization_metadata'', json_AuthorizationMetadata am)]"
| "marshal (RemoveDirectoryRequest fsID p am) =
     JObj [(''filesystem_id'', JStr fsID), (''path'', JStr p),
           (''authorization_metadata'', json_AuthorizationMetadata am)]"
| "marshal (ReadMetadataRequest fsID p am) =
     JObj [(''filesystem_id'', JStr fsID), (''path'', JStr p),
           (''authorization_metadata'', json_AuthorizationMetadata am)]"
| "marshal (CopyFileRequest fsID s d ov am) =
     JObj [(''filesystem_id'', JStr fsID), (''source'', JStr s), (''destination'', JStr d),
           (''overwrite_existing'', JBool ov),
           (''authorization_metadata'', json_AuthorizationMetadata am)]"
| "marshal (MoveFileRequest fsID s d ov am) =
     JObj [(''filesystem_id'', JStr fsID), (''source'', JStr s), (''destination'', JStr d),
           (''overwrite_existing'', JBool ov),
           (''authorization_metadata'', json_AuthorizationMetadata am)]"
| "marshal (RemoveFileRequest fsID p am) =
     JObj [(''filesystem_id'', JStr fsID), (''path'', JStr p),
           (''authorization_metadata'', json_AuthorizationMetadata am)]"
| "marshal (FileUploadRequest fsID p sz ov am) =
     JObj ([(''filesystem_id'', JStr fsID), (''path'', JStr p), (''declared_size_bytes'', JInt sz)] @
           (if ov then [(''overwrite_existing'', JBool True)] else []) @
           [(''authorization_metadata'', json_AuthorizationMetadata am)])"
| "marshal (FileDownloadRequest fsID uuid rng am) =
     JObj ([(''filesystem_id'', JStr fsID), (''uuid'', JStr uuid)] @
           (case rng of None \<Rightarrow> [] | Some r \<Rightarrow> [(''range'', json_Range r)]) @
           [(''authorization_metadata'', json_AuthorizationMetadata am)])"

subsection \<open>Response messages (messages.go)\<close>

record File =
  f_Path :: string
  f_Size :: int
  f_Mtime :: string
  f_Mode :: string
  f_SHA :: string
  f_MIME :: string
  f_UUID :: string

record FilesystemFile =
  ff_Path :: string
  ff_Size :: int
  ff_Mtime :: string
  ff_Mode :: string
  ff_SHA :: string
  ff_MIME :: string
  ff_UUID :: string

record Directory =
  d_Path :: string
  d_Mode :: string
  d_Mtime :: string

record ListDirEntry =
  e_File :: "FilesystemFile option"
  e_Directory :: "Directory option"

record ListDirectoryResponse =
  Entries :: "ListDirEntry list option"
  resp_Cursor :: string

record ReadMetadataResponse =
  m_File :: File
  m_Directory :: Directory

definition zero_File :: File where
  "zero_File = \<lparr>f_Path = [], f_Size = 0, f_Mtime = [], f_Mode = [], f_SHA = [], f_MIME = [], f_UUID = []\<rparr>"

definition zero_FilesystemFile :: FilesystemFile where
  "zero_FilesystemFile =
     \<lparr>ff_Path = [], ff_Size = 0, ff_Mtime = [], ff_Mode = [], ff_SHA = [], ff_MIME = [], ff_UUID = []\<rparr>"

definition zero_Directory :: Directory where
  "zero_Directory = \<lparr>d_Path = [], d_Mode = [], d_Mtime = []\<rparr>"

definition zero_ListDirEntry :: ListDirEntry where
  "zero_ListDirEntry = \<lparr>e_File = None, e_Directory = None\<rparr>"

definition zero_ListDirectoryResponse :: ListDirectoryResponse where
  "zero_ListDirectoryResponse = \<lparr>Entries = None, resp_Cursor = []\<rparr>"

definition zero_ReadMetadataResponse :: ReadMetadataResponse where
  "zero_ReadMetadataResponse = \<lparr>m_File = zero_File, m_Directory = zero_Directory\<rparr>"

definition dec_File :: "File decoder" where
  "dec_File = dec_struct False
     [field ''path'' dec_string f_Path f_Path_update,
      field ''size'' dec_int64 f_Size f_Size_update,
      field ''mtime'' dec_string f_Mtime f_Mtime_update,
      field ''mode'' dec_string f_Mode f_Mode_update,
      field ''sha'' dec_string f_SHA f_SHA_update,
      field ''mime'' dec_string f_MIME f_MIME_update,
      field ''uuid'' dec_string f_UUID f_UUID_update]"

definition dec_FilesystemFile :: "FilesystemFile decoder" where
  "dec_FilesystemFile = dec_struct False
     [field ''path'' dec_string ff_Path ff_Path_update,
      field ''size'' dec_int64 ff_Size ff_Size_update,
      field ''mtime'' dec_string ff_Mtime ff_Mtime_update,
      field ''mode'' dec_string ff_Mode ff_Mode_update,
      field ''sha'' dec_string ff_SHA ff_SHA_update,
      field ''mime'' dec_string ff_MIME ff_MIME_update,
      field ''uuid'' dec_string ff_UUID ff_UUID_update]"

definition dec_Directory :: "Directory decoder" where
  "dec_Directory = dec_struct False
     [field ''path'' dec_string d_Path d_Path_update,
      field ''mode'' dec_string d_Mode d_Mode_update,
      field ''mtime'' dec_string d_Mtime d_Mtime_update]"

definition dec_ListDirEntry :: "ListDirEntry decoder" where
  "dec_ListDirEntry = dec_struct False
     [field ''file'' (dec_ptr dec_FilesystemFile zero_FilesystemFile) e_File e_File_update,
      field ''directory'' (dec_ptr dec_Directory zero_Directory) e_Directory e_Directory_update]"

definition dec_ListDirectoryResponse :: "ListDirectoryResponse decoder" where
  "dec_ListDirectoryResponse = dec_struct False
     [field ''entries'' (dec_slice dec_ListDirEntry zero_ListDirEntry) Entries Entries_update,
      field ''cursor'' dec_string resp_Cursor resp_Cursor_update]"

definition dec_ReadMetadataResponse :: "ReadMetadataResponse decoder" where
  "dec_ReadMetadataResponse = dec_struct False
     [field ''file'' dec_File m_File m_File_update,
      field ''directory'' dec_Directory m_Directory m_Directory_update]"

definition dec_AckResponse :: "unit decoder" where
  "dec_AckResponse = dec_struct False []"

subsection \<open>What a stamped request carries\<close>

text \<open>The operation a request message belongs to.\<close>

primrec request_op :: "request \<Rightarrow> Op" where
  "request_op (ListDirectoryRequest fsID p am cursor) = OpListDirectory"
| "request_op (MakeDirectoryRequest fsID p am) = OpMakeDirectory"
| "request_op (MoveDirectoryRequest fsID s d am) = OpMoveDirectory"
| "request_op (RemoveDirectoryRequest fsID p am) = OpRemoveDirectory"
| "request_op (ReadMetadataRequest fsID p am) = OpReadMetadata"
| "request_op (CopyFileRequest fsID s d ov am) = OpCopyFile"
| "request_op (MoveFileRequest fsID s d ov am) = OpMoveFile"
| "request_op (RemoveFileRequest fsID p am) = OpRemoveFile"
| "request_op (FileUploadRequest fsID p sz ov am) = OpFileUpload"
| "request_op (FileDownloadRequest fsID uuid rng am) = OpFileDownload"

text \<open>Reading a member of a JSON object, as a peer does.\<close>

fun json_get :: "string \<Rightarrow> json \<Rightarrow> json option" where
  "json_get k (JObj kvs) = map_of kvs k"
| "json_get k _ = None"

lemma marshal_members [simp]:
  "json_get ''filesystem_id'' (marshal (ListDirectoryRequest f p a c)) = Some (JStr f)"
  "json_get ''filesystem_id'' (marshal (MakeDirectoryRequest f p a)) = Some (JStr f)"
  "json_get ''filesystem_id'' (marshal (MoveDirectoryRequest f s d a)) = Some (JStr f)"
  "json_get ''filesystem_id'' (marshal (RemoveDirectoryRequest f p a)) = Some (JStr f)"
  "json_get ''filesystem_id'' (marshal (ReadMetadataRequest f p a)) = Some (JStr f)"
  "json_get ''filesystem_id'' (marshal (CopyFileRequest f s d ov a)) = Some (JStr f)"
  "json_get ''filesystem_id'' (marshal (MoveFileRequest f s d ov a)) = Some (JStr f)"
  "json_get ''filesystem_id'' (marshal (RemoveFileRequest f p a)) = Some (JStr f)"
  "json_get ''filesystem_id'' (marshal (FileUploadRequest f p n ov a)) = Some (JStr f)"
  "json_get ''filesystem_id'' (marshal (FileDownloadRequest f u r a)) = Some (JStr f)"
  by simp_all

lemma IntentFor_cases:
  "IntentFor OpListDirectory = Inr ''read''" "IntentFor OpReadMetadata = Inr ''read''"
  "IntentFor OpFileDownload = Inr ''read''" "IntentFor OpMakeDirectory = Inr ''write''"
  "IntentFor OpMoveDirectory = Inr ''write''" "IntentFor OpRemoveDirectory = Inr ''write''"
  "IntentFor OpCopyFile = Inr ''write''" "IntentFor OpMoveFile = Inr ''write''"
  "IntentFor OpRemoveFile = Inr ''write''" "IntentFor OpFileUpload = Inr ''write''"
  by (simp_all add: IntentFor_def opIntentTable_def op_defs)

lemma StampAuthMeta_known [simp]:
  "StampAuthMeta (request_op r) = Inr \<lparr>Intent = projr (IntentFor (request_op r)), Downloadable = False\<rparr>"
  by (cases r) (simp_all add: StampAuthMeta_def IntentFor_cases)

end
