(* ===== verification/JsonText.thy ===== *)
theory JsonText
  imports GoJson
begin

text \<open>
  The text of a JSON value as package \<^verbatim>\<open>encoding/json\<close> writes and reads it: UTF-8 validation, the
  escapes of \<^verbatim>\<open>json.Marshal\<close> (HTML-safe, with U+FFFD for bytes that are not UTF-8), and a parser
  for the whole grammar.  \<open>json_roundtrip\<close> says that reading a written value gives it back when
  its strings are UTF-8; a string that is not loses its invalid bytes, as in Go.  The parser takes
  fuel, and the length of its input is always enough for a written value.  The nesting limit of
  10000 levels is not part of the model.
\<close>

subsection \<open>UTF-8\<close>

abbreviation byte :: "char \<Rightarrow> nat" where
  "byte c \<equiv> of_char c"

definition between :: "nat \<Rightarrow> nat \<Rightarrow> char \<Rightarrow> bool" where
  "between lo hi c \<longleftrightarrow> lo \<le> byte c \<and> byte c \<le> hi"

text \<open>The byte sequences of two, three and four bytes that are a rune.\<close>

definition rune2 :: "char \<Rightarrow> char \<Rightarrow> bool" where
  "rune2 a b \<longleftrightarrow> between 0xC2 0xDF a \<and> between 0x80 0xBF b"

definition rune3 :: "char \<Rightarrow> char \<Rightarrow> char \<Rightarrow> bool" where
  "rune3 a b c \<longleftrightarrow>
     between 0xE0 0xEF a \<and>
     between (if byte a = 0xE0 then 0xA0 else 0x80) (if byte a = 0xED then 0x9F else 0xBF) b \<and>
     between 0x80 0xBF c"

definition rune4 :: "char \<Rightarrow> char \<Rightarrow> char \<Rightarrow> char \<Rightarrow> bool" where
  "rune4 a b c d \<longleftrightarrow>
     between 0xF0 0xF4 a \<and>
     between (if byte a = 0xF0 then 0x90 else 0x80) (if byte a = 0xF4 then 0x8F else 0xBF) b \<and>
     between 0x80 0xBF c \<and> between 0x80 0xBF d"

text \<open>The number of bytes of the rune a string starts with; 0 when the bytes are not UTF-8.\<close>

fun utf8_size :: "bytes \<Rightarrow> nat" where
  "utf8_size [] = 0"
| "utf8_size [a] = (if byte a < 0x80 then 1 else 0)"
| "utf8_size [a, b] = (if byte a < 0x80 then 1 else if rune2 a b then 2 else 0)"
| "utf8_size [a, b, c] =
     (if byte a < 0x80 then 1 else if rune2 a b then 2 else if rune3 a b c then 3 else 0)"
| "utf8_size (a # b # c # d # r) =
     (if byte a < 0x80 then 1 else if rune2 a b then 2 else if rune3 a b c then 3
      else if rune4 a b c d then 4 else 0)"

lemma utf8_size_prefix:
  assumes "0 < utf8_size s"
  shows "utf8_size (take (utf8_size s) s @ t) = utf8_size s"
proof -
  have *: "utf8_size (a # t) = 1" if "byte a < 0x80" for a t
    using that by (cases "a # t" rule: utf8_size.cases) auto
  have **: "utf8_size (a # b # t) = 2" if "\<not> byte a < 0x80" "rune2 a b" for a b t
    using that by (cases "a # b # t" rule: utf8_size.cases) auto
  have ***: "utf8_size (a # b # c # t) = 3" if "\<not> byte a < 0x80" "\<not> rune2 a b" "rune3 a b c" for a b c t
    using that by (cases "a # b # c # t" rule: utf8_size.cases) auto
  show ?thesis
    using assms by (cases s rule: utf8_size.cases) (auto simp: * ** *** split: if_splits)
qed

lemma utf8_size_le: "utf8_size s \<le> length s"
  by (cases s rule: utf8_size.cases) auto

lemma utf8_size_ascii: "byte c < 0x80 \<Longrightarrow> utf8_size (c # r) = 1"
  by (cases "c # r" rule: utf8_size.cases) auto

function utf8_valid :: "bytes \<Rightarrow> bool" where
  "utf8_valid s =
     (if s = [] then True
      else if utf8_size s = 0 then False
      else utf8_valid (drop (utf8_size s) s))"
  by pat_completeness auto
termination
  by (relation "measure length") auto

declare utf8_valid.simps [simp del]

definition encode_rune :: "nat \<Rightarrow> bytes" where
  "encode_rune u =
     (if u < 0x80 then [char_of u]
      else if u < 0x800 then [char_of (0xC0 + u div 64), char_of (0x80 + u mod 64)]
      else if u < 0x10000 then
        [char_of (0xE0 + u div 4096), char_of (0x80 + u div 64 mod 64), char_of (0x80 + u mod 64)]
      else [char_of (0xF0 + u div 262144), char_of (0x80 + u div 4096 mod 64),
            char_of (0x80 + u div 64 mod 64), char_of (0x80 + u mod 64)])"

definition rune_error :: bytes where
  "rune_error = [CHR 0xEF, CHR 0xBF, CHR 0xBD]"

subsection \<open>Writing\<close>

definition hex_digit :: "nat \<Rightarrow> char" where
  "hex_digit n = (if n < 10 then char_of (48 + n) else char_of (87 + n))"

definition escape_u :: "nat \<Rightarrow> bytes" where
  "escape_u u =
     [CHR 0x5C, CHR ''u'', hex_digit (u div 4096 mod 16), hex_digit (u div 256 mod 16),
      hex_digit (u div 16 mod 16), hex_digit (u mod 16)]"

text \<open>The escapes of one ASCII character.\<close>

definition escape_char :: "char \<Rightarrow> bytes" where
  "escape_char c =
     (if c = CHR 0x22 \<or> c = CHR 0x5C then [CHR 0x5C, c]
      else if c = CHR 0x08 then [CHR 0x5C, CHR ''b'']
      else if c = CHR 0x0C then [CHR 0x5C, CHR ''f'']
      else if c = CHR 0x0A then [CHR 0x5C, CHR ''n'']
      else if c = CHR 0x0D then [CHR 0x5C, CHR ''r'']
      else if c = CHR 0x09 then [CHR 0x5C, CHR ''t'']
      else if byte c < 0x20 \<or> c = CHR ''<'' \<or> c = CHR ''>'' \<or> c = CHR ''&'' then escape_u (byte c)
      else [c])"

definition line_sep :: "bytes \<Rightarrow> bool" where
  "line_sep r \<longleftrightarrow> r = [CHR 0xE2, CHR 0x80, CHR 0xA8] \<or> r = [CHR 0xE2, CHR 0x80, CHR 0xA9]"

function json_chars :: "bytes \<Rightarrow> bytes" where
  "json_chars s =
     (case s of
        [] \<Rightarrow> []
      | c # r \<Rightarrow>
          if byte c < 0x80 then escape_char c @ json_chars r
          else if utf8_size s = 0 then escape_u 0xFFFD @ json_chars r
          else if line_sep (take (utf8_size s) s) then
            escape_u (if byte (take (utf8_size s) s ! 2) = 0xA8 then 0x2028 else 0x2029) @ json_chars (drop (utf8_size s) s)
          else take (utf8_size s) s @ json_chars (drop (utf8_size s) s))"
  by pat_completeness auto
termination
  by (relation "measure length") auto

declare json_chars.simps [simp del]

definition json_string :: "string \<Rightarrow> bytes" where
  "json_string s = CHR 0x22 # json_chars s @ [CHR 0x22]"

definition json_int :: "int \<Rightarrow> bytes" where
  "json_int i = (if i < 0 then CHR ''-'' # dec_digits (nat (- i)) else dec_digits (nat i))"

fun comma_sep :: "bytes list \<Rightarrow> bytes" where
  "comma_sep [] = []"
| "comma_sep [x] = x"
| "comma_sep (x # y # xs) = x @ CHR '','' # comma_sep (y # xs)"

primrec json_text :: "json \<Rightarrow> bytes" where
  "json_text JNull = ''null''"
| "json_text (JBool b) = (if b then ''true'' else ''false'')"
| "json_text (JInt i) = json_int i"
| "json_text (JNumLit s) = s"
| "json_text (JStr s) = json_string s"
| "json_text (JArr js) = CHR ''['' # comma_sep (map json_text js) @ '']''"
| "json_text (JObj kvs) =
     CHR ''{'' # comma_sep (map (\<lambda>(k, t). json_string k @ CHR '':'' # t) (map (map_prod id json_text) kvs)) @ ''}''"

subsection \<open>Reading\<close>

definition is_ws :: "char \<Rightarrow> bool" where
  "is_ws c \<longleftrightarrow> c = CHR 0x20 \<or> c = CHR 0x09 \<or> c = CHR 0x0A \<or> c = CHR 0x0D"

definition skip_ws :: "bytes \<Rightarrow> bytes" where
  "skip_ws s = dropWhile is_ws s"

definition is_dec :: "char \<Rightarrow> bool" where
  "is_dec c \<longleftrightarrow> between 48 57 c"

definition hex_value :: "char \<Rightarrow> nat option" where
  "hex_value c =
     (if between 48 57 c then Some (byte c - 48)
      else if between 97 102 c then Some (byte c - 87)
      else if between 65 70 c then Some (byte c - 55)
      else None)"

definition hex4 :: "bytes \<Rightarrow> (nat \<times> bytes) option" where
  "hex4 s =
     (case s of
        a # b # c # d # r \<Rightarrow>
          (case (hex_value a, hex_value b, hex_value c, hex_value d) of
             (Some w, Some x, Some y, Some z) \<Rightarrow> Some (w * 4096 + x * 256 + y * 16 + z, r)
           | _ \<Rightarrow> None)
      | _ \<Rightarrow> None)"

definition simple_escape :: "char \<Rightarrow> char option" where
  "simple_escape c =
     (if c = CHR 0x22 \<or> c = CHR 0x5C \<or> c = CHR ''/'' then Some c
      else if c = CHR ''b'' then Some (CHR 0x08)
      else if c = CHR ''f'' then Some (CHR 0x0C)
      else if c = CHR ''n'' then Some (CHR 0x0A)
      else if c = CHR ''r'' then Some (CHR 0x0D)
      else if c = CHR ''t'' then Some (CHR 0x09)
      else None)"

text \<open>
  A \<open>\u\<close> escape, after its first four digits: a surrogate pair is one rune, a lone surrogate the
  replacement character.
\<close>

definition unescape_u :: "nat \<Rightarrow> bytes \<Rightarrow> bytes \<times> bytes" where
  "unescape_u u r =
     (if 0xD800 \<le> u \<and> u < 0xE000 then
        (case r of
           a # b # r' \<Rightarrow>
             (if a = CHR 0x5C \<and> b = CHR ''u'' \<and> u < 0xDC00 then
                (case hex4 r' of
                   Some (v, r'') \<Rightarrow>
                     if 0xDC00 \<le> v \<and> v < 0xE000
                     then (encode_rune (0x10000 + (u - 0xD800) * 1024 + (v - 0xDC00)), r'')
                     else (rune_error, r)
                 | None \<Rightarrow> (rune_error, r))
              else (rune_error, r))
         | _ \<Rightarrow> (rune_error, r))
      else (encode_rune u, r))"

lemma hex4_length: "hex4 s = Some (u, r) \<Longrightarrow> length r < length s"
  by (auto simp: hex4_def split: list.splits option.splits)

lemma unescape_u_length: "length (snd (unescape_u u r)) \<le> length r"
  by (auto simp: unescape_u_def split: list.splits option.splits dest!: hex4_length)

text \<open>The characters of a string up to its closing quote.\<close>

function parse_chars :: "bytes \<Rightarrow> (bytes \<times> bytes) option" where
  "parse_chars s =
     (case s of
        [] \<Rightarrow> None
      | c # r \<Rightarrow>
          if c = CHR 0x22 then Some ([], r)
          else if c = CHR 0x5C then
            (case r of
               [] \<Rightarrow> None
             | e # r' \<Rightarrow>
                 (case simple_escape e of
                    Some x \<Rightarrow> map_option (apfst (\<lambda>t. x # t)) (parse_chars r')
                  | None \<Rightarrow>
                      if e = CHR ''u'' then
                        (case hex4 r' of
                           None \<Rightarrow> None
                         | Some (u, r'') \<Rightarrow>
                             map_option (apfst (\<lambda>t. fst (unescape_u u r'') @ t))
                               (parse_chars (snd (unescape_u u r''))))
                      else None))
          else if byte c < 0x20 then None
          else if byte c < 0x80 then map_option (apfst (\<lambda>t. c # t)) (parse_chars r)
          else if utf8_size s = 0 then map_option (apfst (\<lambda>t. rune_error @ t)) (parse_chars r)
          else map_option (apfst (\<lambda>t. take (utf8_size s) s @ t)) (parse_chars (drop (utf8_size s) s)))"
  by pat_completeness auto
termination
  by (relation "measure length")
     (auto dest!: hex4_length intro: le_less_trans[OF unescape_u_length])

declare parse_chars.simps [simp del]

definition digits_span :: "bytes \<Rightarrow> bytes \<times> bytes" where
  "digits_span s = (takeWhile is_dec s, dropWhile is_dec s)"

text \<open>The integer part of a number: no leading zero.\<close>

definition parse_intpart :: "bytes \<Rightarrow> (bytes \<times> bytes) option" where
  "parse_intpart s =
     (case s of
        [] \<Rightarrow> None
      | c # r \<Rightarrow> if c = CHR ''0'' then Some ([c], r) else if is_dec c then Some (digits_span s) else None)"

definition parse_frac :: "bytes \<Rightarrow> (bytes \<times> bytes) option" where
  "parse_frac s =
     (case s of
        c # r \<Rightarrow>
          if c = CHR ''.'' then
            (if fst (digits_span r) = [] then None else Some (c # fst (digits_span r), snd (digits_span r)))
          else Some ([], s)
      | [] \<Rightarrow> Some ([], s))"

definition parse_exp :: "bytes \<Rightarrow> (bytes \<times> bytes) option" where
  "parse_exp s =
     (case s of
        c # r \<Rightarrow>
          if c = CHR ''e'' \<or> c = CHR ''E'' then
            (let (sg, r1) = (case r of
                               x # y \<Rightarrow> if x = CHR ''+'' \<or> x = CHR ''-'' then ([x], y) else ([], r)
                             | [] \<Rightarrow> ([], r)) in
             if fst (digits_span r1) = [] then None
             else Some (c # sg @ fst (digits_span r1), snd (digits_span r1)))
          else Some ([], s)
      | [] \<Rightarrow> Some ([], s))"

definition dec_value :: "bytes \<Rightarrow> nat" where
  "dec_value ds = foldl (\<lambda>n c. 10 * n + (byte c - 48)) 0 ds"

text \<open>A literal without fraction and exponent is an integer; any other keeps its text.\<close>

definition parse_number :: "bytes \<Rightarrow> (json \<times> bytes) option" where
  "parse_number s =
     (let (neg, s1) = (case s of c # r \<Rightarrow> if c = CHR ''-'' then (True, r) else (False, s) | [] \<Rightarrow> (False, s)) in
      case parse_intpart s1 of
        None \<Rightarrow> None
      | Some (ip, s2) \<Rightarrow>
          (case parse_frac s2 of
             None \<Rightarrow> None
           | Some (fp, s3) \<Rightarrow>
               (case parse_exp s3 of
                  None \<Rightarrow> None
                | Some (ep, s4) \<Rightarrow>
                    if fp = [] \<and> ep = []
                    then Some (JInt (if neg then - int (dec_value ip) else int (dec_value ip)), s4)
                    else Some (JNumLit ((if neg then ''-'' else []) @ ip @ fp @ ep), s4))))"

definition parse_literal :: "bytes \<Rightarrow> (json \<times> bytes) option" where
  "parse_literal s =
     (if HasPrefix s ''true'' then Some (JBool True, drop 4 s)
      else if HasPrefix s ''false'' then Some (JBool False, drop 5 s)
      else if HasPrefix s ''null'' then Some (JNull, drop 4 s)
      else parse_number s)"

fun parse_value :: "nat \<Rightarrow> bytes \<Rightarrow> (json \<times> bytes) option"
and parse_elems :: "nat \<Rightarrow> bytes \<Rightarrow> (json list \<times> bytes) option"
and parse_members :: "nat \<Rightarrow> bytes \<Rightarrow> ((string \<times> json) list \<times> bytes) option" where
  "parse_value 0 s = None"
| "parse_value (Suc n) s =
     (case skip_ws s of
        [] \<Rightarrow> None
      | c # r \<Rightarrow>
          if c = CHR ''{'' then
            (case skip_ws r of
               [] \<Rightarrow> None
             | d # r' \<Rightarrow>
                 if d = CHR ''}'' then Some (JObj [], r')
                 else map_option (apfst JObj) (parse_members n (d # r')))
          else if c = CHR ''['' then
            (case skip_ws r of
               [] \<Rightarrow> None
             | d # r' \<Rightarrow>
                 if d = CHR '']'' then Some (JArr [], r')
                 else map_option (apfst JArr) (parse_elems n (d # r')))
          else if c = CHR 0x22 then map_option (apfst JStr) (parse_chars r)
          else parse_literal (c # r))"
| "parse_elems 0 s = None"
| "parse_elems (Suc n) s =
     (case parse_value n s of
        None \<Rightarrow> None
      | Some (j, r) \<Rightarrow>
          (case skip_ws r of
             [] \<Rightarrow> None
           | d # r' \<Rightarrow>
               if d = CHR '']'' then Some ([j], r')
               else if d = CHR '','' then map_option (apfst (\<lambda>js. j # js)) (parse_elems n r')
               else None))"
| "parse_members 0 s = None"
| "parse_members (Suc n) s =
     (case skip_ws s of
        [] \<Rightarrow> None
      | q # r \<Rightarrow>
          if q \<noteq> CHR 0x22 then None
          else
            (case parse_chars r of
               None \<Rightarrow> None
             | Some (k, r1) \<Rightarrow>
                 (case skip_ws r1 of
                    [] \<Rightarrow> None
                  | col # r2 \<Rightarrow>
                      if col \<noteq> CHR '':'' then None
                      else
                        (case parse_value n r2 of
                           None \<Rightarrow> None
                         | Some (v, r3) \<Rightarrow>
                             (case skip_ws r3 of
                                [] \<Rightarrow> None
                              | d # r4 \<Rightarrow>
                                  if d = CHR ''}'' then Some ([(k, v)], r4)
                                  else if d = CHR '','' then
                                    map_option (apfst (\<lambda>ms. (k, v) # ms)) (parse_members n r4)
                                  else None)))))"

text \<open>
  \<^verbatim>\<open>json.Unmarshal\<close> takes one value and white space; \<^verbatim>\<open>Decoder.Decode\<close> takes the first value and
  leaves the rest unread.
\<close>

definition json_Unmarshal :: "bytes \<Rightarrow> json option" where
  "json_Unmarshal s =
     (case parse_value (Suc (length s)) s of
        None \<Rightarrow> None
      | Some (j, r) \<Rightarrow> if skip_ws r = [] then Some j else None)"

definition json_Decode :: "bytes \<Rightarrow> json option" where
  "json_Decode s = map_option fst (parse_value (Suc (length s)) s)"

subsection \<open>Reading what was written\<close>

lemma hex_value_digit: "n < 16 \<Longrightarrow> hex_value (hex_digit n) = Some n"
  by (auto simp: hex_value_def hex_digit_def between_def)

lemma hex_split:
  fixes u :: nat
  shows "u div 4096 * 4096 + u div 256 mod 16 * 256 + u div 16 mod 16 * 16 + u mod 16 = u"
proof -
  have "u = u div 16 * 16 + u mod 16" by simp
  moreover have "u div 16 = u div 256 * 16 + u div 16 mod 16"
    using div_mult2_eq[of u 16 16] by simp
  moreover have "u div 256 = u div 4096 * 16 + u div 256 mod 16"
    using div_mult2_eq[of u 256 16] by simp
  ultimately show ?thesis by linarith
qed

lemma hex4_escape: "u < 65536 \<Longrightarrow> hex4 (drop 2 (escape_u u) @ r) = Some (u, r)"
  using hex_split[of u] by (simp add: escape_u_def hex4_def hex_value_digit)

lemma encode_rune_ascii: "byte c < 0x80 \<Longrightarrow> encode_rune (byte c) = [c]"
  by (simp add: encode_rune_def)

lemma parse_escape_u:
  assumes "u < 0xD800"
  shows "parse_chars (escape_u u @ r) = map_option (apfst (\<lambda>t. encode_rune u @ t)) (parse_chars r)"
proof -
  define ds where "ds = drop 2 (escape_u u)"
  have e: "escape_u u = CHR 0x5C # CHR ''u'' # ds" by (simp add: escape_u_def ds_def)
  have "hex4 (ds @ r) = Some (u, r)" using assms hex4_escape[of u r] by (simp add: ds_def)
  then show ?thesis
    using assms unfolding e
    by (subst parse_chars.simps) (simp add: simple_escape_def unescape_u_def)
qed

lemma parse_escape_char:
  assumes "byte c < 0x80"
  shows "parse_chars (escape_char c @ r) = map_option (apfst (\<lambda>t. c # t)) (parse_chars r)"
proof (cases "c \<in> {CHR 0x22, CHR 0x5C, CHR 0x08, CHR 0x0C, CHR 0x0A, CHR 0x0D, CHR 0x09}")
  case True
  then show ?thesis
    by (subst parse_chars.simps) (auto simp: escape_char_def simple_escape_def)
next
  case False
  show ?thesis
  proof (cases "byte c < 0x20 \<or> c = CHR ''<'' \<or> c = CHR ''>'' \<or> c = CHR ''&''")
    case True
    then have "escape_char c = escape_u (byte c)" using False by (auto simp: escape_char_def)
    then show ?thesis using assms parse_escape_u[of "byte c" r] by (simp add: encode_rune_ascii)
  next
    case plain: False
    then have "escape_char c = [c]" using False by (auto simp: escape_char_def)
    then show ?thesis using False plain assms by (subst parse_chars.simps) simp
  qed
qed

lemma parse_rune:
  assumes "\<not> byte (hd s) < 0x80" "0 < utf8_size s"
  shows "parse_chars (take (utf8_size s) s @ t) =
    map_option (apfst (\<lambda>u. take (utf8_size s) s @ u)) (parse_chars t)"
proof -
  obtain c r where s: "s = c # r" using assms(2) by (cases s) auto
  let ?n = "utf8_size s"
  obtain u where u: "take ?n s @ t = c # u" using assms(2) s by (cases ?n) auto
  have "c \<noteq> CHR 0x22" "c \<noteq> CHR 0x5C" "\<not> byte c < 0x20" "\<not> byte c < 0x80"
    using assms(1) s by auto
  moreover have "utf8_size (c # u) = ?n" using utf8_size_prefix[OF assms(2), of t] by (simp only: u)
  moreover have "drop ?n (take ?n s @ t) = t" "take ?n (take ?n s @ t) = take ?n s"
    using utf8_size_le[of s] by simp_all
  then have "drop ?n (c # u) = t" "take ?n (c # u) = take ?n s" by (simp_all only: u)
  ultimately show ?thesis
    using assms(2) unfolding u by (subst parse_chars.simps) simp
qed

lemma line_sep_rune:
  assumes "line_sep r"
  shows "encode_rune (if byte (r ! 2) = 0xA8 then 0x2028 else 0x2029) = r"
  using assms by (auto simp: line_sep_def encode_rune_def char_of_eq_iff)

lemma parse_json_chars:
  "utf8_valid s \<Longrightarrow> parse_chars (json_chars s @ CHR 0x22 # rest) = Some (s, rest)"
proof (induction s rule: utf8_valid.induct)
  case (1 s)
  show ?case
  proof (cases s)
    case Nil
    then show ?thesis by (simp add: json_chars.simps[of "[]"] parse_chars.simps[of "CHR 0x22 # rest"])
  next
    case (Cons c r)
    let ?n = "utf8_size s"
    have n: "0 < ?n" and rest: "utf8_valid (drop ?n s)"
      using "1.prems" Cons by (subst (asm) (1) utf8_valid.simps; simp split: if_splits)+
    have IH: "parse_chars (json_chars (drop ?n s) @ CHR 0x22 # rest) = Some (drop ?n s, rest)"
      using "1.IH" Cons n rest by auto
    note unf = json_chars.simps[of "c # r"]
    show ?thesis
    proof (cases "byte c < 0x80")
      case True
      then have "?n = 1" using Cons by (simp add: utf8_size_ascii)
      then show ?thesis using True Cons IH by (simp add: unf parse_escape_char)
    next
      case False
      show ?thesis
      proof (cases "line_sep (take ?n s)")
        case True
        then show ?thesis
          using False True Cons IH n line_sep_rune[OF True] by (simp add: unf parse_escape_u)
      next
        case plain: False
        then show ?thesis using False Cons IH n parse_rune[of s] by (simp add: unf)
      qed
    qed
  qed
qed

lemma skip_ws_Cons [simp]: "\<not> is_ws c \<Longrightarrow> skip_ws (c # r) = c # r"
  by (simp add: skip_ws_def)

lemma dec_digits_Suc: "10 \<le> n \<Longrightarrow> dec_digits n = dec_digits (n div 10) @ [char_of (48 + n mod 10)]"
  by (subst dec_digits.simps) simp

lemma dec_digits_one: "n < 10 \<Longrightarrow> dec_digits n = [char_of (48 + n)]"
  by (subst dec_digits.simps) simp

lemma dec_digits_facts:
  "list_all is_dec (dec_digits n) \<and> dec_digits n \<noteq> [] \<and> dec_value (dec_digits n) = n \<and>
   (0 < n \<longrightarrow> hd (dec_digits n) \<noteq> CHR ''0'')"
proof (induction n rule: less_induct)
  case (less n)
  show ?case
  proof (cases "n < 10")
    case True
    have "char_of (48 + n) = CHR ''0'' \<longleftrightarrow> n = 0" using True by (simp add: char_of_eq_iff take_bit_eq_mod)
    then show ?thesis using True
      by (simp add: dec_digits_one is_dec_def between_def dec_value_def)
  next
    case False
    then have "n div 10 < n" "0 < n div 10" by simp_all
    with less[of "n div 10"] have "list_all is_dec (dec_digits (n div 10))" "dec_digits (n div 10) \<noteq> []"
      "dec_value (dec_digits (n div 10)) = n div 10" "hd (dec_digits (n div 10)) \<noteq> CHR ''0''" by auto
    moreover have "dec_digits n = dec_digits (n div 10) @ [char_of (48 + n mod 10)]"
      using False by (simp add: dec_digits_Suc)
    moreover have "n mod 10 \<le> 9" using mod_less_divisor[of 10 n] by linarith
    then have "is_dec (char_of (48 + n mod 10))" by (simp add: is_dec_def between_def)
    ultimately show ?thesis by (simp add: dec_value_def)
  qed
qed

lemma is_dec_not:
  "is_dec d \<Longrightarrow> \<not> is_ws d \<and> d \<noteq> CHR '']'' \<and> d \<noteq> CHR ''}'' \<and> d \<noteq> CHR ''{'' \<and> d \<noteq> CHR ''['' \<and> d \<noteq> CHR 0x22"
  by (auto simp: is_ws_def is_dec_def between_def)

lemma dec_digits_Cons:
  obtains d ds where "dec_digits n = d # ds" "is_dec d"
  using dec_digits_facts[of n] that by (cases "dec_digits n") auto

text \<open>What may follow a number without being read as part of it.\<close>

definition num_end :: "bytes \<Rightarrow> bool" where
  "num_end r \<longleftrightarrow> r = [] \<or> (\<not> is_dec (hd r) \<and> hd r \<notin> {CHR ''.'', CHR ''e'', CHR ''E''})"

lemma digits_span_append:
  assumes "list_all is_dec ds" "num_end r"
  shows "digits_span (ds @ r) = (ds, r)"
  using assms by (cases r) (auto simp: digits_span_def num_end_def list_all_iff takeWhile_append dropWhile_append)

lemma parse_intpart_digits:
  assumes "num_end r"
  shows "parse_intpart (dec_digits n @ r) = Some (dec_digits n, r)"
proof (cases "n = 0")
  case True
  then show ?thesis using assms by (simp add: dec_digits_one parse_intpart_def char_of_eq_iff)
next
  case False
  obtain d ds where d: "dec_digits n = d # ds" using dec_digits_facts[of n] by (cases "dec_digits n") auto
  have "d \<noteq> CHR ''0''" "is_dec d" using dec_digits_facts[of n] False d by auto
  moreover have "digits_span (dec_digits n @ r) = (dec_digits n, r)"
    using dec_digits_facts[of n] assms by (intro digits_span_append) auto
  ultimately show ?thesis by (simp add: parse_intpart_def d)
qed

lemma num_end_stops:
  assumes "num_end r"
  shows "parse_frac r = Some ([], r)" "parse_exp r = Some ([], r)"
  using assms by (cases r; simp add: parse_frac_def parse_exp_def num_end_def)+

lemma parse_json_int:
  assumes "num_end r"
  shows "parse_number (json_int i @ r) = Some (JInt i, r)"
proof -
  have v: "dec_value (dec_digits n) = n" for n using dec_digits_facts by blast
  obtain d ds where d: "dec_digits (nat i) = d # ds" "is_dec d" by (rule dec_digits_Cons)
  have m: "d \<noteq> CHR ''-''" using d(2) by (auto simp: is_dec_def between_def)
  show ?thesis
  proof (cases "i < 0")
    case True
    then show ?thesis
      using assms
      by (simp add: parse_number_def json_int_def parse_intpart_digits num_end_stops v)
  next
    case False
    then show ?thesis
      using assms m parse_intpart_digits[OF assms, of "nat i"] v[of "nat i"]
      by (simp add: parse_number_def json_int_def d(1) num_end_stops)
  qed
qed

text \<open>A value whose strings are UTF-8 and whose numbers are integers.\<close>

primrec json_ok :: "json \<Rightarrow> bool" where
  "json_ok JNull \<longleftrightarrow> True"
| "json_ok (JBool b) \<longleftrightarrow> True"
| "json_ok (JInt i) \<longleftrightarrow> True"
| "json_ok (JNumLit s) \<longleftrightarrow> False"
| "json_ok (JStr s) \<longleftrightarrow> utf8_valid s"
| "json_ok (JArr js) \<longleftrightarrow> list_all id (map json_ok js)"
| "json_ok (JObj kvs) \<longleftrightarrow> list_all (\<lambda>(k, b). utf8_valid k \<and> b) (map (map_prod id json_ok) kvs)"

lemma json_text_hd:
  assumes "json_ok j"
  obtains c r where "json_text j = c # r" "\<not> is_ws c" "c \<noteq> CHR '']''" "c \<noteq> CHR ''}''"
proof (cases j)
  case (JInt i)
  obtain d ds where "dec_digits (nat i) = d # ds" "is_dec d" by (rule dec_digits_Cons)
  then show ?thesis
    using that[of d ds] that[of "CHR ''-''"] JInt is_dec_not[of d]
    by (cases "i < 0") (simp_all add: json_int_def is_ws_def)
next
  case (JBool b)
  then show ?thesis using that by (cases b) (simp_all add: is_ws_def)
qed (use that assms in \<open>auto simp: json_string_def is_ws_def\<close>)

lemma parse_literal_int: "num_end r \<Longrightarrow> parse_literal (json_int i @ r) = Some (JInt i, r)"
proof -
  assume r: "num_end r"
  obtain d ds where d: "json_int i = d # ds" "is_dec d \<or> d = CHR ''-''"
  proof (cases "i < 0")
    case False
    obtain d ds where "dec_digits (nat i) = d # ds" "is_dec d" by (rule dec_digits_Cons)
    then show ?thesis using that False by (simp add: json_int_def)
  qed (simp add: that json_int_def)
  then have "\<not> HasPrefix (json_int i @ r) ''true''" "\<not> HasPrefix (json_int i @ r) ''false''"
    "\<not> HasPrefix (json_int i @ r) ''null''"
    by (auto simp: HasPrefix_def is_dec_def between_def)
  then show ?thesis using parse_json_int[OF r] by (simp add: parse_literal_def)
qed

lemma parse_elems_text:
  assumes "js \<noteq> []" "\<And>j n r. j \<in> set js \<Longrightarrow> length (json_text j) \<le> n \<Longrightarrow> num_end r \<Longrightarrow>
      parse_value n (json_text j @ r) = Some (j, r)"
    and "length (comma_sep (map json_text js)) < n"
  shows "parse_elems n (comma_sep (map json_text js) @ CHR '']'' # r) = Some (js, r)"
  using assms
proof (induction js arbitrary: n)
  case (Cons j js)
  obtain m where n: "n = Suc m" using Cons.prems(3) by (cases n) auto
  have stop: "num_end (CHR '']'' # r)" "\<And>s. num_end (CHR '','' # s)"
    by (simp_all add: num_end_def is_dec_def between_def)
  have ws: "\<not> is_ws (CHR '']'')" "\<not> is_ws (CHR '','')" by (simp_all add: is_ws_def)
  show ?case
  proof (cases js)
    case Nil
    then show ?thesis using Cons.prems(2)[of j m "CHR '']'' # r"] Cons.prems(3) n stop ws by simp
  next
    case (Cons k ks)
    let ?t = "comma_sep (map json_text js) @ CHR '']'' # r"
    have "parse_value m (json_text j @ CHR '','' # ?t) = Some (j, CHR '','' # ?t)"
      using Cons.prems(3) n stop Cons by (intro Cons.prems(2)) auto
    moreover have "parse_elems m ?t = Some (js, r)"
      using Cons.prems(2,3) n Cons by (intro Cons.IH) auto
    ultimately show ?thesis using n Cons ws by simp
  qed
qed simp

abbreviation member_text :: "string \<times> json \<Rightarrow> bytes" where
  "member_text kv \<equiv> json_string (fst kv) @ CHR '':'' # json_text (snd kv)"

lemma json_text_JObj: "json_text (JObj kvs) = CHR ''{'' # comma_sep (map member_text kvs) @ ''}''"
  by (simp add: comp_def case_prod_beta)

lemma json_ok_JObj: "json_ok (JObj kvs) \<longleftrightarrow> list_all (\<lambda>kv. utf8_valid (fst kv) \<and> json_ok (snd kv)) kvs"
  by (simp add: list.pred_map comp_def case_prod_beta)

lemma parse_members_text:
  assumes "kvs \<noteq> []" "\<And>k j n r. (k, j) \<in> set kvs \<Longrightarrow> length (json_text j) \<le> n \<Longrightarrow> num_end r \<Longrightarrow>
      parse_value n (json_text j @ r) = Some (j, r)"
    and "list_all (\<lambda>kv. utf8_valid (fst kv)) kvs"
    and "length (comma_sep (map member_text kvs)) < n"
  shows "parse_members n (comma_sep (map member_text kvs) @ CHR ''}'' # r) = Some (kvs, r)"
  using assms
proof (induction kvs arbitrary: n)
  case (Cons kv kvs)
  obtain m where n: "n = Suc m" using Cons.prems(4) by (cases n) auto
  obtain k j where kv: "kv = (k, j)" by (cases kv)
  have stop: "num_end (CHR ''}'' # r)" "\<And>s. num_end (CHR '','' # s)"
    by (simp_all add: num_end_def is_dec_def between_def)
  have ws: "\<not> is_ws (CHR ''}'')" "\<not> is_ws (CHR '','')" "\<not> is_ws (CHR '':'')" "\<not> is_ws (CHR 0x22)"
    by (simp_all add: is_ws_def)
  have key: "parse_chars (json_chars k @ CHR 0x22 # t) = Some (k, t)" for t
    using Cons.prems(3) kv by (simp add: parse_json_chars)
  show ?case
  proof (cases kvs)
    case Nil
    have "parse_value m (json_text j @ CHR ''}'' # r) = Some (j, CHR ''}'' # r)"
      using Cons.prems(4) n stop kv Nil by (intro Cons.prems(2)) auto
    then show ?thesis using n Nil ws kv key by (simp add: json_string_def)
  next
    case (Cons kv' ks)
    let ?t = "comma_sep (map member_text kvs) @ CHR ''}'' # r"
    have "parse_value m (json_text j @ CHR '','' # ?t) = Some (j, CHR '','' # ?t)"
      using Cons.prems(4) n stop Cons kv by (intro Cons.prems(2)) auto
    moreover have "parse_members m ?t = Some (kvs, r)"
      using Cons.prems(2,3,4) n Cons by (intro Cons.IH) auto
    ultimately show ?thesis using n Cons ws kv key by (simp add: json_string_def)
  qed
qed simp

lemma parse_json_text:
  "json_ok j \<Longrightarrow> length (json_text j) \<le> n \<Longrightarrow> num_end r \<Longrightarrow> parse_value n (json_text j @ r) = Some (j, r)"
proof (induction j arbitrary: n r)
  case (JInt i)
  obtain c t where "json_int i = c # t" "\<not> is_ws c" "c \<noteq> CHR ''{''" "c \<noteq> CHR ''[''" "c \<noteq> CHR 0x22"
  proof (cases "i < 0")
    case False
    obtain d ds where "dec_digits (nat i) = d # ds" "is_dec d" by (rule dec_digits_Cons)
    then show ?thesis using that False is_dec_not[of d] by (simp add: json_int_def)
  qed (simp add: that json_int_def is_ws_def)
  then show ?case
    using JInt.prems parse_literal_int[OF JInt.prems(3), of i] by (cases n) auto
next
  case (JArr js)
  then obtain m where n: "n = Suc m" by (cases n) auto
  show ?case
  proof (cases js)
    case Nil
    then show ?thesis using n by (simp add: is_ws_def)
  next
    case (Cons j ks)
    have "json_ok j" using JArr.prems(1) Cons by simp
    then obtain c t where c: "json_text j = c # t" "\<not> is_ws c" "c \<noteq> CHR '']''" by (rule json_text_hd)
    have "parse_elems m (comma_sep (map json_text js) @ CHR '']'' # r) = Some (js, r)"
      using JArr.prems n Cons by (intro parse_elems_text JArr.IH) (auto simp: list_all_iff)
    moreover obtain t' where "comma_sep (map json_text js) = c # t'"
      using c(1) Cons by (cases ks) auto
    ultimately show ?thesis using n c by (simp add: is_ws_def)
  qed
next
  case (JObj kvs)
  then obtain m where n: "n = Suc m" by (cases n) auto
  show ?case
  proof (cases kvs)
    case Nil
    then show ?thesis using n by (simp add: is_ws_def)
  next
    case (Cons kv ks)
    have "parse_members m (comma_sep (map member_text kvs) @ CHR ''}'' # r) = Some (kvs, r)"
      using JObj.prems n Cons unfolding json_text_JObj json_ok_JObj
      by (intro parse_members_text JObj.IH) (auto simp: list_all_iff snds.simps)
    moreover obtain t where "comma_sep (map member_text kvs) = CHR 0x22 # t"
      using Cons by (cases ks) (auto simp: json_string_def)
    ultimately show ?thesis using n unfolding json_text_JObj by (simp add: is_ws_def)
  qed
next
  case (JStr s)
  then show ?case by (cases n) (simp_all add: json_string_def is_ws_def parse_json_chars)
qed (auto simp: parse_literal_def HasPrefix_def is_ws_def gr0_conv_Suc Suc_le_eq dest!: less_imp_Suc_add)

text \<open>
  A written value is read back, also with white space or, by a decoder, anything that does not
  continue a number behind it.
\<close>

lemma json_roundtrip:
  assumes "json_ok j" "list_all is_ws ws"
  shows "json_Unmarshal (json_text j @ ws) = Some j"
proof -
  have "num_end ws" using assms(2) by (cases ws) (auto simp: num_end_def is_ws_def is_dec_def between_def)
  then have "parse_value (Suc (length (json_text j @ ws))) (json_text j @ ws) = Some (j, ws)"
    using assms(1) by (intro parse_json_text) simp_all
  moreover have "skip_ws ws = []" using assms(2) by (simp add: skip_ws_def list_all_iff)
  ultimately show ?thesis by (simp add: json_Unmarshal_def del: parse_value.simps)
qed

lemma json_Decode_text: "json_ok j \<Longrightarrow> num_end r \<Longrightarrow> json_Decode (json_text j @ r) = Some j"
  using parse_json_text[of j "Suc (length (json_text j @ r))" r]
  by (simp add: json_Decode_def del: parse_value.simps)

end
