(* ===== verification/Client.thy ===== *)
theory Client
  imports RpcErrors Wire JsonText
begin

text \<open>
  \<^verbatim>\<open>internal/brokerrpc/client.go\<close> and \<^verbatim>\<open>transport.go\<close>: construction of the REST client, the
  route of an operation, the unary call and the eight unary operations.

  What is not under \<^verbatim>\<open>src/\<close> is a field of \<open>platform\<close>, an argument of every operation: the
  remote end of the HTTPS connection (\<open>round_trip\<close>, a state machine over its own state), the
  parsers of URLs and certificates, float64 and SHA-256.  \<open>pipe_accepts\<close> says how many
  writes of a streamed request body the transport takes before it closes it (\<open>None\<close>: all).
  \<open>net\<close> is the state an operation threads: the state of the remote end and the log of the
  requests handed to the HTTP client.
\<close>

subsection \<open>The wire\<close>

datatype part = FormField string json | FormFile string string bytes

text \<open>A multipart body also has the error its pipe was closed with; \<open>None\<close> is a clean end.\<close>

datatype wire_body = WJson json | WMultipart "part list" "gerror option"

record wire_request =
  w_method :: string
  w_url :: string
  w_auth :: string
  w_contentType :: string
  w_body :: wire_body

record http_response =
  StatusCode :: int
  RetryAfter :: string
  ContentLength :: int
  Body :: body

record URL =
  Scheme :: string
  Host :: string

record 'p platform =
  float_ops :: float64
  url_Parse :: "string \<Rightarrow> URL result"
  AppendCertsFromPEM :: "bytes \<Rightarrow> bool"
  sha256_Sum :: "bytes \<Rightarrow> bytes"
  round_trip :: "'p \<Rightarrow> wire_request \<Rightarrow> http_response result \<times> 'p"
  pipe_accepts :: "'p \<Rightarrow> wire_request \<Rightarrow> nat option"

record 'p net =
  peer :: 'p
  sent :: "wire_request list"

definition http_Do :: "'p platform \<Rightarrow> wire_request \<Rightarrow> 'p net \<Rightarrow> http_response result \<times> 'p net" where
  "http_Do pl q w =
     (case round_trip pl (peer w) q of (r, p') \<Rightarrow> (r, w\<lparr>peer := p', sent := sent w @ [q]\<rparr>))"

definition is_2xx :: "int \<Rightarrow> bool" where
  "is_2xx status \<longleftrightarrow> \<not> (status < 200 \<or> status > 299)"

subsection \<open>Construction\<close>

definition maxJSONResponseBytes :: int where
  "maxJSONResponseBytes = 67108864"

definition defaultMessageCeiling :: int where
  "defaultMessageCeiling = 262144"

definition defaultMaxDownloadBytes :: int where
  "defaultMaxDownloadBytes = 17179869184"

definition defaultMaxListPages :: int where
  "defaultMaxListPages = 65536"

record ClientOptions =
  MessageCeiling :: int
  MaxDownloadBytes :: int

text \<open>The outbound transport: its only trust anchor is the PEM it was built from.\<close>

record Transport =
  t_RootCAs :: bytes
  t_MinVersion :: nat
  t_ForceAttemptHTTP2 :: bool
  t_MaxIdleConns :: nat
  t_MaxIdleConnsPerHost :: nat
  t_MaxConnsPerHost :: nat

definition httpsTransport :: "'p platform \<Rightarrow> bytes \<Rightarrow> Transport result" where
  "httpsTransport pl caCertPEM =
     (if length caCertPEM = 0 then Inl (msgf ''brokerrpc: ca_cert_pem must not be empty'' [])
      else if \<not> AppendCertsFromPEM pl caCertPEM then
        Inl (msgf ''brokerrpc: ca_cert_pem contains no usable certificate'' [])
      else Inr \<lparr>t_RootCAs = caCertPEM, t_MinVersion = 0x0303, t_ForceAttemptHTTP2 = True,
                t_MaxIdleConns = 4, t_MaxIdleConnsPerHost = 4, t_MaxConnsPerHost = 4\<rparr>)"

record Client =
  c_http :: Transport
  serviceURL :: string
  fsID :: string
  authToken :: string
  messageCeiling :: int
  maxDownloadBytes :: int
  maxListPages :: int

definition NewWithOptions ::
  "'p platform \<Rightarrow> string \<Rightarrow> string \<Rightarrow> string \<Rightarrow> bytes \<Rightarrow> ClientOptions \<Rightarrow> Client result" where
  "NewWithOptions pl url fs tok caCertPEM opts =
     (if url = [] then Inl (msgf ''brokerrpc.New: serviceURL must not be empty'' [])
      else (case url_Parse pl url of
        Inl err \<Rightarrow> Inl (wrapf ''brokerrpc.New: serviceURL is not a valid URL: %w'' [] err)
      | Inr u \<Rightarrow>
          if Scheme u \<noteq> ''https'' then
            Inl (msgf ''brokerrpc.New: serviceURL must be an https:// URL, got scheme %q'' [FStr (Scheme u)])
          else if Host u = [] then Inl (msgf ''brokerrpc.New: serviceURL must include a host'' [])
          else if fs = [] then Inl (msgf ''brokerrpc.New: fsID must not be empty'' [])
          else if tok = [] then Inl (msgf ''brokerrpc.New: authToken must not be empty'' [])
          else if length caCertPEM = 0 then Inl (msgf ''brokerrpc.New: caCertPEM must not be empty'' [])
          else (case httpsTransport pl caCertPEM of
            Inl err \<Rightarrow> Inl (wrapf ''brokerrpc.New: build transport: %w'' [] err)
          | Inr transport \<Rightarrow>
              Inr \<lparr>c_http = transport, serviceURL = url, fsID = fs, authToken = tok,
                   messageCeiling =
                     (if MessageCeiling opts \<le> 0 then defaultMessageCeiling else MessageCeiling opts),
                   maxDownloadBytes =
                     (if MaxDownloadBytes opts \<le> 0 then defaultMaxDownloadBytes
                      else MaxDownloadBytes opts),
                   maxListPages = defaultMaxListPages\<rparr>)))"

definition New :: "'p platform \<Rightarrow> string \<Rightarrow> string \<Rightarrow> string \<Rightarrow> bytes \<Rightarrow> Client result" where
  "New pl url fs tok caCertPEM =
     NewWithOptions pl url fs tok caCertPEM \<lparr>MessageCeiling = 0, MaxDownloadBytes = 0\<rparr>"

subsection \<open>Routes, the credential header, the unary call\<close>

definition restBase :: string where
  "restBase = ''v1/filestore/fs/''"

definition opURL :: "Client \<Rightarrow> Op \<Rightarrow> string" where
  "opURL c op = TrimRight_char (serviceURL c) slash @ ''/'' @ restBase @ op"

definition setAuthHeader :: "Client \<Rightarrow> wire_request \<Rightarrow> wire_request" where
  "setAuthHeader c req = req\<lparr>w_auth := ''Bearer '' @ authToken c\<rparr>"

definition json_post :: "Client \<Rightarrow> Op \<Rightarrow> json \<Rightarrow> wire_request" where
  "json_post c op j =
     setAuthHeader c \<lparr>w_method = ''POST'', w_url = opURL c op, w_auth = [],
                      w_contentType = ''application/json'', w_body = WJson j\<rparr>"

text \<open>
  The unary call.  \<open>dec\<close> and \<open>zero\<close> are the decoder and the zero value of the response the
  caller passes; the decoder reads at most \<open>maxJSONResponseBytes\<close> of the body.
\<close>

definition call ::
  "'p platform \<Rightarrow> Client \<Rightarrow> Op \<Rightarrow> request \<Rightarrow> 'a decoder \<Rightarrow> 'a \<Rightarrow> 'p net \<Rightarrow> 'a result \<times> 'p net" where
  "call pl c op req dec zero w =
     (case url_Parse pl (opURL c op) of
        Inl err \<Rightarrow> (Inl (wrapf ''brokerrpc: build request for %s: %w'' [FStr op] err), w)
      | Inr _ \<Rightarrow>
          (case http_Do pl (json_post c op (marshal req)) w of
             (Inl err, w') \<Rightarrow> (Inl (wrapf ''brokerrpc: %s: %w'' [FStr op] err), w')
           | (Inr resp, w') \<Rightarrow>
               if \<not> is_2xx (StatusCode resp) then
                 (Inl (MapHTTPStatus (float_ops pl) (StatusCode resp)
                         (captureErrorBody (Body resp)) (RetryAfter resp)), w')
               else
                 (case Option.bind
                         (json_Decode (take (nat maxJSONResponseBytes) (body_content (Body resp))))
                         (\<lambda>j. dec j zero) of
                    None \<Rightarrow> (Inl (msgf ''brokerrpc: unmarshal %s response: %w'' [FStr op]), w')
                  | Some r \<Rightarrow> (Inr r, w'))))"

definition stamp :: "Client \<Rightarrow> Op \<Rightarrow> (string \<times> AuthorizationMetadata) result" where
  "stamp c op = (case StampAuthMeta op of Inl err \<Rightarrow> Inl err | Inr am \<Rightarrow> Inr (fsID c, am))"

subsection \<open>The unary operations\<close>

definition ListDirectory ::
  "'p platform \<Rightarrow> Client \<Rightarrow> string \<Rightarrow> 'p net \<Rightarrow> ListDirectoryResponse result \<times> 'p net" where
  "ListDirectory pl c p w =
     (case stamp c OpListDirectory of
        Inl err \<Rightarrow> (Inl err, w)
      | Inr (fs, am) \<Rightarrow>
          call pl c OpListDirectory (ListDirectoryRequest fs p am [])
            dec_ListDirectoryResponse zero_ListDirectoryResponse w)"

definition MakeDirectory :: "'p platform \<Rightarrow> Client \<Rightarrow> string \<Rightarrow> 'p net \<Rightarrow> unit result \<times> 'p net" where
  "MakeDirectory pl c p w =
     (case stamp c OpMakeDirectory of
        Inl err \<Rightarrow> (Inl err, w)
      | Inr (fs, am) \<Rightarrow>
          call pl c OpMakeDirectory (MakeDirectoryRequest fs p am) dec_AckResponse () w)"

definition MoveDirectory ::
  "'p platform \<Rightarrow> Client \<Rightarrow> string \<Rightarrow> string \<Rightarrow> 'p net \<Rightarrow> unit result \<times> 'p net" where
  "MoveDirectory pl c sourcePath destinationPath w =
     (case stamp c OpMoveDirectory of
        Inl err \<Rightarrow> (Inl err, w)
      | Inr (fs, am) \<Rightarrow>
          call pl c OpMoveDirectory (MoveDirectoryRequest fs sourcePath destinationPath am)
            dec_AckResponse () w)"

definition RemoveDirectory :: "'p platform \<Rightarrow> Client \<Rightarrow> string \<Rightarrow> 'p net \<Rightarrow> unit result \<times> 'p net" where
  "RemoveDirectory pl c p w =
     (case stamp c OpRemoveDirectory of
        Inl err \<Rightarrow> (Inl err, w)
      | Inr (fs, am) \<Rightarrow>
          call pl c OpRemoveDirectory (RemoveDirectoryRequest fs p am) dec_AckResponse () w)"

definition ReadMetadata ::
  "'p platform \<Rightarrow> Client \<Rightarrow> string \<Rightarrow> 'p net \<Rightarrow> ReadMetadataResponse result \<times> 'p net" where
  "ReadMetadata pl c p w =
     (case stamp c OpReadMetadata of
        Inl err \<Rightarrow> (Inl err, w)
      | Inr (fs, am) \<Rightarrow>
          call pl c OpReadMetadata (ReadMetadataRequest fs p am)
            dec_ReadMetadataResponse zero_ReadMetadataResponse w)"

definition CopyFile ::
  "'p platform \<Rightarrow> Client \<Rightarrow> string \<Rightarrow> string \<Rightarrow> 'p net \<Rightarrow> unit result \<times> 'p net" where
  "CopyFile pl c sourcePath destinationPath w =
     (case stamp c OpCopyFile of
        Inl err \<Rightarrow> (Inl err, w)
      | Inr (fs, am) \<Rightarrow>
          call pl c OpCopyFile (CopyFileRequest fs sourcePath destinationPath True am)
            dec_AckResponse () w)"

definition MoveFile ::
  "'p platform \<Rightarrow> Client \<Rightarrow> string \<Rightarrow> string \<Rightarrow> 'p net \<Rightarrow> unit result \<times> 'p net" where
  "MoveFile pl c sourcePath destinationPath w =
     (case stamp c OpMoveFile of
        Inl err \<Rightarrow> (Inl err, w)
      | Inr (fs, am) \<Rightarrow>
          call pl c OpMoveFile (MoveFileRequest fs sourcePath destinationPath True am)
            dec_AckResponse () w)"

definition RemoveFile :: "'p platform \<Rightarrow> Client \<Rightarrow> string \<Rightarrow> 'p net \<Rightarrow> unit result \<times> 'p net" where
  "RemoveFile pl c p w =
     (case stamp c OpRemoveFile of
        Inl err \<Rightarrow> (Inl err, w)
      | Inr (fs, am) \<Rightarrow>
          call pl c OpRemoveFile (RemoveFileRequest fs p am) dec_AckResponse () w)"

subsection \<open>What goes on the wire\<close>

text \<open>The stamp of an operation of the table never fails.\<close>

lemma stamp_known [simp]:
  "stamp c OpListDirectory = Inr (fsID c, \<lparr>Intent = ''read'', Downloadable = False\<rparr>)"
  "stamp c OpReadMetadata = Inr (fsID c, \<lparr>Intent = ''read'', Downloadable = False\<rparr>)"
  "stamp c OpFileDownload = Inr (fsID c, \<lparr>Intent = ''read'', Downloadable = False\<rparr>)"
  "stamp c OpMakeDirectory = Inr (fsID c, \<lparr>Intent = ''write'', Downloadable = False\<rparr>)"
  "stamp c OpMoveDirectory = Inr (fsID c, \<lparr>Intent = ''write'', Downloadable = False\<rparr>)"
  "stamp c OpRemoveDirectory = Inr (fsID c, \<lparr>Intent = ''write'', Downloadable = False\<rparr>)"
  "stamp c OpCopyFile = Inr (fsID c, \<lparr>Intent = ''write'', Downloadable = False\<rparr>)"
  "stamp c OpMoveFile = Inr (fsID c, \<lparr>Intent = ''write'', Downloadable = False\<rparr>)"
  "stamp c OpRemoveFile = Inr (fsID c, \<lparr>Intent = ''write'', Downloadable = False\<rparr>)"
  "stamp c OpFileUpload = Inr (fsID c, \<lparr>Intent = ''write'', Downloadable = False\<rparr>)"
  by (simp_all add: stamp_def StampAuthMeta_def IntentFor_cases)

text \<open>The JSON parameters of a request: its body, or the params field of a multipart body.\<close>

definition wire_params :: "wire_request \<Rightarrow> json" where
  "wire_params q =
     (case w_body q of
        WJson j \<Rightarrow> j
      | WMultipart ps _ \<Rightarrow> (case ps of FormField n j # _ \<Rightarrow> j | _ \<Rightarrow> JNull))"

text \<open>
  A stamped request: a POST to the route of an operation of the table, carrying the session
  credential, the filesystem_id of the client at the top level, the intent the table gives that
  operation, one of \<open>ints\<close>, and downloadable false.
\<close>

definition stamped :: "string list \<Rightarrow> Client \<Rightarrow> wire_request \<Rightarrow> bool" where
  "stamped ints c q \<longleftrightarrow>
     w_method q = ''POST'' \<and> w_auth q = ''Bearer '' @ authToken c \<and>
     list_ex (\<lambda>(op, intent).
       intent \<in> set ints \<and> w_url q = opURL c op \<and>
       json_get ''filesystem_id'' (wire_params q) = Some (JStr (fsID c)) \<and>
       json_get ''authorization_metadata'' (wire_params q) =
         Some (JObj [(''intent'', JStr intent), (''downloadable'', JBool False)])) opIntentTable"

text \<open>The requests an operation adds to the log.\<close>

definition new_requests :: "'p net \<Rightarrow> 'p net \<Rightarrow> wire_request list" where
  "new_requests w w' = drop (length (sent w)) (sent w')"

definition extends :: "string list \<Rightarrow> Client \<Rightarrow> 'p net \<Rightarrow> 'p net \<Rightarrow> bool" where
  "extends ints c w w' \<longleftrightarrow> prefix (sent w) (sent w') \<and> list_all (stamped ints c) (new_requests w w')"

lemma extends_refl [simp]: "extends ints c w w"
  by (simp add: extends_def new_requests_def)

lemma extends_trans: "extends ints c w w' \<Longrightarrow> extends ints c w' w'' \<Longrightarrow> extends ints c w w''"
  by (auto simp: extends_def new_requests_def prefix_def)

lemma extends_Do: "stamped ints c q \<Longrightarrow> extends ints c w (snd (http_Do pl q w))"
  by (auto simp: extends_def new_requests_def http_Do_def split: prod.splits)

lemma call_sends:
  "snd (call pl c op req dec zero w) = w \<or>
   snd (call pl c op req dec zero w) = snd (http_Do pl (json_post c op (marshal req)) w)"
  by (auto simp: call_def split: sum.splits prod.splits option.splits)

lemma stampedI:
  assumes "map_of opIntentTable op = Some intent" "intent \<in> set ints"
    and "w_method q = ''POST''" "w_auth q = ''Bearer '' @ authToken c" "w_url q = opURL c op"
    and "json_get ''filesystem_id'' (wire_params q) = Some (JStr (fsID c))"
    and "json_get ''authorization_metadata'' (wire_params q) =
           Some (JObj [(''intent'', JStr intent), (''downloadable'', JBool False)])"
  shows "stamped ints c q"
  using assms map_of_SomeD[OF assms(1)] by (auto simp: stamped_def list_ex_iff intro!: bexI[of _ "(op, intent)"])

lemma json_post_stamped:
  assumes "\<not> isl (IntentFor op)" and i: "projr (IntentFor op) \<in> set ints"
    and "json_get ''filesystem_id'' (marshal req) = Some (JStr (fsID c))"
    and "json_get ''authorization_metadata'' (marshal req) =
           Some (json_AuthorizationMetadata \<lparr>Intent = projr (IntentFor op), Downloadable = False\<rparr>)"
  shows "stamped ints c (json_post c op (marshal req))"
proof (rule stampedI)
  show "map_of opIntentTable op = Some (projr (IntentFor op))"
    using assms(1) by (auto simp: IntentFor_def split: option.splits)
  show "projr (IntentFor op) \<in> set ints" by (rule i)
qed (use assms(3,4) in
     \<open>simp_all add: json_post_def setAuthHeader_def wire_params_def json_AuthorizationMetadata_def\<close>)

lemma call_extends:
  assumes "stamped ints c (json_post c op (marshal req))"
  shows "extends ints c w (snd (call pl c op req dec zero w))"
  using call_sends[of pl c op req dec zero w] extends_Do[OF assms] by (metis extends_refl)

lemma unary_read_extends [wire_simp]:
  assumes "''read'' \<in> set ints"
  shows "extends ints c w (snd (ListDirectory pl c p w))"
    and "extends ints c w (snd (ReadMetadata pl c p w))"
  unfolding ListDirectory_def ReadMetadata_def
  by (simp_all del: marshal.simps,
      (rule call_extends, rule json_post_stamped; simp add: IntentFor_cases assms)+)

lemma unary_write_extends [wire_simp]:
  assumes "''write'' \<in> set ints"
  shows "extends ints c w (snd (MakeDirectory pl c p w))"
    and "extends ints c w (snd (MoveDirectory pl c p q w))"
    and "extends ints c w (snd (RemoveDirectory pl c p w))"
    and "extends ints c w (snd (CopyFile pl c p q w))"
    and "extends ints c w (snd (MoveFile pl c p q w))"
    and "extends ints c w (snd (RemoveFile pl c p w))"
  unfolding MakeDirectory_def MoveDirectory_def RemoveDirectory_def CopyFile_def MoveFile_def
    RemoveFile_def
  by (simp_all del: marshal.simps,
      (rule call_extends, rule json_post_stamped; simp add: IntentFor_cases assms)+)

end
