(* ===== verification/Cursor.thy ===== *)
theory Cursor
  imports Client
begin

text \<open>
  \<^verbatim>\<open>internal/brokerrpc/cursor.go\<close>: the page guard and the paged recursive listing.  The
  callback \<open>yield\<close> of the Go function mutates variables it captures; here it is a function on
  that captured state.
\<close>

subsection \<open>The page guard\<close>

type_synonym OpaqueCursor = string

record pageGuard =
  pg_fn :: string
  pg_maxPages :: int
  pg_pages :: int
  pg_seen :: "bytes set"

definition newPageGuard :: "string \<Rightarrow> int \<Rightarrow> pageGuard" where
  "newPageGuard fn maxPages =
     \<lparr>pg_fn = fn, pg_maxPages = maxPages, pg_pages = 0, pg_seen = {}\<rparr>"

definition admit :: "(bytes \<Rightarrow> bytes) \<Rightarrow> pageGuard \<Rightarrow> OpaqueCursor \<Rightarrow> gerror option \<times> pageGuard" where
  "admit sha g cursor =
     (let g1 = g\<lparr>pg_pages := pg_pages g + 1\<rparr> in
      if pg_pages g1 \<ge> pg_maxPages g1 then
        (Some (msgf ''brokerrpc: %s: pagination exceeded the %d-page ceiling -- aborting unbounded listing''
                 [FStr (pg_fn g1), FInt (pg_maxPages g1)]), g1)
      else
        (let key = sha cursor in
         if key \<in> pg_seen g1 then
           (Some (msgf ''brokerrpc: %s: cursor did not advance (%q) -- aborting pagination cycle''
                    [FStr (pg_fn g1), FStr cursor]), g1)
         else (None, g1\<lparr>pg_seen := insert key (pg_seen g1)\<rparr>)))"

lemma admit_None:
  assumes "admit sha g cur = (None, g')"
  shows "g' = g\<lparr>pg_pages := pg_pages g + 1, pg_seen := insert (sha cur) (pg_seen g)\<rparr>"
    and "pg_pages g + 1 < pg_maxPages g" and "sha cur \<notin> pg_seen g"
  using assms by (auto simp: admit_def Let_def split: if_splits)

lemma admit_decreases:
  "(None, g') = admit sha g cur \<Longrightarrow> nat (pg_maxPages g' - pg_pages g') < nat (pg_maxPages g - pg_pages g)"
  using admit_None[of sha g cur g'] by auto

subsection \<open>The paged listing\<close>

type_synonym 's yield = "ListDirEntry \<Rightarrow> 's \<Rightarrow> gerror option \<times> 's"

fun yield_all :: "'s yield \<Rightarrow> ListDirEntry list \<Rightarrow> 's \<Rightarrow> gerror option \<times> 's" where
  "yield_all yield [] s = (None, s)"
| "yield_all yield (e # es) s =
     (case yield e s of (Some err, s') \<Rightarrow> (Some err, s') | (None, s') \<Rightarrow> yield_all yield es s')"

definition page_entries :: "ListDirectoryResponse \<Rightarrow> ListDirEntry list" where
  "page_entries resp = (case Entries resp of None \<Rightarrow> [] | Some es \<Rightarrow> es)"

definition fetch_page ::
  "'p platform \<Rightarrow> Client \<Rightarrow> string \<Rightarrow> string \<Rightarrow> AuthorizationMetadata \<Rightarrow> OpaqueCursor \<Rightarrow> 'p net \<Rightarrow>
   ListDirectoryResponse result \<times> 'p net" where
  "fetch_page pl c fs p am cursor w =
     call pl c OpListDirectory (ListDirectoryRequest fs p am cursor)
       dec_ListDirectoryResponse zero_ListDirectoryResponse w"

text \<open>
  The loop.  It recurses only after \<open>admit\<close> accepted the cursor, and \<open>admit\<close> accepts fewer than
  \<open>pg_maxPages\<close> cursors: the page ceiling is the measure.
\<close>

function list_loop ::
  "'p platform \<Rightarrow> Client \<Rightarrow> string \<Rightarrow> string \<Rightarrow> AuthorizationMetadata \<Rightarrow> 's yield \<Rightarrow>
   OpaqueCursor \<Rightarrow> pageGuard \<Rightarrow> 's \<Rightarrow> 'p net \<Rightarrow> (gerror option \<times> 's) \<times> 'p net" where
  "list_loop pl c fs p am yield cursor guard s w =
     (case fetch_page pl c fs p am cursor w of
        (Inl err, w') \<Rightarrow> ((Some (wrapf ''brokerrpc: ListDirectoryStream: %w'' [] err), s), w')
      | (Inr resp, w') \<Rightarrow>
          (case yield_all yield (page_entries resp) s of
             (Some err, s') \<Rightarrow> ((Some err, s'), w')
           | (None, s') \<Rightarrow>
               if resp_Cursor resp = [] then ((None, s'), w')
               else
                 (case admit (sha256_Sum pl) guard (resp_Cursor resp) of
                    (Some err, _) \<Rightarrow> ((Some err, s'), w')
                  | (None, guard') \<Rightarrow>
                      list_loop pl c fs p am yield (resp_Cursor resp) guard' s' w')))"
  by pat_completeness auto
termination
  by (relation "measure (\<lambda>(_, _, _, _, _, _, _, g, _, _). nat (pg_maxPages g - pg_pages g))")
     (auto dest!: admit_decreases)

declare list_loop.simps [simp del]

definition ListDirectoryStream ::
  "'p platform \<Rightarrow> Client \<Rightarrow> string \<Rightarrow> 's yield \<Rightarrow> 's \<Rightarrow> 'p net \<Rightarrow> (gerror option \<times> 's) \<times> 'p net" where
  "ListDirectoryStream pl c p yield s w =
     (case stamp c OpListDirectory of
        Inl err \<Rightarrow> ((Some err, s), w)
      | Inr (fs, am) \<Rightarrow>
          list_loop pl c fs p am yield [] (newPageGuard ''ListDirectoryStream'' (maxListPages c)) s w)"

definition ListDirectoryAll ::
  "'p platform \<Rightarrow> Client \<Rightarrow> string \<Rightarrow> 'p net \<Rightarrow> ListDirEntry list result \<times> 'p net" where
  "ListDirectoryAll pl c p w =
     (case ListDirectoryStream pl c p (\<lambda>e all_ents. (None, all_ents @ [e])) [] w of
        ((Some err, _), w') \<Rightarrow> (Inl err, w')
      | ((None, all_ents), w') \<Rightarrow> (Inr all_ents, w'))"

subsection \<open>Requests of a listing\<close>

text \<open>The requests a listing sends for a sequence of cursors.\<close>

definition page_requests ::
  "Client \<Rightarrow> string \<Rightarrow> string \<Rightarrow> AuthorizationMetadata \<Rightarrow> OpaqueCursor list \<Rightarrow> wire_request list" where
  "page_requests c fs p am curs =
     map (\<lambda>cur. json_post c OpListDirectory (marshal (ListDirectoryRequest fs p am cur))) curs"

lemma page_requests_simps [simp]:
  "page_requests c fs p am [] = []"
  "page_requests c fs p am (cur # curs) =
     json_post c OpListDirectory (marshal (ListDirectoryRequest fs p am cur)) # page_requests c fs p am curs"
  "length (page_requests c fs p am curs) = length curs"
  by (simp_all add: page_requests_def)

lemma fetch_page_sent:
  "sent (snd (fetch_page pl c fs p am cur w)) = sent w \<or>
   sent (snd (fetch_page pl c fs p am cur w)) = sent w @ page_requests c fs p am [cur]"
  using call_sends[of pl c OpListDirectory "ListDirectoryRequest fs p am cur"
      dec_ListDirectoryResponse zero_ListDirectoryResponse w]
  by (auto simp: fetch_page_def http_Do_def simp del: marshal.simps split: prod.splits)

lemma fetch_page_Inr:
  "fetch_page pl c fs p am cur w = (Inr resp, w') \<Longrightarrow> sent w' = sent w @ page_requests c fs p am [cur]"
  by (auto simp: fetch_page_def call_def http_Do_def simp del: marshal.simps
      split: sum.splits prod.splits option.splits if_splits)

text \<open>
  One turn of the loop: it stops after the page it fetched, or \<open>admit\<close> accepts the next cursor.
\<close>

lemma list_loop_cases [case_names stop more]:
  obtains "snd (list_loop pl c fs p am yield cur g s w) = snd (fetch_page pl c fs p am cur w)"
  | resp w' s' g' where "fetch_page pl c fs p am cur w = (Inr resp, w')"
    "yield_all yield (page_entries resp) s = (None, s')" "resp_Cursor resp \<noteq> []"
    "admit (sha256_Sum pl) g (resp_Cursor resp) = (None, g')"
    "list_loop pl c fs p am yield cur g s w =
       list_loop pl c fs p am yield (resp_Cursor resp) g' s' w'"
proof -
  obtain r w' where f: "fetch_page pl c fs p am cur w = (r, w')" by fastforce
  note unf = list_loop.simps[of pl c fs p am yield cur g s w]
  show ?thesis
  proof (cases r)
    case (Inl err)
    then show ?thesis using that(1) by (simp add: unf f)
  next
    case (Inr resp)
    obtain y s' where y: "yield_all yield (page_entries resp) s = (y, s')" by fastforce
    obtain a g' where a: "admit (sha256_Sum pl) g (resp_Cursor resp) = (a, g')" by fastforce
    show ?thesis
    proof (cases "y = None \<and> resp_Cursor resp \<noteq> [] \<and> a = None")
      case True
      then show ?thesis using that(2)[of resp w' s' g'] by (simp add: unf f y a Inr)
    next
      case False
      then show ?thesis using that(1) by (auto simp: unf f y a Inr split: option.splits)
    qed
  qed
qed

text \<open>
  The log of a listing: the first cursor, then cursors that are non-empty and whose digests are
  pairwise distinct and new to the guard; no more of them than the ceiling leaves.
\<close>

lemma list_loop_log:
  "\<exists>curs. sent (snd (list_loop pl c fs p am yield cur g s w)) = sent w @ page_requests c fs p am curs \<and>
     (curs \<noteq> [] \<longrightarrow> hd curs = cur) \<and> [] \<notin> set (tl curs) \<and>
     distinct (map (sha256_Sum pl) (tl curs)) \<and> sha256_Sum pl ` set (tl curs) \<inter> pg_seen g = {} \<and>
     int (length curs) \<le> max 1 (pg_maxPages g - pg_pages g)"
proof (induction pl c fs p am yield cur g s w rule: list_loop.induct)
  case (1 pl c fs p am yield cur g s w)
  show ?case
  proof (cases rule: list_loop_cases[of pl c fs p am yield cur g s w])
    case stop
    then show ?thesis using fetch_page_sent[of pl c fs p am cur w]
      by (elim disjE) (rule exI[of _ "[]"], simp, rule exI[of _ "[cur]"], simp)
  next
    case (more resp w' s' g')
    note adm = admit_None[OF more(4)]
    obtain curs where IH:
      "sent (snd (list_loop pl c fs p am yield (resp_Cursor resp) g' s' w')) =
         sent w' @ page_requests c fs p am curs"
      "curs \<noteq> [] \<longrightarrow> hd curs = resp_Cursor resp" "[] \<notin> set (tl curs)"
      "distinct (map (sha256_Sum pl) (tl curs))" "sha256_Sum pl ` set (tl curs) \<inter> pg_seen g' = {}"
      "int (length curs) \<le> max 1 (pg_maxPages g' - pg_pages g')"
      using "1.IH"[OF more(1)[symmetric] refl more(2)[symmetric] refl more(3) more(4)[symmetric] refl]
      by blast
    have "curs = [] \<or> (\<exists>rest. curs = resp_Cursor resp # rest)"
      using IH(2) by (cases curs) auto
    moreover have "sha256_Sum pl ` set (tl curs) \<inter> insert (sha256_Sum pl (resp_Cursor resp)) (pg_seen g) = {}"
      using IH(5) by (simp add: adm(1))
    moreover have "int (length curs) \<le> max 1 (pg_maxPages g - pg_pages g - 1)"
      using IH(6) by (simp add: adm(1))
    ultimately show ?thesis
      using IH(1,3,4) adm(2,3) more(3) fetch_page_Inr[OF more(1)] unfolding more(5)
      by (intro exI[of _ "cur # curs"]) (elim disjE exE; simp del: marshal.simps)
  qed
qed

lemma page_requests_inj:
  assumes "distinct (map h (tl curs))" "[] \<notin> set (tl curs)" "curs \<noteq> [] \<longrightarrow> hd curs = []"
  shows "distinct (page_requests c fs p am curs)"
proof -
  have "distinct curs"
    using assms by (cases curs) (auto simp: distinct_map)
  moreover have "inj (\<lambda>cur. json_post c OpListDirectory (marshal (ListDirectoryRequest fs p am cur)))"
    by (rule injI) (auto simp: json_post_def setAuthHeader_def split: if_splits)
  ultimately show ?thesis
    unfolding page_requests_def distinct_map by (blast intro: inj_on_subset)
qed

lemma ListDirectoryStream_log:
  obtains curs where
    "sent (snd (ListDirectoryStream pl c p yield s w)) =
       sent w @ page_requests c (fsID c) p \<lparr>Intent = ''read'', Downloadable = False\<rparr> curs"
    "distinct (page_requests c (fsID c) p \<lparr>Intent = ''read'', Downloadable = False\<rparr> curs)"
    "int (length curs) \<le> max 1 (maxListPages c)"
proof -
  from list_loop_log[of pl c "fsID c" p "\<lparr>Intent = ''read'', Downloadable = False\<rparr>" yield "[]"
      "newPageGuard ''ListDirectoryStream'' (maxListPages c)" s w]
  obtain curs where *:
    "sent (snd (ListDirectoryStream pl c p yield s w)) =
       sent w @ page_requests c (fsID c) p \<lparr>Intent = ''read'', Downloadable = False\<rparr> curs"
    "curs \<noteq> [] \<longrightarrow> hd curs = []" "[] \<notin> set (tl curs)" "distinct (map (sha256_Sum pl) (tl curs))"
    "int (length curs) \<le> max 1 (maxListPages c)"
    by (auto simp: ListDirectoryStream_def newPageGuard_def)
  show ?thesis
    by (rule that[OF *(1) _ *(5)]) (rule page_requests_inj[OF *(4,3,2)])
qed

lemma ListDirectoryStream_extends [wire_simp]:
  assumes "''read'' \<in> set ints"
  shows "extends ints c w (snd (ListDirectoryStream pl c p yield s w))"
proof (rule ListDirectoryStream_log[of pl c p yield s w])
  fix curs
  assume "sent (snd (ListDirectoryStream pl c p yield s w)) =
       sent w @ page_requests c (fsID c) p \<lparr>Intent = ''read'', Downloadable = False\<rparr> curs"
  moreover have "list_all (stamped ints c)
      (page_requests c (fsID c) p \<lparr>Intent = ''read'', Downloadable = False\<rparr> curs)"
    using assms
    by (auto simp: page_requests_def list_all_iff IntentFor_cases simp del: marshal.simps
        intro!: json_post_stamped) (simp add: json_AuthorizationMetadata_def)
  ultimately show ?thesis
    by (simp add: extends_def new_requests_def)
qed

lemma ListDirectoryAll_stream:
  "snd (ListDirectoryAll pl c p w) = snd (ListDirectoryStream pl c p (\<lambda>e es. (None, es @ [e])) [] w)"
  by (auto simp: ListDirectoryAll_def split: prod.splits option.splits)

subsection \<open>A callback that never fails sees the entries of the whole listing\<close>

lemma yield_all_pure:
  "yield_all (\<lambda>e s. (None, f e s)) es s = (None, fold f es s)"
  by (induction es arbitrary: s) auto

lemma fold_snoc: "fold (\<lambda>e es. es @ [e]) es acc = acc @ es"
  by (induction es arbitrary: acc) auto

text \<open>Folding \<open>f\<close> while the pages arrive is folding \<open>f\<close> over what the collecting loop returns.\<close>

lemma list_loop_pure:
  "list_loop pl c fs p am (\<lambda>e s. (None, f e s)) cur g (fold f acc s) w =
     map_prod (map_prod id (\<lambda>es. fold f es s)) id
       (list_loop pl c fs p am (\<lambda>e es. (None, es @ [e])) cur g acc w)"
proof (induction pl c fs p am "\<lambda>e es. (None :: gerror option, es @ [e :: ListDirEntry])" cur g acc w
    rule: list_loop.induct)
  case (1 pl c fs p am cur g acc w)
  then show ?case
    by (simp add: list_loop.simps[of pl c fs p am _ cur g _ w] yield_all_pure fold_snoc
        split: prod.splits sum.splits option.splits)
qed

lemma ListDirectoryStream_All:
  "ListDirectoryStream pl c p (\<lambda>e s. (None, f e s)) s w =
     (case ListDirectoryAll pl c p w of
        (Inl err, w') \<Rightarrow> ((Some err, snd (fst (ListDirectoryStream pl c p (\<lambda>e s. (None, f e s)) s w))), w')
      | (Inr es, w') \<Rightarrow> ((None, fold f es s), w'))"
proof -
  have "ListDirectoryStream pl c p (\<lambda>e s. (None, f e s)) s w =
      map_prod (map_prod id (\<lambda>es. fold f es s)) id
        (ListDirectoryStream pl c p (\<lambda>e es. (None, es @ [e])) [] w)"
    using list_loop_pure[where acc = "[]" and s = s and f = f] by (simp add: ListDirectoryStream_def)
  then show ?thesis
    by (auto simp: ListDirectoryAll_def split: prod.splits option.splits)
qed

subsection \<open>A broker that pages honestly\<close>

text \<open>
  A chain of pages: each is filed under the cursor that asks for it, its own cursor asks for the
  next, and only the last has none.
\<close>

fun page_chain :: "OpaqueCursor \<Rightarrow> (OpaqueCursor \<times> ListDirectoryResponse) list \<Rightarrow> bool" where
  "page_chain cur [] = False"
| "page_chain cur ((k, resp) # rest) =
     (k = cur \<and>
      (if rest = [] then resp_Cursor resp = []
       else resp_Cursor resp \<noteq> [] \<and> page_chain (resp_Cursor resp) rest))"

text \<open>While its state satisfies \<open>I\<close>, the broker answers each cursor of the chain with its page.\<close>

definition serves_pages ::
  "'p platform \<Rightarrow> Client \<Rightarrow> string \<Rightarrow> ('p \<Rightarrow> bool) \<Rightarrow> (OpaqueCursor \<times> ListDirectoryResponse) list \<Rightarrow> bool" where
  "serves_pages pl c p I chain \<longleftrightarrow>
     (\<forall>w. \<forall>(k, resp) \<in> set chain. I (peer w) \<longrightarrow>
        (case fetch_page pl c (fsID c) p \<lparr>Intent = ''read'', Downloadable = False\<rparr> k w of
           (r, w') \<Rightarrow> r = Inr resp \<and> I (peer w')))"

lemma list_loop_honest:
  assumes "serves_pages pl c p I chain" "page_chain cur chain" "I (peer w)"
    and "pg_pages g + int (length chain) \<le> pg_maxPages g"
    and "distinct (map (\<lambda>(k, resp). sha256_Sum pl (resp_Cursor resp)) (butlast chain))"
    and "\<forall>(k, resp) \<in> set (butlast chain). sha256_Sum pl (resp_Cursor resp) \<notin> pg_seen g"
  shows "fst (list_loop pl c (fsID c) p \<lparr>Intent = ''read'', Downloadable = False\<rparr>
                (\<lambda>e es. (None, es @ [e])) cur g acc w) =
           (None, acc @ concat (map (\<lambda>(k, resp). page_entries resp) chain))"
  using assms
proof (induction chain arbitrary: cur g acc w)
  case (Cons kr rest)
  obtain k resp where kr: "kr = (k, resp)" by fastforce
  let ?am = "\<lparr>Intent = ''read'', Downloadable = False\<rparr>"
  obtain w' where f: "fetch_page pl c (fsID c) p ?am cur w = (Inr resp, w')" and I': "I (peer w')"
  proof -
    have "case fetch_page pl c (fsID c) p ?am k w of (r, w') \<Rightarrow> r = Inr resp \<and> I (peer w')"
      using Cons.prems(1,3) unfolding serves_pages_def kr by simp
    then show ?thesis
      using Cons.prems(2) that by (auto simp: kr)
  qed
  have sv: "serves_pages pl c p I rest"
    using Cons.prems(1) by (auto simp: serves_pages_def)
  note unf = list_loop.simps[of pl c "fsID c" p ?am "\<lambda>e es. (None, es @ [e])" cur g acc w]
  show ?case
  proof (cases "rest = []")
    case True
    then show ?thesis
      using Cons.prems(2) by (simp add: unf f kr yield_all_pure fold_snoc)
  next
    case False
    let ?key = "sha256_Sum pl (resp_Cursor resp)"
    let ?g' = "g\<lparr>pg_pages := pg_pages g + 1, pg_seen := insert ?key (pg_seen g)\<rparr>"
    have a: "admit (sha256_Sum pl) g (resp_Cursor resp) = (None, ?g')"
      using False Cons.prems(4,6) by (cases rest) (auto simp: admit_def Let_def kr)
    have "fst (list_loop pl c (fsID c) p ?am (\<lambda>e es. (None, es @ [e])) (resp_Cursor resp) ?g'
              (acc @ page_entries resp) w') =
           (None, (acc @ page_entries resp) @ concat (map (\<lambda>(k, resp). page_entries resp) rest))"
      using False Cons.prems by (intro Cons.IH sv I') (force simp: kr)+
    then show ?thesis
      using False Cons.prems(2) by (simp add: unf f kr a yield_all_pure fold_snoc)
  qed
qed simp

end
