(* ===== verification/Download.thy ===== *)
theory Download
  imports Client
begin

text \<open>
  \<^verbatim>\<open>internal/brokerrpc/download.go\<close>: the fileDownload operation, whole and ranged, and the
  bounded body it hands out, which is a third instance of the reader contract of \<open>Streams\<close>.
\<close>

subsection \<open>The bounded body\<close>

record boundedBody =
  bb_body :: body
  bb_remaining :: int
  bb_limit :: int
  bb_ranged :: bool

definition newBoundedBody :: "body \<Rightarrow> bool \<Rightarrow> int \<Rightarrow> boundedBody" where
  "newBoundedBody b ranged limit =
     \<lparr>bb_body = b, bb_remaining = limit, bb_limit = limit, bb_ranged = ranged\<rparr>"

definition overCapErr :: "boundedBody \<Rightarrow> gerror" where
  "overCapErr b =
     (if bb_ranged b then
        msgf ''brokerrpc: fileDownload: broker over-delivered the requested %d-byte window (offset dishonour suspected)''
          [FInt (bb_limit b)]
      else msgf ''brokerrpc: fileDownload: response exceeds %d bytes'' [FInt (bb_limit b)])"

text \<open>The probe loop past the cap is \<^const>\<open>read_one\<close>: it repeats a read that is not decisive.\<close>

definition boundedBody_Read :: "boundedBody \<Rightarrow> nat \<Rightarrow> bytes \<times> gerror option \<times> boundedBody" where
  "boundedBody_Read b n =
     (if bb_remaining b \<le> 0 then
        (case read_one (bb_body b) of (probe, perr, bd') \<Rightarrow>
           if probe \<noteq> [] then ([], Some (overCapErr b), b\<lparr>bb_body := bd'\<rparr>)
           else ([], perr, b\<lparr>bb_body := bd'\<rparr>))
      else
        (case body_read (bb_body b) (if int n > bb_remaining b then nat (bb_remaining b) else n) of
           (bs, err, bd') \<Rightarrow>
             (bs, err, b\<lparr>bb_body := bd', bb_remaining := bb_remaining b - int (length bs)\<rparr>)))"

definition bounded_content :: "boundedBody \<Rightarrow> bytes" where
  "bounded_content b = take (nat (bb_remaining b)) (body_content (bb_body b))"

definition bounded_ends :: "boundedBody \<Rightarrow> gerror \<Rightarrow> bool" where
  "bounded_ends b e \<longleftrightarrow>
     e = (if int (length (body_content (bb_body b))) \<le> max 0 (bb_remaining b)
          then fin (bb_body b) else overCapErr b)"

lemma bounded_Read_within:
  assumes "boundedBody_Read b n = (bs, e, b')" "0 < bb_remaining b"
  obtains bd' where "body_read (bb_body b) (min n (nat (bb_remaining b))) = (bs, e, bd')"
    and "b' = b\<lparr>bb_body := bd', bb_remaining := bb_remaining b - int (length bs)\<rparr>"
    and "int (length bs) \<le> bb_remaining b"
proof -
  have m: "(if int n > bb_remaining b then nat (bb_remaining b) else n) = min n (nat (bb_remaining b))"
    using assms(2) by auto
  obtain bd' where bd: "body_read (bb_body b) (min n (nat (bb_remaining b))) = (bs, e, bd')"
    and b': "b' = b\<lparr>bb_body := bd', bb_remaining := bb_remaining b - int (length bs)\<rparr>"
    using assms unfolding boundedBody_Read_def m by (auto split: prod.splits)
  have "int (length bs) \<le> bb_remaining b"
    using resp_body.rd_length[OF bd] assms(2) by linarith
  with bd b' show ?thesis by (rule that)
qed

lemma bounded_Read_probe:
  assumes "boundedBody_Read b n = (bs, e, b')" "bb_remaining b \<le> 0"
  shows "bs = []" "\<exists>err. e = Some err \<and> bounded_ends b err" "bb_remaining b' = bb_remaining b"
proof -
  obtain pr pe bd where p: "read_one (bb_body b) = (pr, pe, bd)" by (cases "read_one (bb_body b)") auto
  show "bs = []" "bb_remaining b' = bb_remaining b"
    using assms p by (auto simp: boundedBody_Read_def split: if_splits)
  show "\<exists>err. e = Some err \<and> bounded_ends b err"
    using assms p read_one_content[OF p]
    by (cases "body_content (bb_body b) = []") (auto simp: boundedBody_Read_def bounded_ends_def)
qed

interpretation bounded: go_reader boundedBody_Read bounded_content bounded_ends "\<lambda>b. body_left (bb_body b)"
proof unfold_locales
  fix r n bs e r'
  assume st: "boundedBody_Read r n = (bs, e, r')"
  have "length bs \<le> n \<and> bounded_content r = bs @ bounded_content r'"
  proof (cases "0 < bb_remaining r")
    case True
    obtain bd' where b: "body_read (bb_body r) (min n (nat (bb_remaining r))) = (bs, e, bd')"
      and r': "r' = r\<lparr>bb_body := bd', bb_remaining := bb_remaining r - int (length bs)\<rparr>"
      and l: "int (length bs) \<le> bb_remaining r"
      using bounded_Read_within[OF st True] .
    have "length bs \<le> n" using resp_body.rd_length[OF b] by simp
    moreover have "nat (bb_remaining r - int (length bs)) = nat (bb_remaining r) - length bs" by simp
    ultimately show ?thesis
      using resp_body.rd_content[OF b] l by (simp add: bounded_content_def r' nat_le_iff)
  next
    case False
    then show ?thesis using bounded_Read_probe[OF st] by (simp add: bounded_content_def)
  qed
  then show "length bs \<le> n" and "bounded_content r = bs @ bounded_content r'" by auto
next
  fix r n bs e r'
  assume st: "boundedBody_Read r n = (bs, Some e, r')"
  show "bounded_content r' = [] \<and> bounded_ends r e"
  proof (cases "0 < bb_remaining r")
    case True
    obtain bd' where b: "body_read (bb_body r) (min n (nat (bb_remaining r))) = (bs, Some e, bd')"
      and r': "r' = r\<lparr>bb_body := bd', bb_remaining := bb_remaining r - int (length bs)\<rparr>"
      and l: "int (length bs) \<le> bb_remaining r"
      using bounded_Read_within[OF st True] .
    have c: "body_content bd' = []" and e: "e = fin (bb_body r)" using resp_body.rd_end[OF b] by auto
    have "length (body_content (bb_body r)) = length bs" using resp_body.rd_content[OF b] c by simp
    then show ?thesis using c e l by (simp add: r' bounded_content_def bounded_ends_def)
  next
    case False
    then show ?thesis using bounded_Read_probe[OF st] by (simp add: bounded_content_def)
  qed
next
  fix r n bs r' e
  assume st: "boundedBody_Read r n = (bs, None, r')" and en: "bounded_ends r' e"
  show "bounded_ends r e"
  proof (cases "0 < bb_remaining r")
    case True
    obtain bd' where b: "body_read (bb_body r) (min n (nat (bb_remaining r))) = (bs, None, bd')"
      and r': "r' = r\<lparr>bb_body := bd', bb_remaining := bb_remaining r - int (length bs)\<rparr>"
      and l: "int (length bs) \<le> bb_remaining r"
      using bounded_Read_within[OF st True] .
    have "length (body_content (bb_body r)) = length bs + length (body_content bd')"
      using resp_body.rd_content[OF b] by simp
    then show ?thesis
      using en l True body_read_fin[OF b] by (simp add: r' bounded_ends_def overCapErr_def split: if_splits)
  next
    case False
    then show ?thesis using bounded_Read_probe(2)[OF st] by simp
  qed
next
  fix r n bs r'
  assume st: "boundedBody_Read r n = (bs, None, r')" and n: "0 < n"
  have "0 < bb_remaining r"
    using bounded_Read_probe(2)[OF st] by (cases "0 < bb_remaining r") auto
  then show "body_left (bb_body r') < body_left (bb_body r)"
    using bounded_Read_within[OF st] resp_body.rd_left n
    by (metis boundedBody.select_convs(1) boundedBody.surjective boundedBody.update_convs(1,2) less_nat_zero_code
        min_less_iff_conj neq0_conv zero_less_nat_eq)
qed

subsection \<open>The reader the operation returns\<close>

text \<open>\<^verbatim>\<open>http.NoBody\<close>, or a bounded response body.\<close>

datatype reader = NoBody | Bounded boundedBody

fun reader_Read :: "reader \<Rightarrow> nat \<Rightarrow> bytes \<times> gerror option \<times> reader" where
  "reader_Read NoBody n = ([], Some EOF, NoBody)"
| "reader_Read (Bounded b) n = (case boundedBody_Read b n of (bs, e, b') \<Rightarrow> (bs, e, Bounded b'))"

fun reader_content :: "reader \<Rightarrow> bytes" where
  "reader_content NoBody = []"
| "reader_content (Bounded b) = bounded_content b"

fun reader_ends :: "reader \<Rightarrow> gerror \<Rightarrow> bool" where
  "reader_ends NoBody e = (e = EOF)"
| "reader_ends (Bounded b) e = bounded_ends b e"

fun reader_left :: "reader \<Rightarrow> nat" where
  "reader_left NoBody = 0"
| "reader_left (Bounded b) = body_left (bb_body b)"

lemma reader_Read_cases:
  assumes "reader_Read r n = (bs, e, r')"
  obtains "r = NoBody" "bs = []" "e = Some EOF" "r' = NoBody"
  | b b' where "r = Bounded b" "r' = Bounded b'" "boundedBody_Read b n = (bs, e, b')"
  using assms by (cases r) (auto split: prod.splits)

interpretation dl_reader: go_reader reader_Read reader_content reader_ends reader_left
proof unfold_locales
  fix r n bs e r'
  assume "reader_Read r n = (bs, e, r')"
  then show "length bs \<le> n" and "reader_content r = bs @ reader_content r'"
    by (cases rule: reader_Read_cases; simp add: bounded.rd_length bounded.rd_content)+
next
  fix r n bs e r'
  assume "reader_Read r n = (bs, Some e, r')"
  then show "reader_content r' = [] \<and> reader_ends r e"
    by (cases rule: reader_Read_cases) (simp_all add: bounded.rd_end)
next
  fix r n bs r' e
  assume "reader_Read r n = (bs, None, r')" and "reader_ends r' e"
  then show "reader_ends r e"
    by (cases rule: reader_Read_cases) (auto intro: bounded.rd_ends)
next
  fix r n bs r'
  assume "reader_Read r n = (bs, None, r')" and "0 < n"
  then show "reader_left r' < reader_left r"
    by (cases rule: reader_Read_cases) (auto intro: bounded.rd_left)
qed

subsection \<open>fileDownload\<close>

definition doDownload ::
  "'p platform \<Rightarrow> Client \<Rightarrow> string \<Rightarrow> string \<Rightarrow> AuthorizationMetadata \<Rightarrow> Range option \<Rightarrow> int \<Rightarrow>
   'p net \<Rightarrow> reader result \<times> 'p net" where
  "doDownload pl c fs uuid am rng limit w =
     (case url_Parse pl (opURL c OpFileDownload) of
        Inl err \<Rightarrow> (Inl (wrapf ''brokerrpc: build fileDownload request: %w'' [] err), w)
      | Inr _ \<Rightarrow>
          (case http_Do pl (json_post c OpFileDownload (marshal (FileDownloadRequest fs uuid rng am))) w of
             (Inl err, w') \<Rightarrow> (Inl (wrapf ''brokerrpc: fileDownload: %w'' [] err), w')
           | (Inr resp, w') \<Rightarrow>
               if \<not> is_2xx (StatusCode resp) then
                 (Inl (MapHTTPStatus (float_ops pl) (StatusCode resp)
                         (captureErrorBody (Body resp)) (RetryAfter resp)), w')
               else if ContentLength resp \<ge> 0 \<and> ContentLength resp > limit then
                 (if rng \<noteq> None then
                    (Inl (msgf ''brokerrpc: fileDownload: response declares %d bytes for the requested %d-byte window -- broker did not honour the range''
                            [FInt (ContentLength resp), FInt limit]), w')
                  else
                    (Inl (msgf ''brokerrpc: fileDownload: response declares %d bytes, exceeding the %d-byte cap''
                            [FInt (ContentLength resp), FInt limit]), w'))
               else (Inr (Bounded (newBoundedBody (Body resp) (rng \<noteq> None) limit)), w')))"

definition Download :: "'p platform \<Rightarrow> Client \<Rightarrow> string \<Rightarrow> 'p net \<Rightarrow> reader result \<times> 'p net" where
  "Download pl c uuid w =
     (case stamp c OpFileDownload of
        Inl err \<Rightarrow> (Inl err, w)
      | Inr (fs, am) \<Rightarrow> doDownload pl c fs uuid am None (maxDownloadBytes c) w)"

definition DownloadRange ::
  "'p platform \<Rightarrow> Client \<Rightarrow> string \<Rightarrow> int \<Rightarrow> int \<Rightarrow> 'p net \<Rightarrow> reader result \<times> 'p net" where
  "DownloadRange pl c uuid offset len w =
     (if offset < 0 then
        (Inl (msgf ''brokerrpc: DownloadRange: negative offset %d'' [FInt offset]), w)
      else if len < 0 then
        (Inl (msgf ''brokerrpc: DownloadRange: negative length %d'' [FInt len]), w)
      else if len = 0 then (Inr NoBody, w)
      else
        (case stamp c OpFileDownload of
           Inl err \<Rightarrow> (Inl err, w)
         | Inr (fs, am) \<Rightarrow>
             doDownload pl c fs uuid am (Some \<lparr>Offset = offset, Length = len\<rparr>) len w))"

subsection \<open>What the operation sends and hands out\<close>

lemma doDownload_extends:
  assumes "stamped ints c (json_post c OpFileDownload (marshal (FileDownloadRequest fs uuid rng am)))"
  shows "extends ints c w (snd (doDownload pl c fs uuid am rng limit w))"
proof -
  have "snd (doDownload pl c fs uuid am rng limit w) = w \<or>
      snd (doDownload pl c fs uuid am rng limit w) =
        snd (http_Do pl (json_post c OpFileDownload (marshal (FileDownloadRequest fs uuid rng am))) w)"
    by (auto simp: doDownload_def simp del: marshal.simps split: sum.splits prod.splits if_splits)
  with extends_Do[OF assms] show ?thesis by (metis extends_refl)
qed

lemma download_stamped:
  "''read'' \<in> set ints \<Longrightarrow> stamped ints c (json_post c OpFileDownload (marshal (FileDownloadRequest (fsID c) uuid rng
     \<lparr>Intent = ''read'', Downloadable = False\<rparr>)))"
  by (rule json_post_stamped) (simp_all add: IntentFor_cases split: option.splits)

lemma download_extends [wire_simp]:
  "''read'' \<in> set ints \<Longrightarrow> extends ints c w (snd (Download pl c uuid w))"
  "''read'' \<in> set ints \<Longrightarrow> extends ints c w (snd (DownloadRange pl c uuid offset len w))"
  by (auto simp: Download_def DownloadRange_def simp del: marshal.simps
      intro!: doDownload_extends download_stamped)

text \<open>A reader handed out delivers a prefix of the response body, at most the limit.\<close>

lemma doDownload_reader:
  assumes "doDownload pl c fs uuid am rng limit w = (Inr rd, w')"
  obtains resp p' where "round_trip pl (peer w)
      (json_post c OpFileDownload (marshal (FileDownloadRequest fs uuid rng am))) = (Inr resp, p')"
    and "is_2xx (StatusCode resp)" and "ContentLength resp \<le> limit \<or> ContentLength resp < 0"
    and "rd = Bounded (newBoundedBody (Body resp) (rng \<noteq> None) limit)"
  using assms
  by (auto simp: doDownload_def http_Do_def simp del: marshal.simps
      split: sum.splits prod.splits if_splits)

lemma bounded_drain:
  assumes "0 < k"
  shows "drain reader_Read k (Bounded (newBoundedBody b ranged limit)) [] =
     Some (take (nat limit) (body_content b),
           if int (length (body_content b)) \<le> max 0 limit then fin b
           else overCapErr (newBoundedBody b ranged limit))"
  using dl_reader.drain_complete[OF assms, of "Bounded (newBoundedBody b ranged limit)" "[]"]
  by (auto simp: bounded_content_def bounded_ends_def newBoundedBody_def)

end
