(* ===== verification/Upload.thy ===== *)
theory Upload
  imports Client
begin

text \<open>
  \<^verbatim>\<open>internal/brokerrpc/upload.go\<close>: the multipart writer, which runs concurrently with the HTTP
  sender behind a pipe, and the fileUpload operation.  The writer is a function on the write end of
  the pipe; the reader of the pipe is the transport, and may close it after any write.
\<close>

subsection \<open>The pipe\<close>

datatype pipe_event =
    FieldHeader string
  | FieldData json
  | FileHeader string string
  | FileChunk bytes
  | Trailer

text \<open>\<open>budget\<close>: how many more writes the reader takes before it closes its end.\<close>

record pipe =
  budget :: "nat option"
  events :: "pipe_event list"

definition pipe_Write :: "pipe_event \<Rightarrow> pipe \<Rightarrow> gerror option \<times> pipe" where
  "pipe_Write x pw =
     (case budget pw of
        Some 0 \<Rightarrow> (Some (Sentinel Io_ErrClosedPipe), pw)
      | Some (Suc n) \<Rightarrow> (None, pw\<lparr>budget := Some n, events := events pw @ [x]\<rparr>)
      | None \<Rightarrow> (None, pw\<lparr>events := events pw @ [x]\<rparr>))"

subsection \<open>The multipart writer\<close>

definition isPipeClosure :: "gerror \<Rightarrow> bool" where
  "isPipeClosure err \<longleftrightarrow> errors_is err Io_ErrClosedPipe"

definition sourceChunkSize :: "int \<Rightarrow> int" where
  "sourceChunkSize cap = (if cap < 1 then 1 else cap)"

function copy_loop :: "int \<Rightarrow> body \<Rightarrow> pipe \<Rightarrow> gerror option \<times> pipe" where
  "copy_loop cap sr pw =
     (case body_read sr (nat (sourceChunkSize cap)) of (buf, readErr, sr') \<Rightarrow>
        (case (if buf \<noteq> [] then pipe_Write (FileChunk buf) pw else (None, pw)) of
           (Some werr, pw') \<Rightarrow> (Some (wrapf ''write file chunk: %w'' [] werr), pw')
         | (None, pw') \<Rightarrow>
             if readErr = Some EOF then (None, pw')
             else (case readErr of
                     Some err \<Rightarrow> (Some (wrapf ''read source: %w'' [] err), pw')
                   | None \<Rightarrow> copy_loop cap sr' pw')))"
  by pat_completeness auto
termination
  by (relation "measure (\<lambda>(n, sr, pw). body_left sr)")
     (auto simp: sourceChunkSize_def intro: resp_body.rd_left[OF sym])

declare copy_loop.simps [simp del]

definition writeUploadMultipart ::
  "string \<Rightarrow> string \<Rightarrow> int \<Rightarrow> bool \<Rightarrow> AuthorizationMetadata \<Rightarrow> body \<Rightarrow> int \<Rightarrow> pipe \<Rightarrow> gerror option \<times> pipe" where
  "writeUploadMultipart fs p totalBytes overwrite am sr cap pw =
     (let payload = marshal (FileUploadRequest fs p totalBytes overwrite am) in
      case pipe_Write (FieldHeader ''params'') pw of
        (Some err, pw1) \<Rightarrow> (Some (wrapf ''create params field: %w'' [] err), pw1)
      | (None, pw1) \<Rightarrow>
          (case pipe_Write (FieldData payload) pw1 of
             (Some err, pw2) \<Rightarrow> (Some (wrapf ''write params field: %w'' [] err), pw2)
           | (None, pw2) \<Rightarrow>
               (case pipe_Write (FileHeader ''file'' ''upload'') pw2 of
                  (Some err, pw3) \<Rightarrow> (Some (wrapf ''create file part: %w'' [] err), pw3)
                | (None, pw3) \<Rightarrow> copy_loop cap sr pw3)))"

text \<open>The goroutine: the writer, then the closing boundary; the first error is the result.\<close>

definition upload_writer ::
  "Client \<Rightarrow> string \<Rightarrow> AuthorizationMetadata \<Rightarrow> string \<Rightarrow> body \<Rightarrow> int \<Rightarrow> bool \<Rightarrow> nat option \<Rightarrow>
   gerror option \<times> pipe" where
  "upload_writer c fs am p sr totalBytes overwrite bud =
     (case writeUploadMultipart fs p totalBytes overwrite am sr (messageCeiling c)
             \<lparr>budget = bud, events = []\<rparr> of
        (err, pw) \<Rightarrow>
          (case pipe_Write Trailer pw of
             (cerr, pw') \<Rightarrow> (if err = None then cerr else err, pw')))"

text \<open>The parts of a multipart body, as its reader reassembles them.\<close>

fun chunk_bytes :: "pipe_event list \<Rightarrow> bytes" where
  "chunk_bytes (FileChunk b # es) = b @ chunk_bytes es"
| "chunk_bytes (_ # es) = chunk_bytes es"
| "chunk_bytes [] = []"

fun parts_of :: "pipe_event list \<Rightarrow> part list" where
  "parts_of (FieldHeader n # FieldData j # es) = FormField n j # parts_of es"
| "parts_of (FileHeader n fn # es) = [FormFile n fn (chunk_bytes es)]"
| "parts_of (_ # es) = parts_of es"
| "parts_of [] = []"

subsection \<open>fileUpload\<close>

definition upload_request ::
  "Client \<Rightarrow> string \<Rightarrow> AuthorizationMetadata \<Rightarrow> string \<Rightarrow> body \<Rightarrow> int \<Rightarrow> bool \<Rightarrow> wire_request" where
  "upload_request c fs am p sr totalBytes overwrite =
     (case upload_writer c fs am p sr totalBytes overwrite None of
        (err, pw) \<Rightarrow>
          setAuthHeader c \<lparr>w_method = ''POST'', w_url = opURL c OpFileUpload, w_auth = [],
                           w_contentType = ''multipart/form-data'',
                           w_body = WMultipart (parts_of (events pw)) err\<rparr>)"

definition Upload ::
  "'p platform \<Rightarrow> Client \<Rightarrow> string \<Rightarrow> body \<Rightarrow> int \<Rightarrow> bool \<Rightarrow> 'p net \<Rightarrow> gerror option \<times> 'p net" where
  "Upload pl c p sr totalBytes overwrite w =
     (case stamp c OpFileUpload of
        Inl err \<Rightarrow> (Some err, w)
      | Inr (fs, am) \<Rightarrow>
          (case url_Parse pl (opURL c OpFileUpload) of
             Inl err \<Rightarrow> (Some (wrapf ''brokerrpc: build upload request: %w'' [] err), w)
           | Inr _ \<Rightarrow>
               (let q = upload_request c fs am p sr totalBytes overwrite;
                    writeErr = fst (upload_writer c fs am p sr totalBytes overwrite
                                      (pipe_accepts pl (peer w) q)) in
                case http_Do pl q w of
                  (Inl err, w') \<Rightarrow> (Some (wrapf ''brokerrpc: fileUpload: %w'' [] err), w')
                | (Inr resp, w') \<Rightarrow>
                    if \<not> is_2xx (StatusCode resp) then
                      (Some (MapHTTPStatus (float_ops pl) (StatusCode resp)
                               (captureErrorBody (Body resp)) (RetryAfter resp)), w')
                    else
                      (case ReadAll_limited (Body resp) maxErrorBodyBytes of
                         (_, Some readErr, _) \<Rightarrow>
                           (Some (wrapf ''brokerrpc: fileUpload read response body: %w'' [] readErr), w')
                       | (_, None, _) \<Rightarrow>
                           (case writeErr of
                              Some err \<Rightarrow>
                                if \<not> isPipeClosure err then
                                  (Some (wrapf ''brokerrpc: fileUpload write body: %w'' [] err), w')
                                else (None, w')
                            | None \<Rightarrow> (None, w'))))))"

subsection \<open>The writer on a pipe that is never closed\<close>

lemma pipe_Write_open [simp]:
  "pipe_Write x \<lparr>budget = None, events = es\<rparr> = (None, \<lparr>budget = None, events = es @ [x]\<rparr>)"
  by (simp add: pipe_Write_def)

definition source_error :: "body \<Rightarrow> gerror option" where
  "source_error sr = (if fin sr = EOF then None else Some (wrapf ''read source: %w'' [] (fin sr)))"

lemma copy_loop_open:
  "\<exists>cs. copy_loop cap sr \<lparr>budget = None, events = es\<rparr> =
          (source_error sr, \<lparr>budget = None, events = es @ map FileChunk cs\<rparr>) \<and>
        concat cs = body_content sr \<and>
        (\<forall>b \<in> set cs. b \<noteq> [] \<and> int (length b) \<le> sourceChunkSize cap)"
proof (induction cap sr "\<lparr>budget = None, events = es\<rparr>" arbitrary: es rule: copy_loop.induct)
  case (1 cap sr es)
  obtain buf er sr' where st: "body_read sr (nat (sourceChunkSize cap)) = (buf, er, sr')"
    by (cases "body_read sr (nat (sourceChunkSize cap))") auto
  let ?cs = "if buf \<noteq> [] then [buf] else []"
  have len: "int (length buf) \<le> sourceChunkSize cap"
    using resp_body.rd_length[OF st] by (simp add: sourceChunkSize_def split: if_splits)
  have wr: "(if buf \<noteq> [] then pipe_Write (FileChunk buf) \<lparr>budget = None, events = es\<rparr>
             else (None, \<lparr>budget = None, events = es\<rparr>)) =
            (None, \<lparr>budget = None, events = es @ map FileChunk ?cs\<rparr>)" by simp
  note unf = copy_loop.simps[of cap sr "\<lparr>budget = None, events = es\<rparr>"]
  show ?case
  proof (cases er)
    case None
    then have ne: "er \<noteq> Some EOF" by simp
    from "1.hyps"[OF st[symmetric] refl wr[symmetric] refl ne None]
    obtain cs where cs: "copy_loop cap sr' \<lparr>budget = None, events = es @ map FileChunk ?cs\<rparr> =
          (source_error sr', \<lparr>budget = None, events = (es @ map FileChunk ?cs) @ map FileChunk cs\<rparr>)"
        "concat cs = body_content sr'" "\<forall>b \<in> set cs. b \<noteq> [] \<and> int (length b) \<le> sourceChunkSize cap"
      by auto
    have "source_error sr' = source_error sr" using body_read_fin[OF st] by (simp add: source_error_def)
    then show ?thesis
      using cs len resp_body.rd_content[OF st] None unfolding unf st prod.case wr
      by (intro exI[of _ "?cs @ cs"]) simp
  next
    case (Some err)
    then have "err = fin sr" "body_content sr' = []" using resp_body.rd_end st by blast+
    then show ?thesis
      using len resp_body.rd_content[OF st] Some unfolding unf st prod.case wr
      by (intro exI[of _ ?cs]) (simp add: source_error_def)
  qed
qed

lemma chunk_bytes_chunks [simp]: "chunk_bytes (map FileChunk cs @ [Trailer]) = concat cs"
  by (induction cs) auto

lemma upload_writer_open:
  obtains cs where "upload_writer c fs am p sr totalBytes overwrite None =
      (source_error sr, \<lparr>budget = None, events =
         [FieldHeader ''params'', FieldData (marshal (FileUploadRequest fs p totalBytes overwrite am)),
          FileHeader ''file'' ''upload''] @ map FileChunk cs @ [Trailer]\<rparr>)"
    and "concat cs = body_content sr"
    and "\<forall>b \<in> set cs. b \<noteq> [] \<and> int (length b) \<le> sourceChunkSize (messageCeiling c)"
proof -
  obtain cs where cs: "copy_loop (messageCeiling c) sr \<lparr>budget = None, events =
         [FieldHeader ''params'', FieldData (marshal (FileUploadRequest fs p totalBytes overwrite am)),
          FileHeader ''file'' ''upload'']\<rparr> =
      (source_error sr, \<lparr>budget = None, events =
         [FieldHeader ''params'', FieldData (marshal (FileUploadRequest fs p totalBytes overwrite am)),
          FileHeader ''file'' ''upload''] @ map FileChunk cs\<rparr>)"
      "concat cs = body_content sr"
      "\<forall>b \<in> set cs. b \<noteq> [] \<and> int (length b) \<le> sourceChunkSize (messageCeiling c)"
    using copy_loop_open by blast
  show ?thesis
    by (rule that[OF _ cs(2,3)])
       (use cs(1) in \<open>simp add: upload_writer_def writeUploadMultipart_def del: marshal.simps\<close>)
qed

lemma upload_request_parts:
  "upload_request c fs am p sr totalBytes overwrite =
     \<lparr>w_method = ''POST'', w_url = opURL c OpFileUpload, w_auth = ''Bearer '' @ authToken c,
      w_contentType = ''multipart/form-data'',
      w_body = WMultipart
        [FormField ''params'' (marshal (FileUploadRequest fs p totalBytes overwrite am)),
         FormFile ''file'' ''upload'' (body_content sr)] (source_error sr)\<rparr>"
  by (rule upload_writer_open[of c fs am p sr totalBytes overwrite])
     (simp add: upload_request_def setAuthHeader_def del: marshal.simps)

lemma upload_stamped:
  "''write'' \<in> set ints \<Longrightarrow> stamped ints c (upload_request c (fsID c) \<lparr>Intent = ''write'', Downloadable = False\<rparr> p sr n ov)"
  by (rule stampedI[where op = OpFileUpload and intent = "''write''"])
     (simp_all add: upload_request_parts wire_params_def json_AuthorizationMetadata_def
       opIntentTable_def op_defs)

lemma Upload_extends [wire_simp]:
  assumes "''write'' \<in> set ints"
  shows "extends ints c w (snd (Upload pl c p sr n ov w))"
proof -
  let ?q = "upload_request c (fsID c) \<lparr>Intent = ''write'', Downloadable = False\<rparr> p sr n ov"
  have "snd (Upload pl c p sr n ov w) = w \<or> snd (Upload pl c p sr n ov w) = snd (http_Do pl ?q w)"
    by (auto simp: Upload_def Let_def split: sum.splits prod.splits option.splits if_splits)
  with extends_Do[OF upload_stamped[OF assms]] show ?thesis by (metis extends_refl)
qed

end
