(* ===== verification/BrokerClient.thy ===== *)
theory BrokerClient
  imports Cursor Download Upload
begin

text \<open>
  \<^verbatim>\<open>backend/ocufs/client.go\<close>: the interface through which the backend reaches the broker, as a
  record of its methods over a state \<open>'w\<close> (\<open>'s\<close> is the state the listing callback captures).
  \<open>broker_client\<close> is the contract the backend relies on; \<open>brokerrpc_Client\<close> is the REST client
  behind the interface, and the interpretation at the end proves the contract for it.
\<close>

record ('w, 's) brokerClient =
  bc_ListDirectoryStream :: "string \<Rightarrow> 's yield \<Rightarrow> 's \<Rightarrow> 'w \<Rightarrow> (gerror option \<times> 's) \<times> 'w"
  bc_ListDirectoryAll :: "string \<Rightarrow> 'w \<Rightarrow> ListDirEntry list result \<times> 'w"
  bc_ReadMetadata :: "string \<Rightarrow> 'w \<Rightarrow> ReadMetadataResponse result \<times> 'w"
  bc_Download :: "string \<Rightarrow> 'w \<Rightarrow> reader result \<times> 'w"
  bc_DownloadRange :: "string \<Rightarrow> int \<Rightarrow> int \<Rightarrow> 'w \<Rightarrow> reader result \<times> 'w"
  bc_Upload :: "string \<Rightarrow> body \<Rightarrow> int \<Rightarrow> bool \<Rightarrow> 'w \<Rightarrow> gerror option \<times> 'w"
  bc_CopyFile :: "string \<Rightarrow> string \<Rightarrow> 'w \<Rightarrow> unit result \<times> 'w"
  bc_MoveFile :: "string \<Rightarrow> string \<Rightarrow> 'w \<Rightarrow> unit result \<times> 'w"
  bc_RemoveFile :: "string \<Rightarrow> 'w \<Rightarrow> unit result \<times> 'w"
  bc_MakeDirectory :: "string \<Rightarrow> 'w \<Rightarrow> unit result \<times> 'w"
  bc_RemoveDirectory :: "string \<Rightarrow> 'w \<Rightarrow> unit result \<times> 'w"
  bc_MoveDirectory :: "string \<Rightarrow> string \<Rightarrow> 'w \<Rightarrow> unit result \<times> 'w"

subsection \<open>The contract\<close>

text \<open>
  A callback that never fails is folded over the entries the buffering listing returns; a window of
  length 0 is answered without a call, a negative one is refused without a call, and a reader over
  a window never holds more bytes than the window.  \<open>evolves w w'\<close> says how the operations may
  change the state; \<open>broker_reads\<close> asks it of the read operations alone.
\<close>

locale broker_reads =
  fixes bc :: "('w, 's) brokerClient"
    and evolves :: "'w \<Rightarrow> 'w \<Rightarrow> bool"
  assumes evolves_refl: "evolves w w"
    and evolves_trans: "evolves w w' \<Longrightarrow> evolves w' w'' \<Longrightarrow> evolves w w''"
    and evolves_reads:
      "evolves w (snd (bc_ListDirectoryStream bc p y s w))"
      "evolves w (snd (bc_ListDirectoryAll bc p w))"
      "evolves w (snd (bc_ReadMetadata bc p w))"
      "evolves w (snd (bc_Download bc uuid w))"
      "evolves w (snd (bc_DownloadRange bc uuid offset len w))"

locale broker_client = broker_reads +
  assumes stream_ok: "bc_ListDirectoryAll bc p w = (Inr es, w') \<Longrightarrow>
      bc_ListDirectoryStream bc p (\<lambda>e s. (None, f e s)) s w = ((None, fold f es s), w')"
    and stream_err: "bc_ListDirectoryAll bc p w = (Inl err, w') \<Longrightarrow>
      \<exists>s'. bc_ListDirectoryStream bc p (\<lambda>e s. (None, f e s)) s w = ((Some err, s'), w')"
    and range_empty: "0 \<le> offset \<Longrightarrow> bc_DownloadRange bc uuid offset 0 w = (Inr NoBody, w)"
    and range_negative: "offset < 0 \<or> len < 0 \<Longrightarrow> \<exists>err. bc_DownloadRange bc uuid offset len w = (Inl err, w)"
    and range_bound: "bc_DownloadRange bc uuid offset len w = (Inr rd, w') \<Longrightarrow>
      int (length (reader_content rd)) \<le> len"
    and evolves_writes:
      "evolves w (snd (bc_Upload bc p sr n ov w))"
      "evolves w (snd (bc_CopyFile bc p q w))"
      "evolves w (snd (bc_MoveFile bc p q w))"
      "evolves w (snd (bc_RemoveFile bc p w))"
      "evolves w (snd (bc_MakeDirectory bc p w))"
      "evolves w (snd (bc_RemoveDirectory bc p w))"
      "evolves w (snd (bc_MoveDirectory bc p q w))"

subsection \<open>The REST client behind the interface\<close>

definition brokerrpc_Client :: "'p platform \<Rightarrow> Client \<Rightarrow> ('p net, 's) brokerClient" where
  "brokerrpc_Client pl c =
     \<lparr>bc_ListDirectoryStream = ListDirectoryStream pl c,
      bc_ListDirectoryAll = ListDirectoryAll pl c,
      bc_ReadMetadata = ReadMetadata pl c,
      bc_Download = Download pl c,
      bc_DownloadRange = DownloadRange pl c,
      bc_Upload = Upload pl c,
      bc_CopyFile = CopyFile pl c,
      bc_MoveFile = MoveFile pl c,
      bc_RemoveFile = RemoveFile pl c,
      bc_MakeDirectory = MakeDirectory pl c,
      bc_RemoveDirectory = RemoveDirectory pl c,
      bc_MoveDirectory = MoveDirectory pl c\<rparr>"

lemma DownloadRange_bound:
  assumes "DownloadRange pl c uuid offset len w = (Inr rd, w')"
  shows "int (length (reader_content rd)) \<le> len"
proof (cases "len = 0")
  case True
  with assms show ?thesis by (auto simp: DownloadRange_def split: if_splits)
next
  case False
  with assms have "0 < len" and
    "doDownload pl c (fsID c) uuid \<lparr>Intent = ''read'', Downloadable = False\<rparr>
       (Some \<lparr>Offset = offset, Length = len\<rparr>) len w = (Inr rd, w')"
    by (auto simp: DownloadRange_def split: if_splits)
  then show ?thesis
    by (elim doDownload_reader) (simp add: bounded_content_def newBoundedBody_def)
qed

lemma DownloadRange_local:
  "0 \<le> offset \<Longrightarrow> DownloadRange pl c uuid offset 0 w = (Inr NoBody, w)"
  "offset < 0 \<or> len < 0 \<Longrightarrow> \<exists>err. DownloadRange pl c uuid offset len w = (Inl err, w)"
  by (auto simp: DownloadRange_def)

interpretation rpc_reads: broker_reads "brokerrpc_Client pl c" "extends [''read''] c" for pl c
proof unfold_locales
  show "extends [''read''] c w w''" if "extends [''read''] c w w'" "extends [''read''] c w' w''"
    for w w' w'' :: "'a net"
    using that by (rule extends_trans)
qed (auto simp: brokerrpc_Client_def ListDirectoryAll_stream wire_simp)

interpretation rpc: broker_client "brokerrpc_Client pl c" "extends [''read'', ''write''] c" for pl c
proof unfold_locales
  fix p w es w' and f :: "ListDirEntry \<Rightarrow> 'b \<Rightarrow> 'b" and s
  assume "bc_ListDirectoryAll (brokerrpc_Client pl c :: ('a net, 'b) brokerClient) p w = (Inr es, w')"
  then show "bc_ListDirectoryStream (brokerrpc_Client pl c) p (\<lambda>e s. (None, f e s)) s w =
      ((None, fold f es s), w')"
    by (subst (asm) brokerrpc_Client_def) (simp add: brokerrpc_Client_def ListDirectoryStream_All[of pl c p f s w])
next
  fix p w err w' and f :: "ListDirEntry \<Rightarrow> 'b \<Rightarrow> 'b" and s
  assume "bc_ListDirectoryAll (brokerrpc_Client pl c :: ('a net, 'b) brokerClient) p w = (Inl err, w')"
  then show "\<exists>s'. bc_ListDirectoryStream (brokerrpc_Client pl c) p (\<lambda>e s. (None, f e s)) s w =
      ((Some err, s'), w')"
    using ListDirectoryStream_All[of pl c p f s w] by (auto simp: brokerrpc_Client_def)
next
  show "extends [''read'', ''write''] c w w''"
    if "extends [''read'', ''write''] c w w'" "extends [''read'', ''write''] c w' w''"
    for w w' w'' :: "'a net"
    using that by (rule extends_trans)
qed (auto simp: brokerrpc_Client_def DownloadRange_local ListDirectoryAll_stream wire_simp
     dest: DownloadRange_bound)

end
