(* ===== verification/GoPath.thy ===== *)
theory GoPath
  imports Prelude
begin

text \<open>
  Package \<^verbatim>\<open>path\<close> (and \<^verbatim>\<open>path/filepath\<close> on the Unix targets, where the two agree): the lexical
  \<^verbatim>\<open>Clean\<close>, \<^verbatim>\<open>Join\<close> and \<^verbatim>\<open>Dir\<close> the sources use for broker paths and mount destinations.

  A cleaned absolute path is determined by its list of segments; \<open>slash_path\<close> and
  \<open>path_segs\<close> convert between the two views, and the lemmas reduce every string-level prefix
  test of the sources to a statement about segment lists.
\<close>

subsection \<open>Splitting and joining at the separator\<close>

fun split_slash :: "string \<Rightarrow> string list" where
  "split_slash [] = [[]]"
| "split_slash (c # cs) =
     (if c = slash then [] # split_slash cs
      else (case split_slash cs of [] \<Rightarrow> [[c]] | s # ss \<Rightarrow> (c # s) # ss))"

fun join_slash :: "string list \<Rightarrow> string" where
  "join_slash [] = []"
| "join_slash [s] = s"
| "join_slash (s # t # ss) = s @ slash # join_slash (t # ss)"

lemma split_slash_not_Nil [simp]: "split_slash s \<noteq> []"
  by (cases s) (auto split: list.splits)

lemma join_split_slash [simp]: "join_slash (split_slash s) = s"
proof (induction s)
  case (Cons c cs)
  then show ?case
    by (cases "split_slash cs"; cases "tl (split_slash cs)") auto
qed simp

lemma split_slash_no_slash: "slash \<notin> set s \<Longrightarrow> split_slash s = [s]"
  by (induction s) auto

lemma split_slash_append: "slash \<notin> set s \<Longrightarrow> split_slash (s @ slash # t) = s # split_slash t"
  by (induction s) auto

lemma split_join_slash:
  "ss \<noteq> [] \<Longrightarrow> list_all (\<lambda>s. slash \<notin> set s) ss \<Longrightarrow> split_slash (join_slash ss) = ss"
  by (induction ss rule: join_slash.induct) (auto simp: split_slash_no_slash split_slash_append)

lemma split_slash_segments: "list_all (\<lambda>t. slash \<notin> set t) (split_slash s)"
  by (induction s) (auto split: list.splits)

lemma join_slash_snoc: "ss \<noteq> [] \<Longrightarrow> join_slash (ss @ [s]) = join_slash ss @ slash # s"
  by (induction ss rule: join_slash.induct) auto

lemma join_slash_append:
  "ss \<noteq> [] \<Longrightarrow> ts \<noteq> [] \<Longrightarrow> join_slash (ss @ ts) = join_slash ss @ slash # join_slash ts"
proof (induction ss rule: join_slash.induct)
  case (2 s)
  then show ?case by (cases ts) auto
qed auto

subsection \<open>Clean, Join, Dir\<close>

text \<open>
  One element of the lexical rewriting: \<open>out\<close> is the stack of kept elements, last first.
  An empty element or a dot is dropped, a dot-dot removes the element before it, stays when there
  is none to remove, and disappears at the root.
\<close>

definition clean_step :: "bool \<Rightarrow> string list \<Rightarrow> string \<Rightarrow> string list" where
  "clean_step rooted out seg =
     (if seg = [] \<or> seg = ''.'' then out
      else if seg = ''..'' then
        (case out of
           [] \<Rightarrow> if rooted then [] else [''..'']
         | t # ts \<Rightarrow> if t = ''..'' then ''..'' # t # ts else ts)
      else seg # out)"

definition clean_segs :: "bool \<Rightarrow> string list \<Rightarrow> string list" where
  "clean_segs rooted segs = rev (foldl (clean_step rooted) [] segs)"

definition Clean :: "string \<Rightarrow> string" where
  "Clean p =
     (let rooted = HasPrefix p ''/'';
          body = join_slash (clean_segs rooted (split_slash p))
      in if rooted then slash # body else if body = [] then ''.'' else body)"

definition Join :: "string list \<Rightarrow> string" where
  "Join elems =
     (let es = filter (\<lambda>e. e \<noteq> []) elems
      in if es = [] then [] else Clean (join_slash es))"

definition Dir :: "string \<Rightarrow> string" where
  "Dir p = Clean (rev (dropWhile (\<lambda>c. c \<noteq> slash) (rev p)))"

subsection \<open>Cleaned absolute paths as segment lists\<close>

definition good_seg :: "string \<Rightarrow> bool" where
  "good_seg s \<longleftrightarrow> s \<noteq> [] \<and> s \<noteq> ''.'' \<and> s \<noteq> ''..'' \<and> slash \<notin> set s"

definition slash_path :: "string list \<Rightarrow> string" where
  "slash_path segs = slash # join_slash segs"

definition path_segs :: "string \<Rightarrow> string list" where
  "path_segs p = filter (\<lambda>s. s \<noteq> []) (split_slash p)"

definition canonical :: "string \<Rightarrow> bool" where
  "canonical p \<longleftrightarrow> HasPrefix p ''/'' \<and> Clean p = p"

lemma good_seg_no_slash: "list_all good_seg ss \<Longrightarrow> list_all (\<lambda>s. slash \<notin> set s) ss"
  by (auto simp: list_all_iff good_seg_def)

lemma path_segs_slash_path [simp]: "list_all good_seg ss \<Longrightarrow> path_segs (slash_path ss) = ss"
proof (cases "ss = []")
  case False
  assume g: "list_all good_seg ss"
  with False have "split_slash (join_slash ss) = ss"
    by (simp add: split_join_slash good_seg_no_slash)
  moreover have "filter (\<lambda>s. s \<noteq> []) ss = ss"
    using g by (auto simp: list_all_iff good_seg_def intro!: filter_True)
  ultimately show ?thesis by (simp add: path_segs_def slash_path_def)
qed (simp add: path_segs_def slash_path_def)

lemma slash_path_inj:
  "list_all good_seg ss \<Longrightarrow> list_all good_seg ts \<Longrightarrow> slash_path ss = slash_path ts \<longleftrightarrow> ss = ts"
  by (metis path_segs_slash_path)

lemma clean_step_good:
  "list_all good_seg out \<Longrightarrow> slash \<notin> set seg \<Longrightarrow> list_all good_seg (clean_step True out seg)"
  by (cases out) (auto simp: clean_step_def good_seg_def)

lemma foldl_clean_step_good:
  "list_all good_seg out \<Longrightarrow> list_all (\<lambda>s. slash \<notin> set s) segs \<Longrightarrow>
     list_all good_seg (foldl (clean_step True) out segs)"
  by (induction segs arbitrary: out) (auto simp: clean_step_good)

lemma clean_segs_good: "list_all (\<lambda>s. slash \<notin> set s) segs \<Longrightarrow> list_all good_seg (clean_segs True segs)"
  by (simp add: clean_segs_def foldl_clean_step_good list_all_rev)

lemma clean_step_keep: "good_seg s \<Longrightarrow> clean_step r out s = s # out"
  by (auto simp: clean_step_def good_seg_def)

lemma foldl_clean_step_keep:
  "list_all good_seg segs \<Longrightarrow> foldl (clean_step r) out segs = rev segs @ out"
  by (induction segs arbitrary: out) (auto simp: clean_step_keep)

lemma clean_segs_keep: "list_all good_seg segs \<Longrightarrow> clean_segs r segs = segs"
  by (simp add: clean_segs_def foldl_clean_step_keep)

lemma clean_segs_skip_Nil: "clean_segs r ([] # segs) = clean_segs r segs"
  by (simp add: clean_segs_def clean_step_def)

lemma Clean_rooted: "Clean (slash # p) = slash_path (clean_segs True (split_slash p))"
  by (simp add: Clean_def HasPrefix_def slash_path_def clean_segs_skip_Nil)

lemma Clean_rooted_segs:
  obtains segs where "list_all good_seg segs" and "Clean (slash # p) = slash_path segs"
  using Clean_rooted clean_segs_good[OF split_slash_segments] by blast

lemma Clean_slash_path [simp]: "list_all good_seg segs \<Longrightarrow> Clean (slash_path segs) = slash_path segs"
proof (cases "segs = []")
  case True
  then show ?thesis by (simp add: slash_path_def Clean_rooted clean_segs_def clean_step_def)
next
  case False
  assume g: "list_all good_seg segs"
  then have "clean_segs True (split_slash (join_slash segs)) = segs"
    using False by (simp add: split_join_slash good_seg_no_slash clean_segs_keep)
  then show ?thesis by (simp add: slash_path_def Clean_rooted)
qed

lemma canonical_iff: "canonical p \<longleftrightarrow> (\<exists>segs. list_all good_seg segs \<and> p = slash_path segs)"
proof
  assume c: "canonical p"
  then obtain q where "p = slash # q"
    by (auto simp: canonical_def elim!: HasPrefixE)
  with c show "\<exists>segs. list_all good_seg segs \<and> p = slash_path segs"
    by (metis Clean_rooted_segs canonical_def)
next
  assume "\<exists>segs. list_all good_seg segs \<and> p = slash_path segs"
  then show "canonical p"
    by (auto simp: canonical_def HasPrefix_def slash_path_def[symmetric]) (simp add: slash_path_def)
qed

lemma canonicalE:
  assumes "canonical p"
  obtains segs where "list_all good_seg segs" and "p = slash_path segs" and "path_segs p = segs"
  using assms by (auto simp: canonical_iff)

lemma canonical_slash_path [simp]: "list_all good_seg segs \<Longrightarrow> canonical (slash_path segs)"
  by (auto simp: canonical_iff)

lemma canonical_Clean_rooted [simp]: "canonical (Clean (slash # p))"
  by (metis Clean_rooted_segs canonical_slash_path)

lemma Clean_canonical: "canonical p \<Longrightarrow> Clean p = p"
  by (simp add: canonical_def)

subsection \<open>Prefix tests at a separator boundary\<close>

lemma slash_path_child:
  assumes "list_all good_seg segs" and "segs \<noteq> []"
  shows "slash_path segs @ slash # t = slash # join_slash segs @ slash # t"
  by (simp add: slash_path_def)

lemma join_slash_prefix_iff:
  assumes "list_all (\<lambda>s. slash \<notin> set s) ss" and "list_all (\<lambda>s. slash \<notin> set s) ts"
    and "ss \<noteq> []"
  shows "(\<exists>u. join_slash ts = join_slash ss @ slash # u) \<longleftrightarrow> (\<exists>us. us \<noteq> [] \<and> ts = ss @ us)"
proof
  assume "\<exists>u. join_slash ts = join_slash ss @ slash # u"
  then obtain u where u: "join_slash ts = join_slash ss @ slash # u" by blast
  then have ne: "ts \<noteq> []" by (cases ts) auto
  have "join_slash ts = join_slash (ss @ split_slash u)"
    using assms(3) u by (simp add: join_slash_append)
  then have "split_slash (join_slash ts) = split_slash (join_slash (ss @ split_slash u))" by simp
  then have "ts = ss @ split_slash u"
    using assms ne by (simp add: split_join_slash split_slash_segments)
  then show "\<exists>us. us \<noteq> [] \<and> ts = ss @ us" by auto
next
  assume "\<exists>us. us \<noteq> [] \<and> ts = ss @ us"
  then show "\<exists>u. join_slash ts = join_slash ss @ slash # u"
    using assms(3) by (auto simp: join_slash_append)
qed

lemma HasPrefix_child_iff:
  assumes "list_all good_seg ss" and "list_all good_seg ts" and "ss \<noteq> []"
  shows "HasPrefix (slash_path ts) (slash_path ss @ ''/'') \<longleftrightarrow> (\<exists>us. us \<noteq> [] \<and> ts = ss @ us)"
proof -
  have "HasPrefix (slash_path ts) (slash_path ss @ ''/'') \<longleftrightarrow>
        (\<exists>u. join_slash ts = join_slash ss @ slash # u)"
    by (auto simp: HasPrefix_iff_prefix prefix_def slash_path_def)
  then show ?thesis
    using join_slash_prefix_iff[of ss ts] assms by (simp add: good_seg_no_slash)
qed

lemma HasPrefix_root_child:
  assumes "list_all good_seg ts"
  shows "\<not> HasPrefix (slash_path ts) ''//''"
proof (cases ts)
  case (Cons t us)
  then have "t \<noteq> [] \<and> hd t \<noteq> slash" using assms by (auto simp: good_seg_def) (metis hd_in_set)
  then show ?thesis using Cons by (cases us; cases t) (auto simp: slash_path_def HasPrefix_def)
qed (simp add: slash_path_def HasPrefix_def)

subsection \<open>Relative paths and the pieces of a path\<close>

lemma join_slash_hd: "list_all good_seg ss \<Longrightarrow> ss \<noteq> [] \<Longrightarrow> \<not> HasPrefix (join_slash ss) ''/''"
proof (cases ss)
  case (Cons t us)
  assume "list_all good_seg ss"
  then obtain c cs where "t = c # cs" "c \<noteq> slash" using Cons by (cases t) (auto simp: good_seg_def)
  then show ?thesis using Cons by (cases us) (auto simp: HasPrefix_def)
qed simp

lemma join_slash_ne: "list_all good_seg ss \<Longrightarrow> join_slash ss = [] \<longleftrightarrow> ss = []"
  by (cases ss rule: join_slash.cases) (auto simp: good_seg_def)

lemma Clean_join_slash:
  assumes "list_all good_seg ss" "ss \<noteq> []"
  shows "Clean (join_slash ss) = join_slash ss"
proof -
  have "split_slash (join_slash ss) = ss"
    using assms by (simp add: split_join_slash good_seg_no_slash)
  then show ?thesis
    using assms join_slash_hd[OF assms] join_slash_ne[OF assms(1)]
    by (simp add: Clean_def clean_segs_keep)
qed

lemma Join_join_slash:
  assumes "list_all good_seg rs" "list_all good_seg ss" "ss \<noteq> []"
  shows "Join [join_slash rs, join_slash ss] = join_slash (rs @ ss)"
  using assms Clean_join_slash[of "rs @ ss"] join_slash_ne[of rs] join_slash_ne[of ss]
  by (cases "rs = []") (simp_all add: Join_def join_slash_append)

lemma slash_in_join:
  assumes "list_all good_seg ss"
  shows "slash \<in> set (join_slash ss) \<longleftrightarrow> 2 \<le> length ss"
  using assms by (cases ss rule: join_slash.cases) (auto simp: good_seg_def)

lemma TrimPrefix_root: "TrimPrefix (slash_path ts) ''/'' = join_slash ts"
  using TrimPrefix_append[of "''/''" "join_slash ts"] by (simp add: slash_path_def)

lemma TrimPrefix_none: "\<not> HasPrefix s p \<Longrightarrow> TrimPrefix s p = s"
  by (simp add: TrimPrefix_def)

lemma TrimPrefix_child:
  assumes "list_all good_seg ss" "list_all good_seg us" "us \<noteq> []"
  shows "TrimPrefix (TrimPrefix (slash_path (ss @ us)) (slash_path ss)) ''/'' = join_slash us"
proof (cases "ss = []")
  case True
  then show ?thesis
    using TrimPrefix_root[of us] join_slash_hd[OF assms(2,3)]
    by (simp add: slash_path_def TrimPrefix_none)
next
  case False
  then have "slash_path (ss @ us) = slash_path ss @ ''/'' @ join_slash us"
    using assms(3) by (simp add: slash_path_def join_slash_append)
  then show ?thesis using TrimPrefix_append[of "''/''" "join_slash us"] by simp
qed

end
