(* ===== verification/Ocufs.thy ===== *)
theory Ocufs
  imports BrokerClient GoPath
begin

text \<open>
  \<^verbatim>\<open>backend/ocufs/ocufs.go\<close>, \<^verbatim>\<open>options.go\<close> and \<^verbatim>\<open>errors.go\<close>: construction of the backend, the
  path helpers, the classification of metadata responses, and the methods of the file system.

  An object holds a pointer to its file system, and the code compares such pointers; a pointer is
  the address \<open>fs_addr\<close>.  The encoder of rclone, its option parser and its encoding bits are
  parameters, and so is the parser of RFC 3339 times; a time is \<open>None\<close> for the zero time.  A
  successful client call returns a response, so the nil response of the Go signature is no case.
\<close>

subsection \<open>Types\<close>

type_synonym Time = "int option"

type_synonym time_Parse = "string \<Rightarrow> string \<Rightarrow> int option"

record encoder =
  FromStandardPath :: "string \<Rightarrow> string"
  ToStandardPath :: "string \<Rightarrow> string"

record Object =
  o_fs :: nat
  o_remote :: string
  o_path :: string
  o_uuid :: string
  o_size :: int
  o_mtime :: Time
  o_mode :: string
  o_sha :: string
  o_mime :: string

datatype dir_entry = EntryObject Object | EntryDir string Time

record fs_features =
  ReadMimeType :: bool
  CanHaveEmptyDirectories :: bool
  feature_Copy :: bool
  feature_Move :: bool
  feature_DirMove :: bool
  feature_PutStream :: bool

record 'w Fs =
  fs_addr :: nat
  fs_name :: string
  fs_root :: string
  fs_client :: "('w, dir_entry list) brokerClient"
  fs_readOnly :: bool
  fs_enc :: encoder
  fs_features :: fs_features

record Options =
  opt_ReadOnly :: bool
  opt_ServiceURL :: string
  opt_FilesystemID :: string
  opt_AuthToken :: string
  opt_CACertPEM :: string
  opt_Enc :: nat

record rclone =
  configstruct_Set :: "(string \<Rightarrow> string option) \<Rightarrow> Options result"
  encoder_of :: "nat \<Rightarrow> encoder"
  EncodeCtl :: nat
  EncodeInvalidUtf8 :: nat
  EncodeBackSlash :: nat
  EncodeDoubleQuote :: nat
  EncodeRightSpace :: nat
  EncodeRightPeriod :: nat

subsection \<open>Errors\<close>

definition mapBrokerError :: "gerror option \<Rightarrow> gerror option" where
  "mapBrokerError err =
     (case err of
        None \<Rightarrow> None
      | Some e \<Rightarrow>
          if errors_is e ErrPermissionDenied then Some (Sentinel Fs_ErrorPermissionDenied)
          else if errors_is e ErrNotFound then Some (Sentinel Fs_ErrorObjectNotFound)
          else Some e)"

text \<open>A failed call, wrapped with the name of the method: \<^verbatim>\<open>fmt.Errorf("...: %w", mapBrokerError(err))\<close>.\<close>

definition wrap_mapped :: "string \<Rightarrow> fmt_arg list \<Rightarrow> gerror \<Rightarrow> gerror" where
  "wrap_mapped msg args err = Errorf msg args (case mapBrokerError (Some err) of None \<Rightarrow> [] | Some e \<Rightarrow> [e])"

subsection \<open>Construction\<close>

definition defaultEncoding :: "rclone \<Rightarrow> nat" where
  "defaultEncoding rc =
     or (EncodeCtl rc) (or (EncodeInvalidUtf8 rc) (or (EncodeBackSlash rc)
       (or (EncodeDoubleQuote rc) (or (EncodeRightSpace rc) (EncodeRightPeriod rc)))))"

definition buildFeatures :: fs_features where
  "buildFeatures =
     \<lparr>ReadMimeType = True, CanHaveEmptyDirectories = True, feature_Copy = True, feature_Move = True,
      feature_DirMove = True, feature_PutStream = False\<rparr>"

definition NewFs ::
  "rclone \<Rightarrow> 'p platform \<Rightarrow> nat \<Rightarrow> string \<Rightarrow> string \<Rightarrow> (string \<Rightarrow> string option) \<Rightarrow> ('p net) Fs result" where
  "NewFs rc pl addr name rt m =
     (case configstruct_Set rc m of
        Inl err \<Rightarrow> Inl (wrapf ''ocufs: parse options: %w'' [] err)
      | Inr opts0 \<Rightarrow>
          (let opts = (if m ''encoding'' = None then opts0\<lparr>opt_Enc := defaultEncoding rc\<rparr> else opts0) in
           if opt_ServiceURL opts = [] then Inl (msgf ''ocufs: service_url is required'' [])
           else if opt_FilesystemID opts = [] then Inl (msgf ''ocufs: filesystem_id is required'' [])
           else if opt_AuthToken opts = [] then Inl (msgf ''ocufs: auth_token is required'' [])
           else if opt_CACertPEM opts = [] then Inl (msgf ''ocufs: ca_cert_pem is required'' [])
           else
             (case New pl (opt_ServiceURL opts) (opt_FilesystemID opts) (opt_AuthToken opts)
                     (opt_CACertPEM opts) of
                Inl err \<Rightarrow> Inl (wrapf ''ocufs: create broker client: %w'' [] err)
              | Inr c \<Rightarrow>
                  Inr \<lparr>fs_addr = addr, fs_name = name, fs_root = rt,
                       fs_client = brokerrpc_Client pl c, fs_readOnly = opt_ReadOnly opts,
                       fs_enc = encoder_of rc (opt_Enc opts), fs_features = buildFeatures\<rparr>)))"

subsection \<open>Path helpers\<close>

definition cleanPath :: "string \<Rightarrow> string" where
  "cleanPath p = Clean (slash # p)"

definition absPath :: "'w Fs \<Rightarrow> string \<Rightarrow> string" where
  "absPath f rel =
     (let std = (if rel \<noteq> [] then Join [fs_root f, rel] else fs_root f) in
      cleanPath (FromStandardPath (fs_enc f) std))"

definition immediateChildRemote :: "'w Fs \<Rightarrow> string \<Rightarrow> string \<Rightarrow> ListDirEntry \<Rightarrow> string option" where
  "immediateChildRemote f dir parentPath entry =
     (case (case e_File entry of
              Some ff \<Rightarrow> Some (ff_Path ff)
            | None \<Rightarrow> (case e_Directory entry of Some d \<Rightarrow> Some (d_Path d) | None \<Rightarrow> None)) of
        None \<Rightarrow> None
      | Some ep \<Rightarrow>
          (let entryPath = cleanPath ep in
           if entryPath = parentPath then None
           else if \<not> HasPrefix entryPath (parentPath @ ''/'') \<and>
                   (parentPath \<noteq> ''/'' \<or> count_list (TrimPrefix entryPath ''/'') slash > 0) then None
           else
             (let rel = TrimPrefix (TrimPrefix entryPath parentPath) ''/'' in
              if slash \<in> set rel then None
              else
                (let rel' = ToStandardPath (fs_enc f) rel in
                 if dir = [] then Some rel' else Some (Join [dir, rel'])))))"

subsection \<open>Times and metadata arms\<close>

definition RFC3339Nano :: string where
  "RFC3339Nano = ''2006-01-02T15:04:05.999999999Z07:00''"

definition RFC3339 :: string where
  "RFC3339 = ''2006-01-02T15:04:05Z07:00''"

definition parseMtime :: "time_Parse \<Rightarrow> string \<Rightarrow> Time" where
  "parseMtime tp s =
     (if s = [] then None
      else (case tp RFC3339Nano s of
              Some t \<Rightarrow> Some t
            | None \<Rightarrow> (case tp RFC3339 s of Some t \<Rightarrow> Some t | None \<Rightarrow> None)))"

datatype metaArm = metaArmAbsent | metaArmFile | metaArmDirectory

definition classifyMetaArms :: "string \<Rightarrow> string \<Rightarrow> string \<Rightarrow> int \<Rightarrow> string \<Rightarrow> metaArm" where
  "classifyMetaArms filePath fileUUID fileMtime fileSize dirPath =
     (let fileSubstantive = (filePath \<noteq> [] \<or> fileMtime \<noteq> [] \<or> fileSize \<noteq> 0);
          fileArm = (fileSubstantive \<or> fileUUID \<noteq> []);
          dirArm = (dirPath \<noteq> []) in
      if dirArm \<and> \<not> fileSubstantive then metaArmDirectory
      else if fileArm then metaArmFile
      else metaArmAbsent)"

definition classifyReadMetadata :: "ReadMetadataResponse \<Rightarrow> metaArm" where
  "classifyReadMetadata resp =
     classifyMetaArms (f_Path (m_File resp)) (f_UUID (m_File resp)) (f_Mtime (m_File resp))
       (f_Size (m_File resp)) (d_Path (m_Directory resp))"

definition objectFromFile :: "time_Parse \<Rightarrow> 'w Fs \<Rightarrow> string \<Rightarrow> FilesystemFile \<Rightarrow> Object" where
  "objectFromFile tp f remote ff =
     \<lparr>o_fs = fs_addr f, o_remote = remote, o_path = cleanPath (ff_Path ff), o_uuid = ff_UUID ff,
      o_size = ff_Size ff, o_mtime = parseMtime tp (ff_Mtime ff), o_mode = ff_Mode ff,
      o_sha = ff_SHA ff, o_mime = ff_MIME ff\<rparr>"

subsection \<open>Methods\<close>

definition list_yield :: "time_Parse \<Rightarrow> 'w Fs \<Rightarrow> string \<Rightarrow> string \<Rightarrow> (dir_entry list) yield" where
  "list_yield tp f dir dirPath entry entries =
     (case immediateChildRemote f dir dirPath entry of
        None \<Rightarrow> (None, entries)
      | Some remote \<Rightarrow>
          (case e_File entry of
             Some ff \<Rightarrow> (None, entries @ [EntryObject (objectFromFile tp f remote ff)])
           | None \<Rightarrow>
               (case e_Directory entry of
                  Some d \<Rightarrow> (None, entries @ [EntryDir remote (parseMtime tp (d_Mtime d))])
                | None \<Rightarrow> (None, entries))))"

definition List :: "time_Parse \<Rightarrow> 'w Fs \<Rightarrow> string \<Rightarrow> 'w \<Rightarrow> dir_entry list result \<times> 'w" where
  "List tp f dir w =
     (let dirPath = absPath f dir in
      case bc_ListDirectoryStream (fs_client f) dirPath (list_yield tp f dir dirPath) [] w of
        ((Some err, _), w') \<Rightarrow>
          if errors_is err ErrNotFound then (Inl (Sentinel Fs_ErrorDirNotFound), w')
          else (Inl (wrapf ''ocufs: List %q: %w'' [FStr dirPath] err), w')
      | ((None, entries), w') \<Rightarrow> (Inr entries, w'))"

definition NewObject :: "time_Parse \<Rightarrow> 'w Fs \<Rightarrow> string \<Rightarrow> 'w \<Rightarrow> Object result \<times> 'w" where
  "NewObject tp f remote w =
     (let p = absPath f remote in
      case bc_ReadMetadata (fs_client f) p w of
        (Inl err, w') \<Rightarrow>
          if errors_is err ErrNotFound then (Inl (Sentinel Fs_ErrorObjectNotFound), w')
          else (Inl (wrapf ''ocufs: NewObject %q: %w'' [FStr p] err), w')
      | (Inr resp, w') \<Rightarrow>
          (case classifyReadMetadata resp of
             metaArmFile \<Rightarrow>
               (Inr \<lparr>o_fs = fs_addr f, o_remote = remote, o_path = p, o_uuid = f_UUID (m_File resp),
                     o_size = f_Size (m_File resp), o_mtime = parseMtime tp (f_Mtime (m_File resp)),
                     o_mode = f_Mode (m_File resp), o_sha = f_SHA (m_File resp),
                     o_mime = f_MIME (m_File resp)\<rparr>, w')
           | metaArmDirectory \<Rightarrow> (Inl (Sentinel Fs_ErrorIsDir), w')
           | metaArmAbsent \<Rightarrow> (Inl (Sentinel Fs_ErrorObjectNotFound), w')))"

text \<open>An object built on an acknowledgement alone: no uuid yet.\<close>

definition ack_object :: "'w Fs \<Rightarrow> string \<Rightarrow> string \<Rightarrow> int \<Rightarrow> Object" where
  "ack_object f p remote sz =
     \<lparr>o_fs = fs_addr f, o_remote = remote, o_path = p, o_uuid = [], o_size = sz, o_mtime = None,
      o_mode = [], o_sha = [], o_mime = []\<rparr>"

text \<open>The source of an upload: its remote and its size.\<close>

record ObjectInfo =
  src_Remote :: string
  src_Size :: int

definition Put :: "'w Fs \<Rightarrow> body \<Rightarrow> ObjectInfo \<Rightarrow> 'w \<Rightarrow> Object result \<times> 'w" where
  "Put f inp sr w =
     (if fs_readOnly f then (Inl (Sentinel Fs_ErrorPermissionDenied), w)
      else
        (let dstPath = absPath f (src_Remote sr) in
         case bc_Upload (fs_client f) dstPath inp (src_Size sr) True w of
           (Some err, w') \<Rightarrow> (Inl (wrap_mapped ''ocufs: Put %q: %w'' [FStr dstPath] err), w')
         | (None, w') \<Rightarrow> (Inr (ack_object f dstPath (src_Remote sr) (src_Size sr)), w')))"

definition Mkdir :: "'w Fs \<Rightarrow> string \<Rightarrow> 'w \<Rightarrow> gerror option \<times> 'w" where
  "Mkdir f dir w =
     (if fs_readOnly f then (Some (Sentinel Fs_ErrorPermissionDenied), w)
      else
        (let p = absPath f dir in
         case bc_MakeDirectory (fs_client f) p w of
           (Inl err, w') \<Rightarrow>
             if errors_is err ErrAlreadyExists then (None, w')
             else (Some (wrap_mapped ''ocufs: Mkdir %q: %w'' [FStr p] err), w')
         | (Inr _, w') \<Rightarrow> (None, w')))"

definition Rmdir :: "'w Fs \<Rightarrow> string \<Rightarrow> 'w \<Rightarrow> gerror option \<times> 'w" where
  "Rmdir f dir w =
     (if fs_readOnly f then (Some (Sentinel Fs_ErrorPermissionDenied), w)
      else
        (let p = absPath f dir in
         case bc_RemoveDirectory (fs_client f) p w of
           (Inl err, w') \<Rightarrow> (Some (wrap_mapped ''ocufs: Rmdir %q: %w'' [FStr p] err), w')
         | (Inr _, w') \<Rightarrow> (None, w')))"

subsection \<open>Outbound paths and the depth-1 filter\<close>

lemma canonical_cleanPath [simp]: "canonical (cleanPath p)"
  by (simp add: cleanPath_def)

lemma canonical_absPath [simp]: "canonical (absPath f rel)"
  by (simp add: absPath_def Let_def)

definition entry_path :: "ListDirEntry \<Rightarrow> string option" where
  "entry_path entry =
     (case e_File entry of
        Some ff \<Rightarrow> Some (ff_Path ff)
      | None \<Rightarrow> (case e_Directory entry of Some d \<Rightarrow> Some (d_Path d) | None \<Rightarrow> None))"

text \<open>The specification of the filter on segments: one segment below the directory.\<close>

definition child_remote :: "'w Fs \<Rightarrow> string \<Rightarrow> string list \<Rightarrow> ListDirEntry \<Rightarrow> string option" where
  "child_remote f dir ps entry =
     (case entry_path entry of
        None \<Rightarrow> None
      | Some ep \<Rightarrow>
          (let segs = path_segs (cleanPath ep) in
           if segs \<noteq> [] \<and> butlast segs = ps then
             (let name = ToStandardPath (fs_enc f) (last segs) in
              Some (if dir = [] then name else Join [dir, name]))
           else None))"

lemma prefix_test_iff:
  assumes "list_all good_seg ps" "list_all good_seg ts"
  shows "slash_path ts = slash_path ps \<or>
      (\<not> HasPrefix (slash_path ts) (slash_path ps @ ''/'') \<and>
        (slash_path ps \<noteq> ''/'' \<or> 0 < count_list (TrimPrefix (slash_path ts) ''/'') slash)) \<or>
      slash \<in> set (TrimPrefix (TrimPrefix (slash_path ts) (slash_path ps)) ''/'') \<longleftrightarrow>
    \<not> (ts \<noteq> [] \<and> butlast ts = ps)"
proof (cases "ps = []")
  case True
  have c: "0 < count_list (join_slash ts) slash \<longleftrightarrow> 2 \<le> length ts"
    using slash_in_join[OF assms(2)] count_list_0_iff[of "join_slash ts" slash] by linarith
  have b: "butlast ts = [] \<longleftrightarrow> length ts \<le> 1" by (cases ts) auto
  have n: "\<not> HasPrefix (slash_path ts) (slash_path [] @ ''/'')"
    using HasPrefix_root_child[OF assms(2)] by (simp add: slash_path_def)
  have t: "TrimPrefix (TrimPrefix (slash_path ts) (slash_path [])) ''/'' = join_slash ts"
    using TrimPrefix_child[of "[]" ts] assms(2) by (cases "ts = []") (auto simp: TrimPrefix_def HasPrefix_def slash_path_def)
  have e: "slash_path ts = slash_path [] \<longleftrightarrow> ts = []" using assms(2) by (simp add: slash_path_inj)
  show ?thesis
    unfolding True e t TrimPrefix_root slash_in_join[OF assms(2)] c b
    using n by (auto simp: slash_path_def)
next
  case False
  have root: "slash_path ps \<noteq> ''/''"
    using False join_slash_ne[OF assms(1)] by (simp add: slash_path_def)
  show ?thesis
  proof (cases "\<exists>us. us \<noteq> [] \<and> ts = ps @ us")
    case True
    then obtain us where us: "us \<noteq> []" "ts = ps @ us" by blast
    then have g: "list_all good_seg us" using assms(2) by simp
    have "slash \<in> set (TrimPrefix (TrimPrefix (slash_path ts) (slash_path ps)) ''/'') \<longleftrightarrow> 2 \<le> length us"
      using TrimPrefix_child[OF assms(1) g us(1)] slash_in_join[OF g] by (simp add: us(2))
    moreover have "butlast ts = ps \<longleftrightarrow> \<not> 2 \<le> length us"
      using us by (cases us) (auto simp: butlast_append Suc_le_eq)
    moreover have "HasPrefix (slash_path ts) (slash_path ps @ ''/'')"
      using HasPrefix_child_iff[OF assms False] True by blast
    moreover have "slash_path ts \<noteq> slash_path ps" using us assms by (simp add: slash_path_inj)
    ultimately show ?thesis using us(1,2) by blast
  next
    case False': False
    then have "\<not> HasPrefix (slash_path ts) (slash_path ps @ ''/'')"
      using HasPrefix_child_iff[OF assms False] by blast
    moreover have "\<not> (ts \<noteq> [] \<and> butlast ts = ps)"
      using False' by (metis append_butlast_last_id list.distinct(1))
    ultimately show ?thesis using root by blast
  qed
qed

lemma immediateChildRemote_spec:
  assumes "list_all good_seg ps"
  shows "immediateChildRemote f dir (slash_path ps) entry = child_remote f dir ps entry"
proof (cases "entry_path entry")
  case None
  then show ?thesis
    by (auto simp: immediateChildRemote_def child_remote_def entry_path_def split: option.splits)
next
  case (Some ep)
  obtain ts where ts: "list_all good_seg ts" "cleanPath ep = slash_path ts"
    using Clean_rooted_segs[of ep] by (auto simp: cleanPath_def)
  let ?rel = "TrimPrefix (TrimPrefix (slash_path ts) (slash_path ps)) ''/''"
  have unf: "immediateChildRemote f dir (slash_path ps) entry =
      (if slash_path ts = slash_path ps \<or>
          (\<not> HasPrefix (slash_path ts) (slash_path ps @ ''/'') \<and>
            (slash_path ps \<noteq> ''/'' \<or> 0 < count_list (TrimPrefix (slash_path ts) ''/'') slash)) \<or>
          slash \<in> set ?rel
       then None
       else Some (if dir = [] then ToStandardPath (fs_enc f) ?rel
                  else Join [dir, ToStandardPath (fs_enc f) ?rel]))"
    using Some by (auto simp: immediateChildRemote_def entry_path_def ts(2) Let_def split: option.splits)
  have rel: "?rel = last ts" if "ts \<noteq> []" "butlast ts = ps"
  proof -
    have "ts = ps @ [last ts]" using that by (metis append_butlast_last_id)
    moreover have "good_seg (last ts)" using that ts(1) by (simp add: list_all_iff)
    ultimately show ?thesis using TrimPrefix_child[OF assms, of "[last ts]"] by simp
  qed
  show ?thesis
    unfolding unf prefix_test_iff[OF assms ts(1)]
    using Some ts rel by (auto simp: child_remote_def Let_def)
qed

subsection \<open>Listing through the client contract\<close>

text \<open>The directory entry a listing entry becomes, if it is an immediate child.\<close>

definition child_entry :: "time_Parse \<Rightarrow> 'w Fs \<Rightarrow> string \<Rightarrow> ListDirEntry \<Rightarrow> dir_entry list" where
  "child_entry tp f dir entry =
     (case child_remote f dir (path_segs (absPath f dir)) entry of
        None \<Rightarrow> []
      | Some remote \<Rightarrow>
          (case e_File entry of
             Some ff \<Rightarrow> [EntryObject (objectFromFile tp f remote ff)]
           | None \<Rightarrow>
               (case e_Directory entry of
                  Some d \<Rightarrow> [EntryDir remote (parseMtime tp (d_Mtime d))]
                | None \<Rightarrow> [])))"

lemma list_yield_pure:
  "list_yield tp f dir (absPath f dir) = (\<lambda>e es. (None, es @ child_entry tp f dir e))"
proof (intro ext)
  fix e es
  obtain ps where ps: "list_all good_seg ps" "absPath f dir = slash_path ps" "path_segs (absPath f dir) = ps"
    using canonical_absPath by (rule canonicalE)
  show "list_yield tp f dir (absPath f dir) e es = (None, es @ child_entry tp f dir e)"
    unfolding list_yield_def child_entry_def ps(3) unfolding ps(2) immediateChildRemote_spec[OF ps(1)]
    by (auto split: option.splits)
qed

text \<open>A file system over any client that keeps the contract, or its reading half.\<close>

locale fs_reader = broker_reads "fs_client f" evolves
  for f :: "'w Fs" and evolves :: "'w \<Rightarrow> 'w \<Rightarrow> bool"
begin

lemma lookup_evolves:
  "evolves w (snd (List tp f dir w))"
  "evolves w (snd (NewObject tp f remote w))"
proof -
  show "evolves w (snd (List tp f dir w))"
    using evolves_reads(1)[of w "absPath f dir" "list_yield tp f dir (absPath f dir)" "[]"]
    by (auto simp: List_def Let_def split: prod.splits option.splits)
  show "evolves w (snd (NewObject tp f remote w))"
    using evolves_reads(3)[of w "absPath f remote"]
    by (auto simp: NewObject_def Let_def split: prod.splits sum.splits metaArm.splits)
qed

end

locale fs_backend = broker_client "fs_client f" evolves
  for f :: "'w Fs" and evolves :: "'w \<Rightarrow> 'w \<Rightarrow> bool"

sublocale fs_backend \<subseteq> fs_reader f evolves
  by unfold_locales

context fs_backend
begin

lemma List_ok:
  assumes "bc_ListDirectoryAll (fs_client f) (absPath f dir) w = (Inr es, w')"
  shows "List tp f dir w = (Inr (concat (map (child_entry tp f dir) es)), w')"
  using stream_ok[OF assms, of "\<lambda>e acc. acc @ child_entry tp f dir e" "[]"]
  by (simp add: List_def list_yield_pure fold_append_map)

lemma List_error:
  assumes "bc_ListDirectoryAll (fs_client f) (absPath f dir) w = (Inl err, w')"
  shows "List tp f dir w =
    (Inl (if errors_is err ErrNotFound then Sentinel Fs_ErrorDirNotFound
          else wrapf ''ocufs: List %q: %w'' [FStr (absPath f dir)] err), w')"
proof -
  obtain s' where "bc_ListDirectoryStream (fs_client f) (absPath f dir)
      (list_yield tp f dir (absPath f dir)) [] w = ((Some err, s'), w')"
    using stream_err[OF assms, of "\<lambda>e acc. acc @ child_entry tp f dir e" "[]"]
    by (auto simp: list_yield_pure)
  then show ?thesis by (simp add: List_def Let_def)
qed

lemma Fs_write_evolves:
  "evolves w (snd (Put f inp sr w))"
  "evolves w (snd (Mkdir f dir w))"
  "evolves w (snd (Rmdir f dir w))"
proof -
  show "evolves w (snd (Put f inp sr w))"
    using evolves_writes(1)[of w "absPath f (src_Remote sr)" inp "src_Size sr" True] evolves_refl[of w]
    by (auto simp: Put_def Let_def split: prod.splits option.splits)
  show "evolves w (snd (Mkdir f dir w))"
    using evolves_writes(5)[of w "absPath f dir"] evolves_refl[of w]
    by (auto simp: Mkdir_def Let_def split: prod.splits sum.splits)
  show "evolves w (snd (Rmdir f dir w))"
    using evolves_writes(6)[of w "absPath f dir"] evolves_refl[of w]
    by (auto simp: Rmdir_def Let_def split: prod.splits sum.splits)
qed

end

interpretation rpc_fs_reads: fs_reader "f\<lparr>fs_client := brokerrpc_Client pl c\<rparr>" "extends [''read''] c" for f pl c
  by (simp add: fs_reader_def rpc_reads.broker_reads_axioms)

interpretation rpc_fs: fs_backend "f\<lparr>fs_client := brokerrpc_Client pl c\<rparr>" "extends [''read'', ''write''] c"
  for f pl c
  by (simp add: fs_backend_def rpc.broker_client_axioms)

lemma NewFs_client:
  assumes "NewFs rc pl addr name rt m = Inr f"
  obtains c where "f = f\<lparr>fs_client := brokerrpc_Client pl c\<rparr>" "fs_addr f = addr" "fs_root f = rt"
  using assms by (auto simp: NewFs_def Let_def split: sum.splits if_splits)

subsection \<open>Names survive the encoding\<close>

text \<open>
  What the encoder of rclone documents: it works on each segment (\<open>e\<close> and \<open>d\<close>), keeps the
  separator, maps a proper name to a proper name, and decoding inverts encoding.
\<close>

definition encoder_laws :: "encoder \<Rightarrow> (string \<Rightarrow> string) \<Rightarrow> (string \<Rightarrow> string) \<Rightarrow> bool" where
  "encoder_laws enc e d \<longleftrightarrow>
     (\<forall>ss. list_all (\<lambda>s. slash \<notin> set s) ss \<longrightarrow> FromStandardPath enc (join_slash ss) = join_slash (map e ss)) \<and>
     (\<forall>s. slash \<notin> set s \<longrightarrow> ToStandardPath enc s = d s) \<and>
     (\<forall>s. good_seg s \<longrightarrow> good_seg (e s) \<and> d (e s) = s)"

lemma absPath_segs:
  assumes "encoder_laws (fs_enc f) e d" "fs_root f = join_slash rs"
    and "list_all good_seg rs" "list_all good_seg ss"
  shows "absPath f (join_slash ss) = slash_path (map e (rs @ ss))"
proof -
  have g: "list_all good_seg (map e (rs @ ss))"
    using assms by (auto simp: encoder_laws_def list_all_iff)
  have "FromStandardPath (fs_enc f) (join_slash (rs @ ss)) = join_slash (map e (rs @ ss))"
    using assms(1,3,4) good_seg_no_slash[of "rs @ ss"] unfolding encoder_laws_def by simp
  moreover have "(if join_slash ss \<noteq> [] then Join [fs_root f, join_slash ss] else fs_root f) =
      join_slash (rs @ ss)"
    using assms(2-4) by (cases "ss = []") (simp_all add: Join_join_slash join_slash_ne)
  ultimately have "absPath f (join_slash ss) = Clean (slash_path (map e (rs @ ss)))"
    by (simp add: absPath_def cleanPath_def slash_path_def)
  then show ?thesis using g by simp
qed

lemma child_remote_roundtrip:
  assumes L: "encoder_laws (fs_enc f) e d" and root: "fs_root f = join_slash rs"
    and g: "list_all good_seg rs" "list_all good_seg ds" "good_seg n"
    and ep: "entry_path entry = Some ep" "cleanPath ep = absPath f (join_slash (ds @ [n]))"
  shows "immediateChildRemote f (join_slash ds) (absPath f (join_slash ds)) entry = Some (join_slash (ds @ [n]))"
proof -
  have ge: "list_all good_seg (map e (rs @ ds))" "good_seg (e n)" "d (e n) = n"
    using L g by (auto simp: encoder_laws_def list_all_iff)
  have p: "cleanPath ep = slash_path (map e (rs @ ds @ [n]))"
    using absPath_segs[OF L root g(1), of "ds @ [n]"] g ep(2) by simp
  have "path_segs (cleanPath ep) = map e (rs @ ds) @ [e n]"
    unfolding p using ge by simp
  moreover have "ToStandardPath (fs_enc f) (e n) = n"
    using L ge by (auto simp: encoder_laws_def good_seg_def)
  moreover have "Join [join_slash ds, n] = join_slash (ds @ [n])"
    using Join_join_slash[of ds "[n]"] g by simp
  ultimately show ?thesis
    unfolding absPath_segs[OF L root g(1,2)] immediateChildRemote_spec[OF ge(1)]
    using ep(1) g(2) by (auto simp: child_remote_def Let_def join_slash_ne butlast_append)
qed

end
