(* ===== verification/OcuObject.thy ===== *)
theory OcuObject
  imports Ocufs
begin

text \<open>
  \<^verbatim>\<open>backend/ocufs/object.go\<close> and \<^verbatim>\<open>copymove.go\<close>: the methods of an object and the server-side
  transfers.  A method of an object takes the file system \<open>f\<close> its pointer refers to and the object,
  and returns the object as the method leaves it.  \<open>range_Decode\<close>, the decoder of a range option,
  is rclone's and a parameter.  The last section splits resolve and Update at their lock
  boundaries, and runs them interleaved.
\<close>

subsection \<open>resolve\<close>

definition install_metadata :: "time_Parse \<Rightarrow> File \<Rightarrow> Object \<Rightarrow> Object" where
  "install_metadata tp ff ob =
     ob\<lparr>o_uuid := f_UUID ff, o_size := f_Size ff, o_mtime := parseMtime tp (f_Mtime ff),
        o_mode := f_Mode ff, o_sha := f_SHA ff, o_mime := f_MIME ff\<rparr>"

definition resolve :: "time_Parse \<Rightarrow> 'w Fs \<Rightarrow> Object \<Rightarrow> 'w \<Rightarrow> (gerror option \<times> Object) \<times> 'w" where
  "resolve tp f ob w =
     (if o_uuid ob \<noteq> [] then ((None, ob), w)
      else
        (case bc_ReadMetadata (fs_client f) (o_path ob) w of
           (Inl err, w') \<Rightarrow>
             if errors_is err ErrNotFound then ((Some (Sentinel Fs_ErrorObjectNotFound), ob), w')
             else ((Some (wrapf ''ocufs: resolve %q: %w'' [FStr (o_path ob)] err), ob), w')
         | (Inr resp, w') \<Rightarrow>
             (case classifyReadMetadata resp of
                metaArmDirectory \<Rightarrow> ((Some (Sentinel Fs_ErrorIsDir), ob), w')
              | metaArmAbsent \<Rightarrow> ((Some (Sentinel Fs_ErrorObjectNotFound), ob), w')
              | metaArmFile \<Rightarrow> ((None, install_metadata tp (m_File resp) ob), w'))))"

subsection \<open>Attributes\<close>

definition ModTime :: "time_Parse \<Rightarrow> 'w Fs \<Rightarrow> Object \<Rightarrow> 'w \<Rightarrow> (Time \<times> Object) \<times> 'w" where
  "ModTime tp f ob w =
     (if o_uuid ob = [] then
        (case resolve tp f ob w of ((_, ob'), w') \<Rightarrow> ((o_mtime ob', ob'), w'))
      else ((o_mtime ob, ob), w))"

definition Size :: "time_Parse \<Rightarrow> 'w Fs \<Rightarrow> Object \<Rightarrow> 'w \<Rightarrow> (int \<times> Object) \<times> 'w" where
  "Size tp f ob w =
     (if o_uuid ob = [] \<and> o_size ob = 0 then
        (case resolve tp f ob w of ((_, ob'), w') \<Rightarrow> ((o_size ob', ob'), w'))
      else ((o_size ob, ob), w))"

definition Hash :: "Object \<Rightarrow> string result" where
  "Hash ob = Inl (Sentinel Hash_ErrUnsupported)"

definition MimeType :: "time_Parse \<Rightarrow> 'w Fs \<Rightarrow> Object \<Rightarrow> 'w \<Rightarrow> (string \<times> Object) \<times> 'w" where
  "MimeType tp f ob w =
     (if o_uuid ob = [] \<and> o_mime ob = [] then
        (case resolve tp f ob w of ((_, ob'), w') \<Rightarrow> ((o_mime ob', ob'), w'))
      else ((o_mime ob, ob), w))"

subsection \<open>Mutating methods\<close>

definition SetModTime :: "'w Fs \<Rightarrow> Object \<Rightarrow> 'w \<Rightarrow> gerror option \<times> 'w" where
  "SetModTime f ob w =
     (if fs_readOnly f then (Some (Sentinel Fs_ErrorPermissionDenied), w)
      else (Some (Sentinel Fs_ErrorCantSetModTime), w))"

definition Update :: "'w Fs \<Rightarrow> Object \<Rightarrow> body \<Rightarrow> ObjectInfo \<Rightarrow> 'w \<Rightarrow> (gerror option \<times> Object) \<times> 'w" where
  "Update f ob inp sr w =
     (if fs_readOnly f then ((Some (Sentinel Fs_ErrorPermissionDenied), ob), w)
      else
        (case bc_Upload (fs_client f) (o_path ob) inp (src_Size sr) True w of
           (Some err, w') \<Rightarrow>
             ((Some (wrap_mapped ''ocufs: Update %q: %w'' [FStr (o_path ob)] err), ob), w')
         | (None, w') \<Rightarrow> ((None, ob\<lparr>o_uuid := [], o_size := src_Size sr\<rparr>), w')))"

definition Remove :: "'w Fs \<Rightarrow> Object \<Rightarrow> 'w \<Rightarrow> gerror option \<times> 'w" where
  "Remove f ob w =
     (if fs_readOnly f then (Some (Sentinel Fs_ErrorPermissionDenied), w)
      else
        (case bc_RemoveFile (fs_client f) (o_path ob) w of
           (Inl err, w') \<Rightarrow> (Some (wrap_mapped ''ocufs: Remove %q: %w'' [FStr (o_path ob)] err), w')
         | (Inr _, w') \<Rightarrow> (None, w')))"

subsection \<open>Open\<close>

datatype OpenOption =
    SeekOption int
  | RangeOption int int
  | OtherOption string bool

type_synonym range_Decode = "int \<Rightarrow> int \<Rightarrow> int \<Rightarrow> int \<times> int"

text \<open>From an offset to the end of a file of \<open>size\<close> bytes; the subtraction is on int64.\<close>

definition to_end :: "int \<Rightarrow> int \<Rightarrow> int" where
  "to_end sz offset = (let len = wrap64 (sz - offset) in if len < 0 then 0 else len)"

text \<open>The window the options ask for: the last seek or range option wins; \<open>None\<close> is a full read.\<close>

fun open_window ::
  "range_Decode \<Rightarrow> int \<Rightarrow> OpenOption list \<Rightarrow> (int \<times> int) option \<Rightarrow> (int \<times> int) option result" where
  "open_window dec sz [] win = Inr win"
| "open_window dec sz (SeekOption off # opts) win =
     open_window dec sz opts (Some (off, to_end sz off))"
| "open_window dec sz (RangeOption start end_incl # opts) win =
     (case dec start end_incl sz of (off, limit) \<Rightarrow>
        open_window dec sz opts (Some (off, if limit = - 1 then to_end sz off else limit)))"
| "open_window dec sz (OtherOption ty mandatory # opts) win =
     (if mandatory then Inl (msgf ''ocufs: Open: unsupported mandatory option %T'' [FStr ty])
      else open_window dec sz opts win)"

definition Open ::
  "time_Parse \<Rightarrow> range_Decode \<Rightarrow> 'w Fs \<Rightarrow> Object \<Rightarrow> OpenOption list \<Rightarrow> 'w \<Rightarrow> (reader result \<times> Object) \<times> 'w" where
  "Open tp dec f ob opts w =
     (case resolve tp f ob w of
        ((Some err, ob'), w') \<Rightarrow> ((Inl err, ob'), w')
      | ((None, ob'), w') \<Rightarrow>
          if o_uuid ob' = [] then
            ((Inl (msgf ''ocufs: Open %q: resolved metadata carries no uuid handle'' [FStr (o_path ob')]),
              ob'), w')
          else
            (case open_window dec (o_size ob') opts None of
               Inl err \<Rightarrow> ((Inl err, ob'), w')
             | Inr None \<Rightarrow>
                 (case bc_Download (fs_client f) (o_uuid ob') w' of (r, w'') \<Rightarrow> ((r, ob'), w''))
             | Inr (Some (off, len)) \<Rightarrow>
                 (case bc_DownloadRange (fs_client f) (o_uuid ob') off len w' of
                    (r, w'') \<Rightarrow> ((r, ob'), w''))))"

subsection \<open>The bytes a window covers\<close>

text \<open>What rclone documents of decoding a range option against a size.\<close>

definition decode_laws :: "range_Decode \<Rightarrow> bool" where
  "decode_laws dec \<longleftrightarrow>
     (\<forall>start end_incl sz. dec start end_incl sz =
        (if 0 \<le> start then (start, if 0 \<le> end_incl then end_incl - start + 1 else - 1)
         else (if 0 \<le> end_incl then sz - end_incl else 0, - 1)))"

text \<open>The bytes an option asks for: from an offset, an inclusive range, a suffix, everything.\<close>

fun option_bytes :: "OpenOption \<Rightarrow> bytes \<Rightarrow> bytes" where
  "option_bytes (SeekOption off) data = drop (nat off) data"
| "option_bytes (RangeOption start end_incl) data =
     (if 0 \<le> start then
        (if 0 \<le> end_incl then take (nat (end_incl + 1) - nat start) (drop (nat start) data)
         else drop (nat start) data)
      else if 0 \<le> end_incl then drop (length data - nat end_incl) data
      else data)"
| "option_bytes (OtherOption ty mandatory) data = data"

fun option_ok :: "OpenOption \<Rightarrow> nat \<Rightarrow> bool" where
  "option_ok (SeekOption off) n \<longleftrightarrow> 0 \<le> off \<and> is_int64 off"
| "option_ok (RangeOption start end_incl) n \<longleftrightarrow>
     is_int64 start \<and> is_int64 end_incl \<and>
     (0 \<le> start \<and> 0 \<le> end_incl \<longrightarrow> start \<le> end_incl) \<and> (start < 0 \<longrightarrow> end_incl \<le> int n)"
| "option_ok (OtherOption ty mandatory) n \<longleftrightarrow> False"

text \<open>A range whose end is the largest int64 has a length that does not fit in one.\<close>

fun option_small :: "OpenOption \<Rightarrow> bool" where
  "option_small (RangeOption start end_incl) \<longleftrightarrow> end_incl < 2 ^ 63 - 1"
| "option_small opt \<longleftrightarrow> True"

lemma to_end_window:
  assumes "0 \<le> off" "is_int64 off" "is_int64 (int (length data))" "drop (nat off) data = out"
  shows "0 \<le> to_end (int (length data)) off \<and> take (nat (to_end (int (length data)) off)) (drop (nat off) data) = out \<and>
    off < 2 ^ 63 \<and> to_end (int (length data)) off < 2 ^ 63 \<and>
    min off (int (length data)) + to_end (int (length data)) off < 2 ^ 63"
proof -
  have "is_int64 (int (length data) - off)" using assms(1-3) by (simp add: is_int64_def)
  then have e: "to_end (int (length data)) off = max 0 (int (length data) - off)"
    by (simp add: to_end_def wrap64_id)
  have "length (drop (nat off) data) \<le> nat (to_end (int (length data)) off)"
    unfolding e using assms(1) by simp
  moreover have "max 0 (int (length data) - off) < 2 ^ 63" "min off (int (length data)) + max 0 (int (length data) - off) < 2 ^ 63"
    using assms(1,3) unfolding is_int64_def by linarith+
  ultimately show ?thesis using assms(2,4) unfolding e is_int64_def by simp
qed

lemma option_window:
  assumes "decode_laws dec" "option_ok opt (length data)" "is_int64 (int (length data))"
  shows "\<exists>off len. open_window dec (int (length data)) [opt] None = Inr (Some (off, len)) \<and>
    0 \<le> off \<and> 0 \<le> len \<and> take (nat len) (drop (nat off) data) = option_bytes opt data \<and>
    (option_small opt \<longrightarrow> off < 2 ^ 63 \<and> len < 2 ^ 63 \<and> min off (int (length data)) + len < 2 ^ 63)"
proof (cases opt)
  case (SeekOption off)
  then show ?thesis using to_end_window[of off data] assms by simp
next
  case (RangeOption s e)
  show ?thesis
  proof (cases "0 \<le> s \<and> 0 \<le> e")
    case True
    then have n: "nat (e - s + 1) = nat (e + 1) - nat s" by linarith
    have "s \<le> e" "s < 2 ^ 63" using RangeOption assms(2) True by (auto simp: is_int64_def)
    then show ?thesis using True RangeOption assms(1) n
      by (intro exI[of _ s] exI[of _ "e - s + 1"]) (auto simp: decode_laws_def)
  next
    case False
    let ?off = "if 0 \<le> s then s else if 0 \<le> e then int (length data) - e else 0"
    have w: "open_window dec (int (length data)) [opt] None = Inr (Some (?off, to_end (int (length data)) ?off))"
      using False RangeOption assms(1) by (auto simp: decode_laws_def)
    have off: "0 \<le> ?off" "is_int64 ?off"
      using RangeOption assms(2,3) by (auto simp: is_int64_def)
    have "drop (nat ?off) data = option_bytes opt data"
      using False RangeOption assms(2) by (auto simp: nat_diff_distrib)
    then show ?thesis using w to_end_window[OF off assms(3)] off(1) by blast
  qed
qed (use assms(2) in simp)

subsection \<open>Copy, Move, DirMove\<close>

text \<open>The source of a transfer: an object of this backend, or one of another backend.\<close>

datatype src_object = OcufsObject Object | ForeignObject

datatype src_fs = OcufsFs nat | ForeignFs

definition transferFile ::
  "time_Parse \<Rightarrow> 'w Fs \<Rightarrow> src_object \<Rightarrow> string \<Rightarrow> string \<Rightarrow> gerror \<Rightarrow>
   (string \<Rightarrow> string \<Rightarrow> 'w \<Rightarrow> unit result \<times> 'w) \<Rightarrow> 'w \<Rightarrow> (Object result \<times> src_object) \<times> 'w" where
  "transferFile tp f sr dstRemote opName cantSentinel call_op w =
     (if fs_readOnly f then ((Inl (Sentinel Fs_ErrorPermissionDenied), sr), w)
      else
        (case sr of
           ForeignObject \<Rightarrow> ((Inl cantSentinel, sr), w)
         | OcufsObject srcObj \<Rightarrow>
             if o_fs srcObj \<noteq> fs_addr f then ((Inl cantSentinel, sr), w)
             else
               (let srcPath = o_path srcObj; dstPath = absPath f dstRemote in
                case call_op srcPath dstPath w of
                  (Inl err, w') \<Rightarrow>
                    ((Inl (wrap_mapped ''ocufs: %s %q -> %q: %w''
                             [FStr opName, FStr srcPath, FStr dstPath] err), sr), w')
                | (Inr _, w') \<Rightarrow>
                    (case Size tp f srcObj w' of
                       ((sz, srcObj'), w'') \<Rightarrow>
                         ((Inr (ack_object f dstPath dstRemote sz), OcufsObject srcObj'), w'')))))"

definition Copy ::
  "time_Parse \<Rightarrow> 'w Fs \<Rightarrow> src_object \<Rightarrow> string \<Rightarrow> 'w \<Rightarrow> (Object result \<times> src_object) \<times> 'w" where
  "Copy tp f sr dstRemote w =
     transferFile tp f sr dstRemote ''Copy'' (Sentinel Fs_ErrorCantCopy) (bc_CopyFile (fs_client f)) w"

definition Move ::
  "time_Parse \<Rightarrow> 'w Fs \<Rightarrow> src_object \<Rightarrow> string \<Rightarrow> 'w \<Rightarrow> (Object result \<times> src_object) \<times> 'w" where
  "Move tp f sr dstRemote w =
     transferFile tp f sr dstRemote ''Move'' (Sentinel Fs_ErrorCantMove) (bc_MoveFile (fs_client f)) w"

definition DirMove :: "'w Fs \<Rightarrow> src_fs \<Rightarrow> string \<Rightarrow> string \<Rightarrow> 'w \<Rightarrow> gerror option \<times> 'w" where
  "DirMove f srcFs srcRemote dstRemote w =
     (if fs_readOnly f then (Some (Sentinel Fs_ErrorPermissionDenied), w)
      else if srcFs \<noteq> OcufsFs (fs_addr f) then (Some (Sentinel Fs_ErrorCantDirMove), w)
      else
        (let srcPath = absPath f srcRemote; dstPath = absPath f dstRemote in
         case bc_MoveDirectory (fs_client f) srcPath dstPath w of
           (Inl err, w') \<Rightarrow>
             (Some (wrap_mapped ''ocufs: DirMove %q -> %q: %w'' [FStr srcPath, FStr dstPath] err), w')
         | (Inr _, w') \<Rightarrow> (None, w')))"

subsection \<open>What the methods do to the state behind the client\<close>

lemma resolve_cases:
  obtains "resolve tp f ob w = ((None, ob), w)" "o_uuid ob \<noteq> []"
  | err where "resolve tp f ob w = ((Some err, ob), snd (bc_ReadMetadata (fs_client f) (o_path ob) w))"
    "o_uuid ob = []"
  | resp where "bc_ReadMetadata (fs_client f) (o_path ob) w =
        (Inr resp, snd (bc_ReadMetadata (fs_client f) (o_path ob) w))"
    "classifyReadMetadata resp = metaArmFile" "o_uuid ob = []"
    "resolve tp f ob w = ((None, install_metadata tp (m_File resp) ob),
        snd (bc_ReadMetadata (fs_client f) (o_path ob) w))"
proof (cases "o_uuid ob = []")
  case True
  obtain r w' where rm: "bc_ReadMetadata (fs_client f) (o_path ob) w = (r, w')" by fastforce
  show ?thesis
  proof (cases r)
    case (Inl err)
    with True rm that(2) show ?thesis by (cases "errors_is err ErrNotFound") (simp_all add: resolve_def)
  next
    case (Inr resp)
    with True rm that(2,3) show ?thesis by (cases "classifyReadMetadata resp") (simp_all add: resolve_def)
  qed
qed (use that(1) in \<open>simp add: resolve_def\<close>)

context fs_reader
begin

lemma resolve_evolves: "evolves w (snd (resolve tp f ob w))"
  by (cases rule: resolve_cases[of tp f ob w]) (simp_all add: evolves_refl evolves_reads)

lemma Size_evolves: "evolves w (snd (Size tp f ob w))"
  using resolve_evolves[of w tp ob] by (auto simp: Size_def evolves_refl split: prod.splits)

lemma attr_evolves:
  "evolves w (snd (ModTime tp f ob w))"
  "evolves w (snd (MimeType tp f ob w))"
  using resolve_evolves[of w tp ob] by (auto simp: ModTime_def MimeType_def evolves_refl split: prod.splits)

lemma Open_evolves: "evolves w (snd (Open tp dec f ob opts w))"
proof -
  obtain e ob' w' where r: "resolve tp f ob w = ((e, ob'), w')" by (metis prod.exhaust)
  have w': "evolves w w'" using resolve_evolves[of w tp ob] r by simp
  have "evolves w' (snd (bc_Download (fs_client f) (o_uuid ob') w'))"
    "evolves w' (snd (bc_DownloadRange (fs_client f) (o_uuid ob') off len w'))" for off len
    by (rule evolves_reads)+
  with w' show ?thesis
    using evolves_trans[OF w'] r
    by (auto simp: Open_def split: option.splits sum.splits prod.splits) (metis snd_conv)+
qed

end

context fs_backend
begin

lemma mutating_evolves:
  "evolves w (snd (SetModTime f ob w))"
  "evolves w (snd (Update f ob inp sr w))"
  "evolves w (snd (Remove f ob w))"
  "evolves w (snd (DirMove f srcFs srcRemote dstRemote w))"
proof -
  show "evolves w (snd (SetModTime f ob w))"
    by (simp add: SetModTime_def evolves_refl)
  show "evolves w (snd (Update f ob inp sr w))"
    using evolves_writes(1)[of w "o_path ob" inp "src_Size sr" True]
    by (auto simp: Update_def evolves_refl split: prod.splits option.splits)
  show "evolves w (snd (Remove f ob w))"
    using evolves_writes(4)[of w "o_path ob"]
    by (auto simp: Remove_def evolves_refl split: prod.splits sum.splits)
  show "evolves w (snd (DirMove f srcFs srcRemote dstRemote w))"
    using evolves_writes(7)[of w "absPath f srcRemote" "absPath f dstRemote"]
    by (auto simp: DirMove_def Let_def evolves_refl split: prod.splits sum.splits)
qed

lemma transfer_evolves:
  assumes "\<And>p q w. evolves w (snd (call_op p q w))"
  shows "evolves w (snd (transferFile tp f sr dst nm cant call_op w))"
proof (cases "\<not> fs_readOnly f \<and> (\<exists>ob. sr = OcufsObject ob \<and> o_fs ob = fs_addr f)")
  case True
  then obtain ob where ob: "sr = OcufsObject ob" "o_fs ob = fs_addr f" "\<not> fs_readOnly f" by blast
  obtain r w' where c: "call_op (o_path ob) (absPath f dst) w = (r, w')" by fastforce
  have w': "evolves w w'" using assms[of w "o_path ob" "absPath f dst"] c by simp
  show ?thesis
  proof (cases r)
    case (Inr u)
    have "snd (transferFile tp f sr dst nm cant call_op w) = snd (Size tp f ob w')"
      using ob c Inr by (simp add: transferFile_def split: prod.splits)
    then show ?thesis using evolves_trans[OF w' Size_evolves] by simp
  qed (use ob c w' in \<open>simp add: transferFile_def\<close>)
qed (auto simp: transferFile_def evolves_refl split: src_object.splits)

lemma copymove_evolves:
  "evolves w (snd (Copy tp f sr dst w))"
  "evolves w (snd (Move tp f sr dst w))"
  unfolding Copy_def Move_def by (rule transfer_evolves, rule evolves_writes)+

text \<open>A reader opened on a window never holds more than the window.\<close>

lemma Open_window_bound:
  assumes "Open tp dec f ob opts w = ((Inr rd, ob'), w')"
    and "open_window dec (o_size ob') opts None = Inr (Some (off, len))"
  shows "int (length (reader_content rd)) \<le> len"
  using assms by (auto simp: Open_def split: prod.splits option.splits sum.splits if_splits dest: range_bound)

text \<open>A window past the end is answered without a call.\<close>

lemma Open_empty_window:
  assumes "o_uuid ob \<noteq> []" "open_window dec (o_size ob) opts None = Inr (Some (off, 0))" "0 \<le> off"
  shows "Open tp dec f ob opts w = ((Inr NoBody, ob), w)"
  using assms range_empty[of off "o_uuid ob" w] by (simp add: Open_def resolve_def)

end

subsection \<open>resolve and Update, interleaved\<close>

text \<open>
  The mutex of an object is released around the calls to the broker: resolve tests the handle, reads
  the metadata, and installs it in three sections; Update uploads, then clears the handle in two.  A
  state is the object, the world behind the client and the program points of the two goroutines.
\<close>

datatype resolver_pc = RCheck | RFetch | RInstall File | RDone

datatype updater_pc = UUpload | UClear int | UDone

record 'w race =
  r_obj :: Object
  r_world :: 'w
  r_pc :: resolver_pc
  u_pc :: updater_pc

inductive race_step :: "time_Parse \<Rightarrow> 'w Fs \<Rightarrow> body \<Rightarrow> int \<Rightarrow> 'w race \<Rightarrow> 'w race \<Rightarrow> bool"
  for tp f inp sz where
  check_resolved: "r_pc st = RCheck \<Longrightarrow> o_uuid (r_obj st) \<noteq> [] \<Longrightarrow> race_step tp f inp sz st (st\<lparr>r_pc := RDone\<rparr>)"
| check: "r_pc st = RCheck \<Longrightarrow> o_uuid (r_obj st) = [] \<Longrightarrow> race_step tp f inp sz st (st\<lparr>r_pc := RFetch\<rparr>)"
| fetch: "r_pc st = RFetch \<Longrightarrow>
    bc_ReadMetadata (fs_client f) (o_path (r_obj st)) (r_world st) = (Inr resp, w') \<Longrightarrow>
    classifyReadMetadata resp = metaArmFile \<Longrightarrow>
    race_step tp f inp sz st (st\<lparr>r_world := w', r_pc := RInstall (m_File resp)\<rparr>)"
| fetch_no_file: "r_pc st = RFetch \<Longrightarrow>
    bc_ReadMetadata (fs_client f) (o_path (r_obj st)) (r_world st) = (Inr resp, w') \<Longrightarrow>
    classifyReadMetadata resp \<noteq> metaArmFile \<Longrightarrow>
    race_step tp f inp sz st (st\<lparr>r_world := w', r_pc := RDone\<rparr>)"
| fetch_error: "r_pc st = RFetch \<Longrightarrow>
    bc_ReadMetadata (fs_client f) (o_path (r_obj st)) (r_world st) = (Inl err, w') \<Longrightarrow>
    race_step tp f inp sz st (st\<lparr>r_world := w', r_pc := RDone\<rparr>)"
| install: "r_pc st = RInstall ff \<Longrightarrow>
    race_step tp f inp sz st (st\<lparr>r_obj := install_metadata tp ff (r_obj st), r_pc := RDone\<rparr>)"
| upload: "u_pc st = UUpload \<Longrightarrow>
    bc_Upload (fs_client f) (o_path (r_obj st)) inp sz True (r_world st) = (None, w') \<Longrightarrow>
    race_step tp f inp sz st (st\<lparr>r_world := w', u_pc := UClear sz\<rparr>)"
| upload_error: "u_pc st = UUpload \<Longrightarrow>
    bc_Upload (fs_client f) (o_path (r_obj st)) inp sz True (r_world st) = (Some err, w') \<Longrightarrow>
    race_step tp f inp sz st (st\<lparr>r_world := w', u_pc := UDone\<rparr>)"
| clear: "u_pc st = UClear n \<Longrightarrow>
    race_step tp f inp sz st (st\<lparr>r_obj := (r_obj st)\<lparr>o_uuid := [], o_size := n\<rparr>, u_pc := UDone\<rparr>)"

definition race_start :: "Object \<Rightarrow> 'w \<Rightarrow> 'w race" where
  "race_start ob w = \<lparr>r_obj = ob, r_world = w, r_pc = RCheck, u_pc = UUpload\<rparr>"

text \<open>Run one after the other, the sections are the methods.\<close>

lemma race_update_alone:
  assumes "\<not> fs_readOnly f" "src_Size sr = sz" "Update f ob inp sr w = ((None, ob'), w')"
  shows "(race_step tp f inp sz)\<^sup>*\<^sup>* (race_start ob w)
    ((race_start ob w)\<lparr>r_obj := ob', r_world := w', u_pc := UDone\<rparr>)"
proof -
  have u: "bc_Upload (fs_client f) (o_path ob) inp sz True w = (None, w')"
    and ob': "ob' = ob\<lparr>o_uuid := [], o_size := sz\<rparr>"
    using assms by (auto simp: Update_def split: prod.splits option.splits)
  let ?s0 = "race_start ob w" and ?s1 = "(race_start ob w)\<lparr>r_world := w', u_pc := UClear sz\<rparr>"
  have "race_step tp f inp sz ?s0 ?s1"
    by (rule race_step.upload) (simp_all add: race_start_def u)
  moreover have "race_step tp f inp sz ?s1 (?s1\<lparr>r_obj := ob', u_pc := UDone\<rparr>)"
    using race_step.clear[of ?s1 sz tp f inp sz] by (simp add: ob' race_start_def)
  ultimately show ?thesis
    by (simp add: race_start_def converse_rtranclp_into_rtranclp r_into_rtranclp)
qed

end
