(* ===== verification/Examples.thy ===== *)
theory Examples
  imports OcuObject
begin

text \<open>
  A small concrete world: a broker that serves one two-page listing, one file and acknowledges
  everything else, and a platform and an rclone around it.  It is what the hypotheses of the
  properties are checked against.
\<close>

definition ex_float :: float64 where
  "ex_float = \<lparr>ParseFloat = (\<lambda>s. if s = ''120'' then Some (Fin 120) else None), fmul = (\<lambda>x y. x * y)\<rparr>"

definition ex_body :: "string \<Rightarrow> body" where
  "ex_body s = \<lparr>chunks = [s], fin = EOF, eager = False\<rparr>"

definition ex_ok :: "string \<Rightarrow> http_response" where
  "ex_ok s = \<lparr>StatusCode = 200, RetryAfter = [], ContentLength = - 1, Body = ex_body s\<rparr>"

definition ex_file :: "string \<Rightarrow> json" where
  "ex_file p = JObj [(''file'', JObj [(''path'', JStr p), (''size'', JInt 6), (''uuid'', JStr ''u1'')])]"

definition ex_page1 :: json where
  "ex_page1 = JObj [(''entries'', JArr [ex_file ''/a'']), (''cursor'', JStr ''k1'')]"

definition ex_page2 :: json where
  "ex_page2 = JObj [(''entries'', JArr [ex_file ''/b'', ex_file ''/d/e''])]"

text \<open>A short written value survives the limit of the reader.\<close>

lemma ex_decode:
  assumes "json_ok j" "length (json_text j) \<le> 1000"
  shows "json_Decode (take (nat maxJSONResponseBytes) (json_text j)) = Some j"
  using json_Decode_text[OF assms(1), of "[]"] assms(2) by (simp add: maxJSONResponseBytes_def num_end_def)

lemma ex_decoded:
  "json_Decode (take (nat maxJSONResponseBytes) (json_text ex_page1)) = Some ex_page1"
  "json_Decode (take (nat maxJSONResponseBytes) (json_text ex_page2)) = Some ex_page2"
  "json_Decode (take (nat maxJSONResponseBytes) (json_text (ex_file ''/a''))) = Some (ex_file ''/a'')"
  "json_Decode (take (nat maxJSONResponseBytes) ''{}'') = Some (JObj [])"
proof -
  show "json_Decode (take (nat maxJSONResponseBytes) (json_text ex_page1)) = Some ex_page1"
    by (rule ex_decode) code_simp+
  show "json_Decode (take (nat maxJSONResponseBytes) (json_text ex_page2)) = Some ex_page2"
    by (rule ex_decode) code_simp+
  show "json_Decode (take (nat maxJSONResponseBytes) (json_text (ex_file ''/a''))) = Some (ex_file ''/a'')"
    by (rule ex_decode) code_simp+
  have "''{}'' = json_text (JObj [])" by code_simp
  then show "json_Decode (take (nat maxJSONResponseBytes) ''{}'') = Some (JObj [])"
    using ex_decode[of "JObj []"] by simp
qed

definition ex_round_trip :: "nat \<Rightarrow> wire_request \<Rightarrow> http_response result \<times> nat" where
  "ex_round_trip n q =
     (Inr (if w_url q = ''https://b/v1/filestore/fs/listDirectory'' then
             ex_ok (if json_get ''cursor'' (wire_params q) = None then json_text ex_page1 else json_text ex_page2)
           else if w_url q = ''https://b/v1/filestore/fs/readMetadata'' then ex_ok (json_text (ex_file ''/a''))
           else if w_url q = ''https://b/v1/filestore/fs/fileDownload'' then ex_ok ''abcdef''
           else ex_ok ''{}''), Suc n)"

definition ex_platform :: "nat platform" where
  "ex_platform =
     \<lparr>float_ops = ex_float,
      url_Parse = (\<lambda>_. Inr \<lparr>Scheme = ''https'', Host = ''b''\<rparr>), AppendCertsFromPEM = (\<lambda>_. True),
      sha256_Sum = (\<lambda>s. s), round_trip = ex_round_trip, pipe_accepts = (\<lambda>_ _. None)\<rparr>"

definition ex_client :: Client where
  "ex_client =
     \<lparr>c_http = \<lparr>t_RootCAs = ''pem'', t_MinVersion = 0x0303, t_ForceAttemptHTTP2 = True,
               t_MaxIdleConns = 4, t_MaxIdleConnsPerHost = 4, t_MaxConnsPerHost = 4\<rparr>,
      serviceURL = ''https://b'', fsID = ''fs'', authToken = ''tok'', messageCeiling = 262144,
      maxDownloadBytes = 17179869184, maxListPages = 65536\<rparr>"

definition ex_net :: "nat net" where
  "ex_net = \<lparr>peer = 0, sent = []\<rparr>"

definition ex_encoder :: encoder where
  "ex_encoder = \<lparr>FromStandardPath = (\<lambda>s. s), ToStandardPath = (\<lambda>s. s)\<rparr>"

definition ex_rclone :: "bool \<Rightarrow> rclone" where
  "ex_rclone ro =
     \<lparr>configstruct_Set = (\<lambda>_. Inr \<lparr>opt_ReadOnly = ro, opt_ServiceURL = ''https://b'', opt_FilesystemID = ''fs'',
          opt_AuthToken = ''tok'', opt_CACertPEM = ''pem'', opt_Enc = 0\<rparr>),
      encoder_of = (\<lambda>_. ex_encoder), EncodeCtl = 2, EncodeInvalidUtf8 = 4, EncodeBackSlash = 8,
      EncodeDoubleQuote = 16, EncodeRightSpace = 32, EncodeRightPeriod = 64\<rparr>"

definition ex_fs :: "bool \<Rightarrow> (nat net) Fs" where
  "ex_fs ro =
     \<lparr>fs_addr = 1, fs_name = ''m'', fs_root = [], fs_client = brokerrpc_Client ex_platform ex_client,
      fs_readOnly = ro, fs_enc = ex_encoder, fs_features = buildFeatures\<rparr>"

definition ex_tp :: time_Parse where
  "ex_tp layout s = None"

definition ex_dec :: range_Decode where
  "ex_dec start end_incl sz =
     (if 0 \<le> start then (start, if 0 \<le> end_incl then end_incl - start + 1 else - 1)
      else if 0 \<le> end_incl then (sz - end_incl, - 1) else (0, - 1))"

definition ex_object :: Object where
  "ex_object =
     \<lparr>o_fs = 1, o_remote = ''a'', o_path = ''/a'', o_uuid = ''u1'', o_size = 6, o_mtime = None,
      o_mode = [], o_sha = [], o_mime = []\<rparr>"

lemma ex_opURL: "opURL ex_client op = ''https://b/v1/filestore/fs/'' @ op"
  by (simp add: opURL_def ex_client_def restBase_def TrimRight_char_def)

lemma ex_fsID: "fsID ex_client = ''fs''"
  by (simp add: ex_client_def)

lemma ex_NewFs: "NewFs (ex_rclone ro) ex_platform 1 ''m'' [] (\<lambda>_. None) = Inr (ex_fs ro)"
  by (simp add: NewFs_def ex_rclone_def New_def NewWithOptions_def httpsTransport_def ex_platform_def
      ex_fs_def ex_client_def defaultMessageCeiling_def defaultMaxDownloadBytes_def defaultMaxListPages_def)

end
