(* ===== verification/Brokerrpc_Correct.thy ===== *)
theory Brokerrpc_Correct
  imports Examples
begin

text \<open>
  What the REST client (\<^verbatim>\<open>internal/brokerrpc\<close>) guarantees: the verdict on a response, the bounds
  on what it reads, the termination and completeness of a listing, the exactness of downloads and
  uploads, and the conditions of construction.
\<close>

subsection \<open>Verdicts\<close>


text \<open>
  Every back-off hint the mapper attaches lies between zero and one hour, whatever the header
  says.  Of float64 multiplication this uses that it is monotone and exact on 0 and on 3600.
\<close>

theorem retry_after_bounded:
  assumes "\<And>x y. x \<le> y \<Longrightarrow> fmul fl x 1000000000 \<le> fmul fl y 1000000000"
    and "fmul fl 0 1000000000 = 0" and "fmul fl 3600 1000000000 = 3600000000000"
    and "d \<in> set (retry_after_hints (MapHTTPStatus fl s bd ra))"
  shows "0 \<le> d \<and> d \<le> 3600000000000"
proof -
  have "retryAfterHint fl ra = Some d"
    using assms(4) unfolding hints_MapHTTPStatus
    by (cases "s = 429"; cases "retryAfterHint fl ra") simp_all
  then show ?thesis by (rule retryAfterHint_bounds[OF _ assms(1-3)])
qed

lemma ex_hint: "retry_after_hints (MapHTTPStatus ex_float 429 ''slow'' ''120'') = [120000000000]"
  by (simp add: hints_MapHTTPStatus retryAfterHint_def ex_float_def float_secs_ok_def
      maxRetryAfterSeconds_def duration_of_float_def)

theorem retry_after_bounded_witness:
  "retry_after_hints (MapHTTPStatus ex_float 429 ''slow'' ''120'') = [120000000000] \<and>
   (0::int) \<le> 120000000000 \<and> (120000000000::int) \<le> 3600000000000"
  using retry_after_bounded[of ex_float 120000000000 429 "''slow''" "''120''"] ex_hint
  by (simp add: ex_float_def)

text \<open>
  C32. The capture of an error body is the truncation of its whole content at the diagnostics
  budget, marked exactly when bytes were dropped; it never exceeds the budget plus the marker, and
  bounding it again changes nothing.
\<close>

theorem capture_bounded:
  "captureErrorBody r = boundErrorBody (body_content r) \<and>
   int (length (captureErrorBody r)) \<le> maxErrorBodyBytes + 15 \<and>
   boundErrorBody (captureErrorBody r) = captureErrorBody r"
  by (simp add: captureErrorBody_eq length_boundErrorBody boundErrorBody_idem)

text \<open>
  A unary call that the broker refuses makes exactly one request and returns the verdict of the
  status over the bounded error body: the client itself never retries.
\<close>

theorem call_refused:
  assumes "url_Parse pl (opURL c op) = Inr u" and "\<not> is_2xx (StatusCode resp)"
    and "round_trip pl (peer w) (json_post c op (marshal req)) = (Inr resp, p')"
  shows "call pl c op req dec zero w =
    (Inl (MapHTTPStatus (float_ops pl) (StatusCode resp) (boundErrorBody (body_content (Body resp)))
            (RetryAfter resp)),
     w\<lparr>peer := p', sent := sent w @ [json_post c op (marshal req)]\<rparr>)"
  using assms by (simp add: call_def http_Do_def captureErrorBody_eq del: marshal.simps)

definition ex_throttled :: "nat platform" where
  "ex_throttled = ex_platform\<lparr>round_trip :=
     (\<lambda>n q. (Inr \<lparr>StatusCode = 429, RetryAfter = ''120'', ContentLength = - 1, Body = ex_body ''slow''\<rparr>, n))\<rparr>"

theorem call_refused_witness:
  "call ex_throttled ex_client OpRemoveFile
     (RemoveFileRequest ''fs'' ''/a'' \<lparr>Intent = ''write'', Downloadable = False\<rparr>) dec_AckResponse () ex_net =
   (Inl (MapHTTPStatus ex_float 429 (boundErrorBody ''slow'') ''120''),
    ex_net\<lparr>peer := 0, sent := [json_post ex_client OpRemoveFile
      (marshal (RemoveFileRequest ''fs'' ''/a'' \<lparr>Intent = ''write'', Downloadable = False\<rparr>))]\<rparr>)"
  using call_refused[of ex_throttled ex_client OpRemoveFile _
      "\<lparr>StatusCode = 429, RetryAfter = ''120'', ContentLength = - 1, Body = ex_body ''slow''\<rparr>" ex_net
      "RemoveFileRequest ''fs'' ''/a'' \<lparr>Intent = ''write'', Downloadable = False\<rparr>" 0 dec_AckResponse "()"]
  by (simp add: ex_throttled_def ex_platform_def is_2xx_def ex_net_def ex_body_def body_content_def
      del: marshal.simps)

subsection \<open>Listing\<close>

text \<open>
  C17. A paged listing ends against any broker and with any callback: it makes at most
  \<open>maxListPages\<close> requests (one if the ceiling is not positive) and never the same request twice,
  so a cursor is never echoed twice.
\<close>

theorem listing_bounded:
  "prefix (sent w) (sent (snd (ListDirectoryStream pl c p yield s w))) \<and>
   int (length (new_requests w (snd (ListDirectoryStream pl c p yield s w)))) \<le> max 1 (maxListPages c) \<and>
   distinct (new_requests w (snd (ListDirectoryStream pl c p yield s w)))"
  by (rule ListDirectoryStream_log[of pl c p yield s w]) (simp add: new_requests_def)

text \<open>
  C18. Against a broker that pages honestly (each cursor is answered with its page, the last page
  has none, the digests of the cursors differ) and within the page ceiling, the buffering listing
  succeeds and returns the entries of all pages in order.
\<close>

theorem listing_complete:
  assumes "serves_pages pl c p I chain" "page_chain [] chain" "I (peer w)"
    and "int (length chain) \<le> maxListPages c"
    and "distinct (map (\<lambda>(k, resp). sha256_Sum pl (resp_Cursor resp)) (butlast chain))"
  shows "fst (ListDirectoryAll pl c p w) = Inr (concat (map (\<lambda>(k, resp). page_entries resp) chain))"
  using list_loop_honest[OF assms(1-3), of "newPageGuard ''ListDirectoryStream'' (maxListPages c)" "[]"] assms(4,5)
  by (auto simp: ListDirectoryAll_def ListDirectoryStream_def newPageGuard_def split: prod.splits)

definition ex_page :: "string list \<Rightarrow> string \<Rightarrow> ListDirectoryResponse" where
  "ex_page ps cur =
     \<lparr>Entries = Some (map (\<lambda>p. \<lparr>e_File = Some (zero_FilesystemFile\<lparr>ff_Path := p, ff_Size := 6, ff_UUID := ''u1''\<rparr>),
                                e_Directory = None\<rparr>) ps),
      resp_Cursor = cur\<rparr>"

definition ex_chain :: "(OpaqueCursor \<times> ListDirectoryResponse) list" where
  "ex_chain = [([], ex_page [''/a''] ''k1''), (''k1'', ex_page [''/b'', ''/d/e''] [])]"

lemma ex_pages:
  "dec_ListDirectoryResponse ex_page1 zero_ListDirectoryResponse =
     Some (ex_page [''/a''] ''k1'')"
  "dec_ListDirectoryResponse ex_page2 zero_ListDirectoryResponse =
     Some (ex_page [''/b'', ''/d/e''] [])"
  by code_simp+

lemma ex_fetch:
  "fst (fetch_page ex_platform ex_client ''fs'' ''/'' \<lparr>Intent = ''read'', Downloadable = False\<rparr> [] w) =
     Inr (ex_page [''/a''] ''k1'')"
  "fst (fetch_page ex_platform ex_client ''fs'' ''/'' \<lparr>Intent = ''read'', Downloadable = False\<rparr> ''k1'' w) =
     Inr (ex_page [''/b'', ''/d/e''] [])"
  by (simp_all add: fetch_page_def call_def http_Do_def ex_platform_def ex_round_trip_def json_post_def
      setAuthHeader_def opURL_def ex_client_def restBase_def op_defs TrimRight_char_def wire_params_def
      ex_ok_def ex_body_def is_2xx_def body_content_def ex_decoded ex_pages)

theorem listing_complete_witness:
  "fst (ListDirectoryAll ex_platform ex_client ''/'' ex_net) =
     Inr (page_entries (ex_page [''/a''] ''k1'') @ page_entries (ex_page [''/b'', ''/d/e''] []))"
proof -
  have "serves_pages ex_platform ex_client ''/'' (\<lambda>_. True) ex_chain"
    using ex_fetch by (auto simp: serves_pages_def ex_chain_def ex_client_def split: prod.splits)
       (metis fst_conv)+
  moreover have "page_chain [] ex_chain" "int (length ex_chain) \<le> maxListPages ex_client"
    "distinct (map (\<lambda>(k, resp). sha256_Sum ex_platform (resp_Cursor resp)) (butlast ex_chain))"
    by (simp_all add: ex_chain_def ex_page_def ex_client_def)
  ultimately have "fst (ListDirectoryAll ex_platform ex_client ''/'' ex_net) =
      Inr (concat (map (\<lambda>(k, resp). page_entries resp) ex_chain))"
    using listing_complete[of ex_platform ex_client "''/''" "\<lambda>_. True" ex_chain ex_net] by blast
  then show ?thesis by (simp add: ex_chain_def)
qed

text \<open>
  The streaming listing and the buffering one agree: a callback that never fails ends in the
  state that folding it over the buffered entries gives, and fails with the same error.
\<close>

theorem stream_agrees:
  "case ListDirectoryAll pl c p w of
     (Inr es, w') \<Rightarrow> ListDirectoryStream pl c p (\<lambda>e s. (None, f e s)) s w = ((None, fold f es s), w')
   | (Inl err, w') \<Rightarrow> (\<exists>s'. ListDirectoryStream pl c p (\<lambda>e s. (None, f e s)) s w = ((Some err, s'), w'))"
  using ListDirectoryStream_All[of pl c p f s w] by (auto split: prod.splits sum.splits)

subsection \<open>Downloads\<close>

text \<open>
  C19. Reading a download to its end, with reads of any size, terminates and yields exactly the
  response body when it fits the cap, with the error the body ends in; when the broker delivers
  more, it yields the first cap bytes and then the over-delivery error, never a clean end.
\<close>

theorem download_delivery:
  assumes "Download pl c uuid w = (Inr rd, w')" and "0 < k"
  shows "\<exists>resp p'. round_trip pl (peer w) (json_post c OpFileDownload
      (marshal (FileDownloadRequest (fsID c) uuid None \<lparr>Intent = ''read'', Downloadable = False\<rparr>))) =
        (Inr resp, p') \<and>
    drain reader_Read k rd [] =
      Some (take (nat (maxDownloadBytes c)) (body_content (Body resp)),
            if int (length (body_content (Body resp))) \<le> max 0 (maxDownloadBytes c) then fin (Body resp)
            else msgf ''brokerrpc: fileDownload: response exceeds %d bytes'' [FInt (maxDownloadBytes c)])"
proof -
  have "doDownload pl c (fsID c) uuid \<lparr>Intent = ''read'', Downloadable = False\<rparr> None
      (maxDownloadBytes c) w = (Inr rd, w')"
    using assms(1) by (simp add: Download_def)
  then obtain resp p' where "round_trip pl (peer w) (json_post c OpFileDownload
      (marshal (FileDownloadRequest (fsID c) uuid None \<lparr>Intent = ''read'', Downloadable = False\<rparr>))) =
        (Inr resp, p')" "rd = Bounded (newBoundedBody (Body resp) False (maxDownloadBytes c))"
    by (elim doDownload_reader) (simp del: marshal.simps)
  then show ?thesis
    using bounded_drain[OF assms(2), of "Body resp" False "maxDownloadBytes c"]
    by (auto simp: overCapErr_def newBoundedBody_def simp del: marshal.simps)
qed

lemma ex_Download:
  "fst (Download ex_platform ex_client ''u1'' ex_net) =
     Inr (Bounded (newBoundedBody (ex_body ''abcdef'') False 17179869184))"
  by (simp add: Download_def doDownload_def http_Do_def ex_platform_def ex_round_trip_def
      json_post_def setAuthHeader_def opURL_def ex_client_def restBase_def op_defs TrimRight_char_def
      wire_params_def ex_ok_def is_2xx_def stamp_known[unfolded op_defs])

theorem download_delivery_witness:
  "drain reader_Read 2 (Bounded (newBoundedBody (ex_body ''abcdef'') False 17179869184)) [] =
     Some (''abcdef'', EOF)"
proof -
  have "Download ex_platform ex_client ''u1'' ex_net =
      (Inr (Bounded (newBoundedBody (ex_body ''abcdef'') False 17179869184)),
       snd (Download ex_platform ex_client ''u1'' ex_net))"
    using ex_Download by (metis prod.collapse)
  from download_delivery[OF this, of 2] show ?thesis
    by (auto simp: ex_platform_def ex_round_trip_def json_post_def setAuthHeader_def opURL_def
        ex_client_def restBase_def op_defs TrimRight_char_def wire_params_def ex_ok_def ex_body_def
        body_content_def)
qed

text \<open>
  A ranged download answers an empty window with the empty stream and refuses a negative one,
  both without a request; any reader it hands out over a window holds at most the bytes of the
  window.
\<close>

theorem range_window:
  "case DownloadRange pl c uuid offset len w of
     (Inr rd, w') \<Rightarrow> 0 \<le> offset \<and> 0 \<le> len \<and> int (length (reader_content rd)) \<le> len \<and>
       (len = 0 \<longleftrightarrow> rd = NoBody) \<and> (if len = 0 then w' = w else True)
   | (Inl err, w') \<Rightarrow> (if offset < 0 \<or> len < 0 then w' = w else len \<noteq> 0)"
proof (cases "offset < 0 \<or> len \<le> 0")
  case True
  then show ?thesis by (auto simp: DownloadRange_def)
next
  case False
  obtain r w' where d: "DownloadRange pl c uuid offset len w = (r, w')" by fastforce
  show ?thesis
  proof (cases r)
    case (Inr rd)
    then have "rd \<noteq> NoBody"
      using d False by (auto simp: DownloadRange_def elim: doDownload_reader)
    then show ?thesis using d Inr False DownloadRange_bound by auto
  qed (use d False in simp)
qed

subsection \<open>Uploads\<close>

text \<open>
  C20. The request of an upload carries, whatever sizes the source is read in, exactly the bytes of
  the source as its file part, after one params part that declares the total size; the writes of
  the file part are non-empty and none exceeds the message ceiling (one byte if that is not
  positive); and the body ends with an error exactly when the source did.
\<close>

theorem upload_exact:
  "\<exists>cs. upload_request c fs am p sr n ov =
        \<lparr>w_method = ''POST'', w_url = opURL c OpFileUpload, w_auth = ''Bearer '' @ authToken c,
         w_contentType = ''multipart/form-data'',
         w_body = WMultipart
           [FormField ''params'' (marshal (FileUploadRequest fs p n ov am)),
            FormFile ''file'' ''upload'' (body_content sr)] (source_error sr)\<rparr> \<and>
      events (snd (upload_writer c fs am p sr n ov None)) =
        [FieldHeader ''params'', FieldData (marshal (FileUploadRequest fs p n ov am)),
         FileHeader ''file'' ''upload''] @ map FileChunk cs @ [Trailer] \<and>
      concat cs = body_content sr \<and>
      list_all (\<lambda>b. 0 < length b \<and> int (length b) \<le> max 1 (messageCeiling c)) cs"
proof (rule upload_writer_open[of c fs am p sr n ov])
  fix cs
  assume cs: "upload_writer c fs am p sr n ov None =
      (source_error sr, \<lparr>budget = None, events =
         [FieldHeader ''params'', FieldData (marshal (FileUploadRequest fs p n ov am)),
          FileHeader ''file'' ''upload''] @ map FileChunk cs @ [Trailer]\<rparr>)"
    "concat cs = body_content sr" "\<forall>b \<in> set cs. b \<noteq> [] \<and> int (length b) \<le> sourceChunkSize (messageCeiling c)"
  have "list_all (\<lambda>b. 0 < length b \<and> int (length b) \<le> max 1 (messageCeiling c)) cs"
    using cs(3) by (auto simp: list_all_iff sourceChunkSize_def split: if_splits)
  then show ?thesis
    using cs(1,2) upload_request_parts[of c fs am p sr n ov] by (intro exI[of _ cs]) simp
qed

text \<open>
  C21. The status of the response decides an upload.  A non-2xx status is the verdict whatever the
  body writer met, so an early refusal is never masked by the closed pipe; after a 2xx status a
  closed pipe is no failure, and a failure of the source is one.
\<close>

theorem upload_status_decides:
  fixes pl c p sr n ov w
  defines "q \<equiv> upload_request c (fsID c) \<lparr>Intent = ''write'', Downloadable = False\<rparr> p sr n ov"
  defines "we \<equiv> fst (upload_writer c (fsID c) \<lparr>Intent = ''write'', Downloadable = False\<rparr> p sr n ov
                      (pipe_accepts pl (peer w) q))"
  assumes "url_Parse pl (opURL c OpFileUpload) = Inr u" and "round_trip pl (peer w) q = (Inr resp, p')"
  shows "if is_2xx (StatusCode resp) then
           fin (Body resp) = EOF \<longrightarrow>
             (fst (Upload pl c p sr n ov w) = None \<longleftrightarrow> 
               (case we of None \<Rightarrow> True | Some e \<Rightarrow> errors_is e Io_ErrClosedPipe))
         else fst (Upload pl c p sr n ov w) =
           Some (MapHTTPStatus (float_ops pl) (StatusCode resp)
                   (boundErrorBody (body_content (Body resp))) (RetryAfter resp))"
proof (cases "is_2xx (StatusCode resp)")
  case True
  obtain out e b' where ra: "ReadAll_limited (Body resp) maxErrorBodyBytes = (out, e, b')"
    by (metis prod.exhaust)
  have "e = None" if "fin (Body resp) = EOF"
    using ra that ReadAll_loop_content[of "\<lparr>src = Body resp, remaining_N = maxErrorBodyBytes\<rparr>" "[]"]
    by (auto simp: ReadAll_limited_def limit_ends_def split: prod.splits)
  then show ?thesis
    using assms(3,4) True ra unfolding q_def we_def
    by (auto simp: Upload_def http_Do_def Let_def isPipeClosure_def split: option.splits)
next
  case False
  then show ?thesis
    using assms(3,4) unfolding q_def
    by (simp add: Upload_def http_Do_def Let_def captureErrorBody_eq)
qed

theorem upload_status_decides_witness:
  "fst (Upload ex_throttled ex_client ''/a'' (ex_body ''xyz'') 3 True ex_net) =
     Some (MapHTTPStatus ex_float 429 (boundErrorBody ''slow'') ''120'')"
  using upload_status_decides[of ex_throttled ex_client _ ex_net "''/a''" "ex_body ''xyz''" 3 True
      "\<lparr>StatusCode = 429, RetryAfter = ''120'', ContentLength = - 1, Body = ex_body ''slow''\<rparr>" 0]
  by (simp add: ex_throttled_def ex_platform_def ex_net_def is_2xx_def ex_body_def body_content_def)

subsection \<open>Construction\<close>

text \<open>
  A client is built exactly when the service URL parses as an https URL with a host, the
  filesystem_id and the token are non-empty, and the trust anchor is a usable certificate; the
  client then trusts that anchor only, over TLS 1.2 or later, with every bound positive.
\<close>

theorem client_construction:
  "((\<exists>c. NewWithOptions pl url fs tok pem opts = Inr c) \<longleftrightarrow>
     url \<noteq> [] \<and> (case url_Parse pl url of Inl _ \<Rightarrow> False | Inr u \<Rightarrow> Scheme u = ''https'' \<and> Host u \<noteq> []) \<and>
     fs \<noteq> [] \<and> tok \<noteq> [] \<and> pem \<noteq> [] \<and> AppendCertsFromPEM pl pem) \<and>
   (case NewWithOptions pl url fs tok pem opts of
     Inl _ \<Rightarrow> True
   | Inr c \<Rightarrow> serviceURL c = url \<and> fsID c = fs \<and> authToken c = tok \<and> t_RootCAs (c_http c) = pem \<and>
       0x0303 \<le> t_MinVersion (c_http c) \<and> 0 < messageCeiling c \<and> 0 < maxDownloadBytes c \<and>
       maxListPages c = 65536)"
  by (auto simp: NewWithOptions_def httpsTransport_def defaultMessageCeiling_def
      defaultMaxDownloadBytes_def defaultMaxListPages_def split: sum.splits)

end
