(* ===== verification/Ocufs_Correct.thy ===== *)
theory Ocufs_Correct
  imports Examples
begin

text \<open>
  What the backend (\<^verbatim>\<open>backend/ocufs\<close>) guarantees over any client that keeps the contract and over
  the REST client: paths, listing, lookup and resolution of metadata, windows of a read, server-side
  transfers, and what an interleaved Update and resolve can do to an object.
\<close>

subsection \<open>Paths and listing\<close>

text \<open>
  The depth-1 filter is exact.  On the wire path of a directory, an entry is kept if and only if
  its cleaned path is that directory's path plus exactly one segment, whatever form the broker sent
  it in; the remote is then the directory joined with the decoded last segment.
\<close>

theorem child_filter_exact:
  "immediateChildRemote f dir (absPath f dir) entry =
     child_remote f dir (path_segs (absPath f dir)) entry"
proof -
  obtain ps where "list_all good_seg ps" "absPath f dir = slash_path ps" "path_segs (absPath f dir) = ps"
    using canonical_absPath by (rule canonicalE)
  then show ?thesis by (simp add: immediateChildRemote_spec)
qed

text \<open>
  C33. List returns, in order, one entry for each immediate child among the entries of all pages,
  nothing else, and fails exactly as the listing does, a missing directory with the error rclone
  tests for.
\<close>

theorem List_depth1:
  assumes "fs_client f = brokerrpc_Client pl c"
  shows "List tp f dir w =
    (case ListDirectoryAll pl c (absPath f dir) w of
       (Inr es, w') \<Rightarrow> (Inr (concat (map (child_entry tp f dir) es)), w')
     | (Inl err, w') \<Rightarrow>
         (Inl (if errors_is err ErrNotFound then Sentinel Fs_ErrorDirNotFound
               else wrapf ''ocufs: List %q: %w'' [FStr (absPath f dir)] err), w'))"
proof -
  have f: "f\<lparr>fs_client := brokerrpc_Client pl c\<rparr> = f" using assms by simp
  have a: "bc_ListDirectoryAll (fs_client f) = ListDirectoryAll pl c"
    using assms by (simp add: brokerrpc_Client_def)
  show ?thesis
    using rpc_fs.List_ok[where f = f and pl = pl and c = c and dir = dir and w = w and tp = tp]
      rpc_fs.List_error[where f = f and pl = pl and c = c and dir = dir and w = w and tp = tp]
    unfolding f a by (auto split: prod.splits sum.splits)
qed

theorem List_depth1_witness:
  "List ex_tp (ex_fs False) [] ex_net =
    (case ListDirectoryAll ex_platform ex_client (absPath (ex_fs False) []) ex_net of
       (Inr es, w') \<Rightarrow> (Inr (concat (map (child_entry ex_tp (ex_fs False) []) es)), w')
     | (Inl err, w') \<Rightarrow>
         (Inl (if errors_is err ErrNotFound then Sentinel Fs_ErrorDirNotFound
               else wrapf ''ocufs: List %q: %w'' [FStr (absPath (ex_fs False) [])] err), w'))"
  by (rule List_depth1) (simp add: ex_fs_def)




text \<open>
  Every object the backend builds carries a canonical wire path: one looked up, uploaded, copied
  or moved carries the path of the remote it was asked for, and one listed a cleaned path, whatever
  form the broker sent.
\<close>

theorem object_paths_canonical:
  "canonical (absPath f rel) \<and>
   (case fst (NewObject tp f rel w) of Inl _ \<Rightarrow> True | Inr ob \<Rightarrow> o_path ob = absPath f rel) \<and>
   (case fst (Put f inp sr w) of Inl _ \<Rightarrow> True | Inr ob \<Rightarrow> o_path ob = absPath f (src_Remote sr)) \<and>
   (case fst (fst (Copy tp f so rel w)) of Inl _ \<Rightarrow> True | Inr ob \<Rightarrow> o_path ob = absPath f rel) \<and>
   (case fst (fst (Move tp f so rel w)) of Inl _ \<Rightarrow> True | Inr ob \<Rightarrow> o_path ob = absPath f rel) \<and>
   list_all (\<lambda>x. case x of EntryObject ob \<Rightarrow> canonical (o_path ob) \<and> o_fs ob = fs_addr f | EntryDir _ _ \<Rightarrow> True)
     (child_entry tp f dir entry)"
  by (auto simp: NewObject_def Put_def Copy_def Move_def transferFile_def ack_object_def child_entry_def
      objectFromFile_def Let_def
      split: sum.splits prod.splits option.splits metaArm.splits src_object.splits)

subsection \<open>Metadata\<close>

text \<open>
  Lookup and late resolution agree: resolving a bare object at the path of a lookup gives the very
  object the lookup returns, fails when it fails, with an error that matches the same sentinels, and
  makes the same call.
\<close>

theorem lookup_agrees:
  "case NewObject tp f remote w of
     (Inr ob, w') \<Rightarrow> resolve tp f (ack_object f (absPath f remote) remote sz) w = ((None, ob), w')
   | (Inl err, w') \<Rightarrow>
       (\<exists>err'. resolve tp f (ack_object f (absPath f remote) remote sz) w =
            ((Some err', ack_object f (absPath f remote) remote sz), w') \<and>
          (\<forall>t. errors_is err' t \<longleftrightarrow> errors_is err t))"
  by (auto simp: NewObject_def resolve_def ack_object_def install_metadata_def Let_def
      split: prod.splits sum.splits metaArm.splits)

text \<open>
  Size never reports an unchecked zero: when an object without a handle reports size 0, its
  metadata was read, and either that failed or the file the broker describes is empty.
\<close>

theorem size_zero_checked:
  assumes "Size tp f ob w = ((0, ob'), w')" "o_uuid ob = []"
  shows "w' = snd (bc_ReadMetadata (fs_client f) (o_path ob) w) \<and>
    (case fst (bc_ReadMetadata (fs_client f) (o_path ob) w) of
       Inl _ \<Rightarrow> True
     | Inr resp \<Rightarrow> classifyReadMetadata resp = metaArmFile \<longrightarrow> f_Size (m_File resp) = 0)"
proof (cases rule: resolve_cases[of tp f ob w])
  case 1
  with assms(2) show ?thesis by simp
next
  case (2 err)
  then show ?thesis
    using assms by (auto simp: Size_def resolve_def install_metadata_def
        split: if_splits prod.splits sum.splits metaArm.splits)
next
  case (3 resp)
  then show ?thesis
    using assms by (auto simp: Size_def install_metadata_def split: if_splits)
qed

text \<open>A broker with one empty file.\<close>

definition ex_empty_file :: json where
  "ex_empty_file = JObj [(''file'', JObj [(''path'', JStr ''/a''), (''uuid'', JStr ''u1'')])]"

definition ex_empty :: "(nat net) Fs" where
  "ex_empty = (ex_fs False)\<lparr>fs_client := brokerrpc_Client
     (ex_platform\<lparr>round_trip := (\<lambda>n q. (Inr (ex_ok (json_text ex_empty_file)), Suc n))\<rparr>) ex_client\<rparr>"

definition ex_empty_meta :: ReadMetadataResponse where
  "ex_empty_meta = zero_ReadMetadataResponse\<lparr>m_File := zero_File\<lparr>f_Path := ''/a'', f_UUID := ''u1''\<rparr>\<rparr>"

lemma ex_empty_dec:
  "Option.bind (json_Decode (take (nat maxJSONResponseBytes) (json_text ex_empty_file)))
     (\<lambda>j. dec_ReadMetadataResponse j zero_ReadMetadataResponse) = Some ex_empty_meta"
proof -
  have "json_Decode (take (nat maxJSONResponseBytes) (json_text ex_empty_file)) = Some ex_empty_file"
    by (rule ex_decode) code_simp+
  moreover have "dec_ReadMetadataResponse ex_empty_file zero_ReadMetadataResponse = Some ex_empty_meta" by code_simp
  ultimately show ?thesis by simp
qed

lemma ex_empty_read: "fst (bc_ReadMetadata (fs_client ex_empty) ''/a'' ex_net) = Inr ex_empty_meta"
  by (simp add: ex_empty_def brokerrpc_Client_def ReadMetadata_def call_def http_Do_def ex_platform_def
      ex_round_trip_def json_post_def opURL_def ex_client_def restBase_def TrimRight_char_def
      setAuthHeader_def op_defs stamp_known[unfolded op_defs] ex_ok_def ex_body_def body_content_def is_2xx_def ex_empty_dec)

lemma ex_empty_size:
  "fst (fst (Size ex_tp ex_empty (ack_object ex_empty ''/a'' ''a'' 0) ex_net)) = 0"
  using ex_empty_read
  by (auto simp: Size_def resolve_def ack_object_def install_metadata_def ex_empty_meta_def zero_File_def
      split: prod.splits sum.splits metaArm.splits)

theorem size_zero_checked_witness:
  "case fst (bc_ReadMetadata (fs_client ex_empty) ''/a'' ex_net) of
     Inl _ \<Rightarrow> True
   | Inr resp \<Rightarrow> classifyReadMetadata resp = metaArmFile \<longrightarrow> f_Size (m_File resp) = 0"
proof -
  let ?ob = "ack_object ex_empty ''/a'' ''a'' 0"
  have "Size ex_tp ex_empty ?ob ex_net =
      ((0, snd (fst (Size ex_tp ex_empty ?ob ex_net))), snd (Size ex_tp ex_empty ?ob ex_net))"
    using ex_empty_size by (metis prod.collapse)
  from size_zero_checked[OF this] show ?thesis by (simp add: ack_object_def)
qed

subsection \<open>Windows of a read\<close>

text \<open>
  The window computed for a seek or range option selects exactly the bytes the option asks for:
  for each of the four forms of a range (inclusive end, open end, suffix, everything) and for a seek,
  cutting the window out of the content gives those bytes.
\<close>

theorem window_bytes:
  assumes "decode_laws dec" "option_ok opt (length data)" "is_int64 (int (length data))"
  shows "\<exists>off len. open_window dec (int (length data)) [opt] None = Inr (Some (off, len)) \<and>
    0 \<le> off \<and> 0 \<le> len \<and> take (nat len) (drop (nat off) data) = option_bytes opt data"
  using option_window[OF assms] by blast

theorem window_bytes_witness:
  "\<exists>off len. open_window ex_dec 6 [RangeOption (- 1) 2] None = Inr (Some (off, len)) \<and>
    0 \<le> off \<and> 0 \<le> len \<and> take (nat len) (drop (nat off) ''abcdef'') = ''ef''"
  using window_bytes[of ex_dec "RangeOption (- 1) 2" "''abcdef''"]
  by (simp add: decode_laws_def ex_dec_def is_int64_def)

text \<open>
  A seek at or past the end of a file, or an open-ended range that starts there, is answered with
  the empty stream and no request.
\<close>

theorem read_past_end:
  assumes "fs_client f = brokerrpc_Client pl c" "o_uuid ob \<noteq> []" "decode_laws dec"
    and "0 \<le> o_size ob" "o_size ob \<le> off" "is_int64 off"
  shows "Open tp dec f ob [SeekOption off] w = ((Inr NoBody, ob), w) \<and>
    Open tp dec f ob [RangeOption off (- 1)] w = ((Inr NoBody, ob), w)"
proof -
  have f: "f\<lparr>fs_client := brokerrpc_Client pl c\<rparr> = f" using assms(1) by simp
  have "is_int64 (o_size ob - off)" using assms(4-6) by (simp add: is_int64_def)
  then have e: "to_end (o_size ob) off = 0" using assms(5) by (simp add: to_end_def wrap64_id)
  show ?thesis
    using rpc_fs.Open_empty_window[where f = f and pl = pl and c = c and off = off and ob = ob and dec = dec]
      assms(2-5) e unfolding f by (simp add: decode_laws_def)
qed

theorem read_past_end_witness:
  "Open ex_tp ex_dec (ex_fs False) ex_object [SeekOption 6] ex_net = ((Inr NoBody, ex_object), ex_net)"
  using read_past_end[of "ex_fs False" ex_platform ex_client ex_object ex_dec 6 ex_tp ex_net]
  by (simp add: ex_fs_def ex_object_def decode_laws_def ex_dec_def is_int64_def)

text \<open>
  An inclusive range that starts past the end is not clamped: its window keeps its length, so the
  request is made.
\<close>

theorem range_past_end_not_clamped:
  assumes "decode_laws dec" "0 \<le> start" "start \<le> end_incl" "o_uuid ob \<noteq> []"
  shows "Open tp dec f ob [RangeOption start end_incl] w =
    (case bc_DownloadRange (fs_client f) (o_uuid ob) start (end_incl - start + 1) w of
       (r, w') \<Rightarrow> ((r, ob), w'))"
  using assms by (simp add: Open_def resolve_def decode_laws_def)

theorem range_past_end_not_clamped_witness:
  "Open ex_tp ex_dec (ex_fs False) ex_object [RangeOption 100 109] ex_net =
    (case DownloadRange ex_platform ex_client ''u1'' 100 10 ex_net of (r, w') \<Rightarrow> ((r, ex_object), w'))"
  using range_past_end_not_clamped[of ex_dec 100 109 ex_object ex_tp "ex_fs False" ex_net]
  by (simp add: ex_fs_def ex_object_def decode_laws_def ex_dec_def brokerrpc_Client_def)



subsection \<open>Transfers and errors\<close>

text \<open>
  A server-side transfer never leaves its file system: a source of another backend, or of another
  instance of this one, is refused with the sentinel that makes rclone fall back, and no call is made.
\<close>

theorem foreign_source_refused:
  assumes "\<not> fs_readOnly f" and "case so of ForeignObject \<Rightarrow> True | OcufsObject ob \<Rightarrow> o_fs ob \<noteq> fs_addr f"
    and "srcFs \<noteq> OcufsFs (fs_addr f)"
  shows "Copy tp f so dst w = ((Inl (Sentinel Fs_ErrorCantCopy), so), w) \<and>
    Move tp f so dst w = ((Inl (Sentinel Fs_ErrorCantMove), so), w) \<and>
    DirMove f srcFs srcRemote dst w = (Some (Sentinel Fs_ErrorCantDirMove), w)"
  using assms by (cases so) (simp_all add: Copy_def Move_def transferFile_def DirMove_def)

theorem foreign_source_refused_witness:
  "Move ex_tp (ex_fs False) (OcufsObject (ex_object\<lparr>o_fs := 2\<rparr>)) ''z'' ex_net =
     ((Inl (Sentinel Fs_ErrorCantMove), OcufsObject (ex_object\<lparr>o_fs := 2\<rparr>)), ex_net)"
  using foreign_source_refused[of "ex_fs False" "OcufsObject (ex_object\<lparr>o_fs := 2\<rparr>)" ForeignFs ex_tp "''z''" ex_net "[]"]
  by (simp add: ex_fs_def)

text \<open>
  A transfer of an object that carries neither a handle nor a size is followed by a metadata call at
  the source path, after the source was moved or copied.
\<close>

theorem transfer_zero_size_call:
  assumes "\<not> fs_readOnly f" "o_fs ob = fs_addr f" "o_uuid ob = []" "o_size ob = 0"
    and "bc_MoveFile (fs_client f) (o_path ob) (absPath f dst) w = (Inr (), w')"
  shows "snd (Move tp f (OcufsObject ob) dst w) = snd (bc_ReadMetadata (fs_client f) (o_path ob) w')"
  using assms
  by (cases rule: resolve_cases[of tp f ob w']) (simp_all add: Move_def transferFile_def Size_def Let_def)

lemma ex_move: "fst (MoveFile ex_platform ex_client ''/a'' ''/z'' ex_net) = Inr ()"
  by (simp add: MoveFile_def call_def http_Do_def ex_platform_def ex_round_trip_def json_post_def opURL_def
      ex_client_def restBase_def TrimRight_char_def setAuthHeader_def op_defs stamp_known[unfolded op_defs]
      ex_ok_def ex_body_def body_content_def is_2xx_def ex_decoded(4)[simplified]
      dec_AckResponse_def dec_struct_def)

theorem transfer_zero_size_call_witness:
  "snd (Move ex_tp (ex_fs False) (OcufsObject (ack_object (ex_fs False) ''/a'' ''a'' 0)) ''z'' ex_net) =
   snd (ReadMetadata ex_platform ex_client ''/a'' (snd (MoveFile ex_platform ex_client ''/a'' ''/z'' ex_net)))"
proof -
  have p: "absPath (ex_fs False) ''z'' = ''/z''" by code_simp
  have "MoveFile ex_platform ex_client ''/a'' ''/z'' ex_net =
      (Inr (), snd (MoveFile ex_platform ex_client ''/a'' ''/z'' ex_net))"
    using ex_move by (metis prod.collapse)
  then show ?thesis
    using transfer_zero_size_call[of "ex_fs False" "ack_object (ex_fs False) ''/a'' ''a'' 0" "''z''" ex_net
        "snd (MoveFile ex_platform ex_client ''/a'' ''/z'' ex_net)" ex_tp] p
    by (simp add: ack_object_def ex_fs_def brokerrpc_Client_def)
qed

text \<open>
  C35. The verdict of the broker reaches rclone.  An error a mutating method wraps is the permission
  error of rclone exactly for status 401 and 403, its not-found error exactly for 404, and is marked
  for retry exactly for 429 and 503; the back-off hint is kept.
\<close>

theorem backend_verdict:
  "(errors_is (wrap_mapped msg args (MapHTTPStatus fl s bd ra)) Fs_ErrorPermissionDenied \<longleftrightarrow> s \<in> {401, 403}) \<and>
   (errors_is (wrap_mapped msg args (MapHTTPStatus fl s bd ra)) Fs_ErrorObjectNotFound \<longleftrightarrow> s = 404) \<and>
   (is_retry (wrap_mapped msg args (MapHTTPStatus fl s bd ra)) \<longleftrightarrow> s \<in> {429, 503}) \<and>
   retry_after_hints (wrap_mapped msg args (MapHTTPStatus fl s bd ra)) =
     retry_after_hints (MapHTTPStatus fl s bd ra)"
  by (auto simp: wrap_mapped_def mapBrokerError_def errors_is_MapHTTPStatus is_retry_MapHTTPStatus
      hints_MapHTTPStatus status_sentinel_def split: option.splits if_splits)

text \<open>
  After a successful Update, MimeType of an object whose type was known answers with the type from
  before the Update, and reads no metadata.
\<close>

theorem mime_kept_after_update:
  assumes "Update f ob inp sr w = ((None, ob'), w')" "o_mime ob \<noteq> []"
  shows "MimeType tp f ob' w' = ((o_mime ob, ob'), w')"
  using assms by (auto simp: Update_def MimeType_def split: if_splits prod.splits option.splits)

lemma ex_upload: "fst (Upload ex_platform ex_client ''/a'' (ex_body ''xyz'') 3 True w) = None"
proof -
  obtain out e b' where ra: "ReadAll_limited (ex_body ''{}'') maxErrorBodyBytes = (out, e, b')"
    by (metis prod.exhaust)
  have e: "e = None"
    using ReadAll_limited_content(3)[OF ra] by (simp add: ex_body_def body_content_def maxErrorBodyBytes_def)
  have "fst (upload_writer ex_client ''fs'' am ''/a'' (ex_body ''xyz'') 3 True None) = None" for am
    by (rule upload_writer_open[of ex_client "''fs''" am "''/a''" "ex_body ''xyz''" 3 True])
       (simp add: source_error_def ex_body_def)
  then show ?thesis
    by (simp add: Upload_def http_Do_def Let_def ex_platform_def ex_round_trip_def upload_request_parts
        ex_opURL ex_fsID OpFileUpload_def stamp_known[unfolded OpFileUpload_def] ex_ok_def is_2xx_def
        ra e)
qed

theorem mime_kept_after_update_witness:
  "\<exists>ob' w'. Update (ex_fs False) (ex_object\<lparr>o_mime := ''text/plain''\<rparr>) (ex_body ''xyz'')
     \<lparr>src_Remote = ''a'', src_Size = 3\<rparr> ex_net = ((None, ob'), w') \<and>
     MimeType ex_tp (ex_fs False) ob' w' = ((''text/plain'', ob'), w')"
proof -
  let ?ob = "ex_object\<lparr>o_mime := ''text/plain''\<rparr>" and ?sr = "\<lparr>src_Remote = ''a'', src_Size = 3\<rparr>"
  have "fst (fst (Update (ex_fs False) ?ob (ex_body ''xyz'') ?sr ex_net)) = None"
    using ex_upload[of ex_net] by (auto simp: Update_def ex_fs_def brokerrpc_Client_def ex_object_def
        split: prod.splits option.splits)
  then obtain ob' w' where u: "Update (ex_fs False) ?ob (ex_body ''xyz'') ?sr ex_net = ((None, ob'), w')"
    by (metis prod.collapse)
  show ?thesis using u mime_kept_after_update[OF u, of ex_tp] by simp
qed

subsection \<open>Interleaving\<close>

text \<open>
  C36. A resolve that overlaps an Update can undo it: when resolve read the metadata before the upload
  and installs it after Update cleared the handle, both methods have returned and the object holds the
  handle, size and type from before the upload, so later reads address the old version.
\<close>

theorem resolve_overwrites_update:
  assumes "o_uuid ob = []" "bc_ReadMetadata (fs_client f) (o_path ob) w = (Inr resp, w1)"
    and "classifyReadMetadata resp = metaArmFile"
    and "bc_Upload (fs_client f) (o_path ob) inp sz True w1 = (None, w2)"
  shows "(race_step tp f inp sz)\<^sup>*\<^sup>* (race_start ob w)
    \<lparr>r_obj = install_metadata tp (m_File resp) (ob\<lparr>o_uuid := [], o_size := sz\<rparr>), r_world = w2,
     r_pc = RDone, u_pc = UDone\<rparr>"
proof -
  let ?s = "\<lambda>x v r u. \<lparr>r_obj = x, r_world = v, r_pc = r, u_pc = u\<rparr>"
  let ?ob' = "ob\<lparr>o_uuid := [], o_size := sz\<rparr>" and ?I = "RInstall (m_File resp)"
  have "race_step tp f inp sz (race_start ob w) (?s ob w RFetch UUpload)"
    using race_step.check[of "race_start ob w" tp f inp sz] assms(1) by (simp add: race_start_def)
  moreover have "race_step tp f inp sz (?s ob w RFetch UUpload) (?s ob w1 ?I UUpload)"
    using race_step.fetch[of "?s ob w RFetch UUpload" f resp w1 tp inp sz] assms(2,3) by simp
  moreover have "race_step tp f inp sz (?s ob w1 ?I UUpload) (?s ob w2 ?I (UClear sz))"
    using race_step.upload[of "?s ob w1 ?I UUpload" f inp sz w2 tp] assms(4) by simp
  moreover have "race_step tp f inp sz (?s ob w2 ?I (UClear sz)) (?s ?ob' w2 ?I UDone)"
    using race_step.clear[of "?s ob w2 ?I (UClear sz)" sz tp f inp sz] by simp
  moreover have "race_step tp f inp sz (?s ?ob' w2 ?I UDone) (?s (install_metadata tp (m_File resp) ?ob') w2 RDone UDone)"
    using race_step.install[of "?s ?ob' w2 ?I UDone" "m_File resp" tp f inp sz] by simp
  ultimately show ?thesis
    by (meson converse_rtranclp_into_rtranclp r_into_rtranclp)
qed

definition ex_meta :: ReadMetadataResponse where
  "ex_meta = zero_ReadMetadataResponse\<lparr>m_File := zero_File\<lparr>f_Path := ''/a'', f_Size := 6, f_UUID := ''u1''\<rparr>\<rparr>"

lemma ex_meta_dec:
  "dec_ReadMetadataResponse (ex_file ''/a'') zero_ReadMetadataResponse = Some ex_meta"
  by code_simp

lemma ex_read: "fst (ReadMetadata ex_platform ex_client ''/a'' w) = Inr ex_meta"
  by (simp add: ReadMetadata_def call_def http_Do_def ex_platform_def ex_round_trip_def json_post_def
      setAuthHeader_def ex_opURL OpReadMetadata_def stamp_known[unfolded OpReadMetadata_def] ex_ok_def
      ex_body_def body_content_def is_2xx_def ex_decoded ex_meta_dec)

theorem resolve_overwrites_update_witness:
  "\<exists>st. (race_step ex_tp (ex_fs False) (ex_body ''xyz'') 3)\<^sup>*\<^sup>*
      (race_start (ack_object (ex_fs False) ''/a'' ''a'' 0) ex_net) st \<and>
     r_pc st = RDone \<and> u_pc st = UDone \<and> o_uuid (r_obj st) = ''u1'' \<and> o_size (r_obj st) = 6"
proof -
  let ?f = "ex_fs False" and ?ob = "ack_object (ex_fs False) ''/a'' ''a'' 0"
  let ?w1 = "snd (ReadMetadata ex_platform ex_client ''/a'' ex_net)"
  let ?w2 = "snd (Upload ex_platform ex_client ''/a'' (ex_body ''xyz'') 3 True ?w1)"
  have "bc_ReadMetadata (fs_client ?f) ''/a'' ex_net = (Inr ex_meta, ?w1)"
    "bc_Upload (fs_client ?f) ''/a'' (ex_body ''xyz'') 3 True ?w1 = (None, ?w2)"
    using ex_read[of ex_net] ex_upload[of ?w1] by (simp_all add: ex_fs_def brokerrpc_Client_def prod_eq_iff)
  then have "(race_step ex_tp ?f (ex_body ''xyz'') 3)\<^sup>*\<^sup>* (race_start ?ob ex_net)
      \<lparr>r_obj = install_metadata ex_tp (m_File ex_meta) (?ob\<lparr>o_uuid := [], o_size := 3\<rparr>), r_world = ?w2,
       r_pc = RDone, u_pc = UDone\<rparr>"
    by (intro resolve_overwrites_update)
       (simp_all add: ack_object_def ex_meta_def classifyReadMetadata_def classifyMetaArms_def)
  then show ?thesis
    by (intro exI conjI) (assumption, simp_all add: install_metadata_def ex_meta_def)
qed

end
