(* ===== verification/GoRegexp.thy ===== *)
theory GoRegexp
  imports Prelude
begin

text \<open>
  The regular expressions of Go's \<^verbatim>\<open>regexp\<close> package that the sources use: character classes,
  sequences, alternatives, repetition and option.  \<open>matches\<close> runs an anchored expression by
  derivatives; \<open>lang\<close> is the set of strings it denotes, and \<open>matches_lang\<close> says they agree.
\<close>

datatype regexp =
    Empty
  | Eps
  | Class "char \<Rightarrow> bool"
  | Cat regexp regexp
  | Alt regexp regexp
  | Rep regexp

primrec nullable :: "regexp \<Rightarrow> bool" where
  "nullable Empty \<longleftrightarrow> False"
| "nullable Eps \<longleftrightarrow> True"
| "nullable (Class P) \<longleftrightarrow> False"
| "nullable (Cat r s) \<longleftrightarrow> nullable r \<and> nullable s"
| "nullable (Alt r s) \<longleftrightarrow> nullable r \<or> nullable s"
| "nullable (Rep r) \<longleftrightarrow> True"

primrec deriv :: "char \<Rightarrow> regexp \<Rightarrow> regexp" where
  "deriv c Empty = Empty"
| "deriv c Eps = Empty"
| "deriv c (Class P) = (if P c then Eps else Empty)"
| "deriv c (Cat r s) = (if nullable r then Alt (Cat (deriv c r) s) (deriv c s) else Cat (deriv c r) s)"
| "deriv c (Alt r s) = Alt (deriv c r) (deriv c s)"
| "deriv c (Rep r) = Cat (deriv c r) (Rep r)"

definition matches :: "regexp \<Rightarrow> string \<Rightarrow> bool" where
  "matches r s = nullable (fold deriv s r)"

primrec lang :: "regexp \<Rightarrow> string set" where
  "lang Empty = {}"
| "lang Eps = {[]}"
| "lang (Class P) = {[c] | c. P c}"
| "lang (Cat r s) = {u @ v | u v. u \<in> lang r \<and> v \<in> lang s}"
| "lang (Alt r s) = lang r \<union> lang s"
| "lang (Rep r) = {concat us | us. set us \<subseteq> lang r}"

lemma nullable_lang: "nullable r \<longleftrightarrow> [] \<in> lang r"
  by (induction r) (auto intro!: exI[of _ "[]"])

lemma concat_Cons_split:
  assumes "c # s = concat us"
  obtains v vs where "c # v \<in> set us" "s = v @ concat vs" "set vs \<subseteq> set us"
  using assms
proof (induction us)
  case (Cons u us)
  show ?case
  proof (cases u)
    case Nil
    with Cons show ?thesis by (metis append_Nil concat.simps(2) set_subset_Cons subset_trans list.set_intros(2))
  next
    case (Cons d v)
    then show ?thesis using Cons.prems by auto
  qed
qed simp

lemma deriv_lang: "s \<in> lang (deriv c r) \<longleftrightarrow> c # s \<in> lang r"
proof (induction r arbitrary: s)
  case (Cat r1 r2)
  have "c # s \<in> lang (Cat r1 r2) \<longleftrightarrow>
      ([] \<in> lang r1 \<and> c # s \<in> lang r2) \<or> (\<exists>u v. s = u @ v \<and> c # u \<in> lang r1 \<and> v \<in> lang r2)"
    by (auto simp: Cons_eq_append_conv)
  then show ?case using Cat by (auto simp: nullable_lang)
next
  case (Rep r)
  show ?case
  proof
    assume "s \<in> lang (deriv c (Rep r))"
    then obtain u us where "s = u @ concat us" "c # u \<in> lang r" "set us \<subseteq> lang r"
      using Rep by auto
    then have "c # s = concat ((c # u) # us)" "set ((c # u) # us) \<subseteq> lang r" by auto
    then show "c # s \<in> lang (Rep r)" unfolding lang.simps by blast
  next
    assume "c # s \<in> lang (Rep r)"
    then obtain us where "c # s = concat us" "set us \<subseteq> lang r" by auto
    then show "s \<in> lang (deriv c (Rep r))"
      using Rep by (elim concat_Cons_split) (auto, blast)
  qed
qed auto

theorem matches_lang: "matches r s \<longleftrightarrow> s \<in> lang r"
  unfolding matches_def
  by (induction s arbitrary: r) (simp_all add: nullable_lang deriv_lang)

subsection \<open>The forms the sources use\<close>

definition Lit :: "string \<Rightarrow> regexp" where
  "Lit s = foldr (\<lambda>c r. Cat (Class (\<lambda>d. d = c)) r) s Eps"

definition Plus :: "regexp \<Rightarrow> regexp" where
  "Plus r = Cat r (Rep r)"

definition Opt :: "regexp \<Rightarrow> regexp" where
  "Opt r = Alt r Eps"

definition is_digit :: "char \<Rightarrow> bool" where
  "is_digit c \<longleftrightarrow> (of_char c :: nat) \<ge> 48 \<and> (of_char c :: nat) \<le> 57"

definition is_octal :: "char \<Rightarrow> bool" where
  "is_octal c \<longleftrightarrow> (of_char c :: nat) \<ge> 48 \<and> (of_char c :: nat) \<le> 55"

lemma lang_Lit [simp]: "lang (Lit s) = {s}"
  by (induction s) (auto simp: Lit_def)

lemma lang_Opt [simp]: "lang (Opt r) = insert [] (lang r)"
  by (auto simp: Opt_def)

lemma in_lang_Class_Cat: "s \<in> lang (Cat (Class P) r) \<longleftrightarrow> (\<exists>c t. s = c # t \<and> P c \<and> t \<in> lang r)"
  unfolding lang.simps(3,4) by (auto intro: exI[of _ "[_]"])

lemma lang_Rep_Class [simp]: "lang (Rep (Class P)) = {s. list_all P s}"
proof (intro set_eqI iffI)
  fix s assume "s \<in> lang (Rep (Class P))"
  then obtain us where "s = concat us" "set us \<subseteq> {[c] | c. P c}" by auto
  then show "s \<in> {s. list_all P s}" by (fastforce simp: list_all_iff)
next
  fix s assume "s \<in> {s. list_all P s}"
  then have "s = concat (map (\<lambda>c. [c]) s) \<and> set (map (\<lambda>c. [c]) s) \<subseteq> {[c] | c. P c}"
    by (auto simp: list_all_iff)
  then show "s \<in> lang (Rep (Class P))" unfolding lang.simps by blast
qed

lemma lang_Plus_Class [simp]: "lang (Plus (Class P)) = {s. s \<noteq> [] \<and> list_all P s}"
proof -
  have "s \<in> lang (Plus (Class P)) \<longleftrightarrow> s \<noteq> [] \<and> list_all P s" for s
    unfolding Plus_def lang.simps(4) lang_Rep_Class by (cases s) (auto intro: exI[of _ "[_]"])
  then show ?thesis by blast
qed

end
