(* ===== verification/Mountcfg.thy ===== *)
theory Mountcfg
  imports GoRegexp JsonText GoErrors
begin

text \<open>
  \<^verbatim>\<open>internal/mountcfg\<close>: strict decoding and validation of the guest mount configuration.  The file
  system and the parser of URLs are parameters of the loader.
\<close>

subsection \<open>The configuration\<close>

record Mount =
  Destination :: string
  AuthToken :: string
  FilesystemID :: "string option"
  MemoryStoreID :: "string option"
  Readonly :: "bool option"
  VfsCacheMode :: string
  CacheDurationS :: "int option"
  VfsCacheMaxSize :: string
  DirPerms :: string
  FilePerms :: string
  VfsWriteBack :: string

record Config =
  SchemaVersion :: string
  ServiceURL :: string
  CACertPEM :: string
  Mounts :: "Mount list option"
  BackendCacheTTL :: "int option"

definition zero_Mount :: Mount where
  "zero_Mount =
     \<lparr>Destination = [], AuthToken = [], FilesystemID = None, MemoryStoreID = None, Readonly = None,
      VfsCacheMode = [], CacheDurationS = None, VfsCacheMaxSize = [], DirPerms = [], FilePerms = [],
      VfsWriteBack = []\<rparr>"

definition zero_Config :: Config where
  "zero_Config =
     \<lparr>SchemaVersion = [], ServiceURL = [], CACertPEM = [], Mounts = None, BackendCacheTTL = None\<rparr>"

definition dec_Mount :: "Mount decoder" where
  "dec_Mount = dec_struct True
     [field ''destination'' dec_string Destination Destination_update,
      field ''auth_token'' dec_string AuthToken AuthToken_update,
      field ''filesystem_id'' (dec_ptr dec_string []) FilesystemID FilesystemID_update,
      field ''memory_store_id'' (dec_ptr dec_string []) MemoryStoreID MemoryStoreID_update,
      field ''readonly'' (dec_ptr dec_bool False) Readonly Readonly_update,
      field ''vfs_cache_mode'' dec_string VfsCacheMode VfsCacheMode_update,
      field ''cache_duration_s'' (dec_ptr dec_int64 0) CacheDurationS CacheDurationS_update,
      field ''vfs_cache_max_size'' dec_string VfsCacheMaxSize VfsCacheMaxSize_update,
      field ''dir_perms'' dec_string DirPerms DirPerms_update,
      field ''file_perms'' dec_string FilePerms FilePerms_update,
      field ''vfs_write_back'' dec_string VfsWriteBack VfsWriteBack_update]"

definition dec_Config :: "Config decoder" where
  "dec_Config = dec_struct True
     [field ''schema_version'' dec_string SchemaVersion SchemaVersion_update,
      field ''service_url'' dec_string ServiceURL ServiceURL_update,
      field ''ca_cert_pem'' dec_string CACertPEM CACertPEM_update,
      field ''mounts'' (dec_slice dec_Mount zero_Mount) Mounts Mounts_update,
      field ''backend_cache_ttl'' (dec_ptr dec_int64 0) BackendCacheTTL BackendCacheTTL_update]"

subsection \<open>Patterns\<close>

definition schemaVersionRe :: regexp where
  "schemaVersionRe =
     Cat (Lit ''v'') (Cat (Plus (Class is_digit))
       (Cat (Opt (Alt (Lit ''alpha'') (Lit ''beta''))) (Rep (Class is_digit))))"

text \<open>Not anchored at the end, and the dot excludes the newline.\<close>

definition destinationRe :: regexp where
  "destinationRe =
     Cat (Lit ''/'') (Cat (Plus (Class (\<lambda>c. c \<noteq> CHR 0x0A))) (Rep (Class (\<lambda>_. True))))"

definition octalRe :: regexp where
  "octalRe = Cat (Lit ''0'') (Cat (Class is_octal) (Cat (Class is_octal) (Class is_octal)))"

definition byteSizeRe :: regexp where
  "byteSizeRe = Cat (Plus (Class is_digit)) (Opt (Class (\<lambda>c. c \<in> set ''BKMGT'')))"

definition cacheModes :: "string list" where
  "cacheModes = [''off'', ''minimal'', ''writes'', ''full'']"

subsection \<open>Errors\<close>

datatype cfg_error =
    ErrSchemaVersion string
  | ErrServiceURL string string
  | ErrDestination nat string
  | ErrMountScope nat bool bool
  | ErrScopeID nat string
  | ErrPerms nat string string
  | ErrByteSize nat string
  | ErrCacheMode nat string
  | ErrAuthToken nat
  | ErrReadonlyMissing nat
  | ErrCacheDuration nat bool int
  | ErrMissingField string
  | ErrDecode
  | ErrRead string gerror

text \<open>The text of an error: its format and its arguments.  The cause inside a decode error is not kept.\<close>

fun cfg_Error :: "cfg_error \<Rightarrow> gerror" where
  "cfg_Error (ErrSchemaVersion v) =
     msgf ''schema_version %q does not match the required interface version pattern ^v[0-9]+(alpha|beta)?[0-9]*$'' [FStr v]"
| "cfg_Error (ErrServiceURL v reason) = msgf ''service_url %q is invalid: %s'' [FStr v, FStr reason]"
| "cfg_Error (ErrDestination i v) =
     msgf ''mounts[%d] destination %q must be an absolute path matching ^/.+'' [FInt (int i), FStr v]"
| "cfg_Error (ErrMountScope i hasFS hasMem) =
     (if hasFS \<and> hasMem then
        msgf ''mounts[%d] sets both filesystem_id and memory_store_id; exactly one is required'' [FInt (int i)]
      else
        msgf ''mounts[%d] sets neither filesystem_id nor memory_store_id; exactly one is required'' [FInt (int i)])"
| "cfg_Error (ErrScopeID i f) =
     msgf ''mounts[%d] %s is present but empty; a scope id must be a non-empty string'' [FInt (int i), FStr f]"
| "cfg_Error (ErrPerms i f v) =
     msgf ''mounts[%d] %s %q must be an octal string matching ^0[0-7]{3}$'' [FInt (int i), FStr f, FStr v]"
| "cfg_Error (ErrByteSize i v) =
     msgf ''mounts[%d] vfs_cache_max_size %q must match ^[0-9]+(B|K|M|G|T)?$'' [FInt (int i), FStr v]"
| "cfg_Error (ErrCacheMode i v) =
     msgf ''mounts[%d] vfs_cache_mode %q must be one of off/minimal/writes/full'' [FInt (int i), FStr v]"
| "cfg_Error (ErrAuthToken i) =
     msgf ''mounts[%d] auth_token is present but empty; the per-mount session token must be a non-empty string'' [FInt (int i)]"
| "cfg_Error (ErrReadonlyMissing i) = msgf ''mounts[%d] is missing the required readonly flag'' [FInt (int i)]"
| "cfg_Error (ErrCacheDuration i missing v) =
     (if missing then msgf ''mounts[%d] is missing the required cache_duration_s field'' [FInt (int i)]
      else msgf ''mounts[%d] cache_duration_s %d must be >= 0'' [FInt (int i), FInt v])"
| "cfg_Error (ErrMissingField f) = msgf ''required field %q is missing'' [FStr f]"
| "cfg_Error ErrDecode = msgf ''strict decode failed: %v'' []"
| "cfg_Error (ErrRead path err) = wrapf ''read config %q: %w'' [FStr path] err"

subsection \<open>Validation\<close>

definition validateMount :: "nat \<Rightarrow> Mount \<Rightarrow> cfg_error option" where
  "validateMount i m =
     (let hasFS = FilesystemID m \<noteq> None; hasMem = MemoryStoreID m \<noteq> None in
      if \<not> matches destinationRe (Destination m) then Some (ErrDestination i (Destination m))
      else if AuthToken m = [] then Some (ErrAuthToken i)
      else if hasFS = hasMem then Some (ErrMountScope i hasFS hasMem)
      else if FilesystemID m = Some [] then Some (ErrScopeID i ''filesystem_id'')
      else if MemoryStoreID m = Some [] then Some (ErrScopeID i ''memory_store_id'')
      else if Readonly m = None then Some (ErrReadonlyMissing i)
      else (case CacheDurationS m of
        None \<Rightarrow> Some (ErrCacheDuration i True 0)
      | Some d \<Rightarrow>
          if d < 0 then Some (ErrCacheDuration i False d)
          else if \<not> matches octalRe (DirPerms m) then Some (ErrPerms i ''dir_perms'' (DirPerms m))
          else if \<not> matches octalRe (FilePerms m) then Some (ErrPerms i ''file_perms'' (FilePerms m))
          else if \<not> matches byteSizeRe (VfsCacheMaxSize m) then Some (ErrByteSize i (VfsCacheMaxSize m))
          else if VfsCacheMode m \<notin> set cacheModes then Some (ErrCacheMode i (VfsCacheMode m))
          else None))"

fun validateMounts_from :: "nat \<Rightarrow> Mount list \<Rightarrow> cfg_error option" where
  "validateMounts_from i [] = None"
| "validateMounts_from i (m # ms) =
     (case validateMount i m of Some err \<Rightarrow> Some err | None \<Rightarrow> validateMounts_from (Suc i) ms)"

definition validateMounts :: "Mount list \<Rightarrow> cfg_error option" where
  "validateMounts mounts = validateMounts_from 0 mounts"

definition validateServiceURL :: "(string \<Rightarrow> bool) \<Rightarrow> string \<Rightarrow> cfg_error option" where
  "validateServiceURL parse_uri raw =
     (if length raw < length ''https://'' \<or> take (length ''https://'') raw \<noteq> ''https://'' then
        Some (ErrServiceURL raw ''must begin https://'')
      else if \<not> parse_uri raw then Some (ErrServiceURL raw ''is not a parseable URI'')
      else None)"

definition validate :: "(string \<Rightarrow> bool) \<Rightarrow> Config \<Rightarrow> cfg_error option" where
  "validate parse_uri cfg =
     (if \<not> matches schemaVersionRe (SchemaVersion cfg) then Some (ErrSchemaVersion (SchemaVersion cfg))
      else (case validateServiceURL parse_uri (ServiceURL cfg) of
        Some err \<Rightarrow> Some err
      | None \<Rightarrow>
          if CACertPEM cfg = [] then Some (ErrMissingField ''ca_cert_pem'')
          else (case Mounts cfg of
            None \<Rightarrow> Some (ErrMissingField ''mounts'')
          | Some mounts \<Rightarrow> validateMounts mounts)))"

record loader =
  os_ReadFile :: "string \<Rightarrow> bytes result"
  ParseRequestURI :: "string \<Rightarrow> bool"

definition Load :: "loader \<Rightarrow> string \<Rightarrow> cfg_error + Config" where
  "Load ld path =
     (case os_ReadFile ld path of
        Inl err \<Rightarrow> Inl (ErrRead path err)
      | Inr raw \<Rightarrow>
          (case json_Decode raw of
             None \<Rightarrow> Inl ErrDecode
           | Some j \<Rightarrow>
               (case dec_Config j zero_Config of
                  None \<Rightarrow> Inl ErrDecode
                | Some cfg \<Rightarrow>
                    (case validate (ParseRequestURI ld) cfg of
                       Some err \<Rightarrow> Inl err
                     | None \<Rightarrow> Inr cfg))))"

end
