(* ===== verification/Orchestrator.thy ===== *)
theory Orchestrator
  imports Mountcfg GoPath "HOL-Library.Multiset"
begin

text \<open>
  \<^verbatim>\<open>internal/mounter/orchestrator.go\<close> and \<^verbatim>\<open>mounter.go\<close>: the run of a session.  The seam that
  makes and unmakes one mount is an interface (\<open>pointMounter\<close>, a record of its two methods over a
  state \<open>'e\<close>); what the operating system, the signal channel and the scheduler decide is the record
  \<open>host\<close>: whether a signal is waiting at each poll, what wakes the final select, in which order the
  unmount goroutines run, and which file operations fail.  A log records what happened.
\<close>

subsection \<open>Types\<close>

record point =
  pt_id :: nat
  destination :: string

record mountSpec =
  spec_mount :: Mount
  spec_readOnly :: bool
  spec_serviceURL :: string
  spec_caCertPEM :: string

record 'e pointMounter =
  mountAndWaitReady :: "mountSpec \<Rightarrow> 'e \<Rightarrow> point result \<times> 'e"
  unmount :: "point \<Rightarrow> 'e \<Rightarrow> gerror option \<times> 'e"

datatype wakeup = SignalArrived | PointExited nat "gerror option"

record host =
  polls :: "nat \<Rightarrow> bool"
  wakes :: "point list \<Rightarrow> wakeup"
  sched :: "nat \<Rightarrow> nat list"
  remove_error :: "nat \<Rightarrow> gerror option"
  create_error :: "gerror option"
  close_error :: "gerror option"

datatype event =
    Mounted point
  | MountFailed string
  | Unmounted point
  | ReadyCreated
  | ReadyLogged nat
  | ReadyRemoved

record 'e session =
  seam_state :: 'e
  ready_file :: bool
  removals :: nat
  s_log :: "event list"

record 'e orchestrator =
  o_seam :: "'e pointMounter option"
  o_newSeam :: "'e pointMounter result option"
  ReadyFilePath :: string
  o_serviceURL :: string
  o_caCertPEM :: string

subsection \<open>Specs\<close>

definition nested :: "string \<Rightarrow> string \<Rightarrow> bool" where
  "nested cleaned prior \<longleftrightarrow> HasPrefix cleaned (prior @ ''/'') \<or> HasPrefix prior (cleaned @ ''/'')"

text \<open>
  The loop over the mounts; \<open>seen\<close> holds the cleaned destinations so far.  Go ranges over the seen
  set in an unspecified order, which decides only the destination a nesting error names.
\<close>

fun specs_loop ::
  "'e orchestrator \<Rightarrow> Mount list \<Rightarrow> string list \<Rightarrow> mountSpec list \<Rightarrow> mountSpec list result" where
  "specs_loop orc [] seen specs = Inr specs"
| "specs_loop orc (m # ms) seen specs =
     (let readOnly = (Readonly m = Some True); cleaned = Clean (Destination m) in
      if MemoryStoreID m \<noteq> None then
        Inl (msgf ''mount %q: memory-store mounts are not yet supported (no memory scope axis)''
               [FStr (Destination m)])
      else if cleaned \<in> set seen then
        Inl (msgf ''mount %q: duplicate destination across mounts (a second mount would silently shadow the first)''
               [FStr (Destination m)])
      else
        (case find (nested cleaned) seen of
           Some prior \<Rightarrow>
             Inl (msgf ''mount %q: destination is nested with %q (the later mount's pre-mount inspection would traverse the earlier live mount)'' [FStr (Destination m), FStr prior])
         | None \<Rightarrow>
             specs_loop orc ms (seen @ [cleaned])
               (specs @ [\<lparr>spec_mount = m, spec_readOnly = readOnly,
                          spec_serviceURL = o_serviceURL orc, spec_caCertPEM = o_caCertPEM orc\<rparr>])))"

definition buildSpecs :: "'e orchestrator \<Rightarrow> Config \<Rightarrow> mountSpec list result" where
  "buildSpecs orc cfg = specs_loop orc (case Mounts cfg of None \<Rightarrow> [] | Some ms \<Rightarrow> ms) [] []"

subsection \<open>Teardown\<close>

text \<open>
  One goroutine per point; the order in which they run is the scheduler's, each result lands at the
  index of its point.
\<close>

fun run_unmounts ::
  "'e pointMounter \<Rightarrow> point list \<Rightarrow> nat list \<Rightarrow> gerror option list \<Rightarrow> 'e session \<Rightarrow>
   gerror option list \<times> 'e session" where
  "run_unmounts seam points [] collected st = (collected, st)"
| "run_unmounts seam points (i # is) collected st =
     (let p = points ! i in
      case unmount seam p (seam_state st) of
        (err, e') \<Rightarrow>
          run_unmounts seam points is
            (collected[i := map_option (\<lambda>x. wrapf ''unmount %q: %w'' [FStr (destination p)] x) err])
            (st\<lparr>seam_state := e', s_log := s_log st @ [Unmounted p]\<rparr>))"

definition unmountAll ::
  "host \<Rightarrow> 'e pointMounter \<Rightarrow> point list \<Rightarrow> 'e session \<Rightarrow> gerror list \<times> 'e session" where
  "unmountAll h seam points st =
     (case run_unmounts seam points (sched h (length points)) (replicate (length points) None) st of
        (collected, st') \<Rightarrow> (concat (map (\<lambda>x. case x of None \<Rightarrow> [] | Some e \<Rightarrow> [e]) collected), st'))"

definition shutdownDuringStartup ::
  "host \<Rightarrow> 'e pointMounter \<Rightarrow> point list \<Rightarrow> 'e session \<Rightarrow> gerror option \<times> 'e session" where
  "shutdownDuringStartup h seam started st =
     (case unmountAll h seam started st of (cleanupErrs, st') \<Rightarrow> (errors_Join cleanupErrs, st'))"

definition blockUntilTeardown ::
  "host \<Rightarrow> 'e pointMounter \<Rightarrow> point list \<Rightarrow> 'e session \<Rightarrow> gerror option \<times> 'e session" where
  "blockUntilTeardown h seam started st =
     (case wakes h started of
        SignalArrived \<Rightarrow>
          (case unmountAll h seam started st of (cleanupErrs, st') \<Rightarrow> (errors_Join cleanupErrs, st'))
      | PointExited i pointErr \<Rightarrow>
          (let exited = started ! i; remaining = filter (\<lambda>p. p \<noteq> exited) started in
           case unmountAll h seam remaining st of
             (cleanupErrs, st') \<Rightarrow>
               (case pointErr of
                  None \<Rightarrow> (errors_Join cleanupErrs, st')
                | Some e \<Rightarrow>
                    (errors_Join (wrapf ''mount %q exited: %w'' [FStr (destination exited)] e # cleanupErrs),
                     st'))))"

subsection \<open>The ready-file\<close>

definition signalReady :: "host \<Rightarrow> 'e orchestrator \<Rightarrow> nat \<Rightarrow> 'e session \<Rightarrow> gerror option \<times> 'e session" where
  "signalReady h orc n st =
     (if ReadyFilePath orc \<noteq> [] then
        (case create_error h of
           Some err \<Rightarrow> (Some (wrapf ''create ready-file %q: %w'' [FStr (ReadyFilePath orc)] err), st)
         | None \<Rightarrow> (close_error h, st\<lparr>ready_file := True, s_log := s_log st @ [ReadyCreated]\<rparr>))
      else (None, st\<lparr>s_log := s_log st @ [ReadyLogged n]\<rparr>))"

text \<open>\<^verbatim>\<open>os.Remove\<close> of the ready-file, with a missing file taken for removed; \<open>remove_error\<close> gives the other errors.\<close>

definition remove_ready :: "host \<Rightarrow> 'e session \<Rightarrow> gerror option \<times> 'e session" where
  "remove_ready h st =
     (case remove_error h (removals st) of
        Some err \<Rightarrow> (Some err, st\<lparr>removals := Suc (removals st)\<rparr>)
      | None \<Rightarrow>
          (None, st\<lparr>ready_file := False, removals := Suc (removals st),
                    s_log := s_log st @ (if ready_file st then [ReadyRemoved] else [])\<rparr>))"

subsection \<open>The run\<close>

text \<open>The fan-out; \<open>k\<close> counts the polls of the signal channel.\<close>

fun mount_loop ::
  "host \<Rightarrow> 'e orchestrator \<Rightarrow> 'e pointMounter \<Rightarrow> nat \<Rightarrow> mountSpec list \<Rightarrow> point list \<Rightarrow> 'e session \<Rightarrow>
   gerror option \<times> 'e session" where
  "mount_loop h orc seam k [] started st =
     (if polls h k then shutdownDuringStartup h seam started st
      else
        (case signalReady h orc (length started) st of
           (Some err, st') \<Rightarrow>
             (case unmountAll h seam started st' of
                (cleanupErrs, st'') \<Rightarrow> (errors_Join (err # cleanupErrs), st''))
         | (None, st') \<Rightarrow> blockUntilTeardown h seam started st'))"
| "mount_loop h orc seam k (spec # specs) started st =
     (if polls h k then shutdownDuringStartup h seam started st
      else
        (case mountAndWaitReady seam spec (seam_state st) of
           (Inl err, e') \<Rightarrow>
             (let startErr = wrapf ''mount %q: %w'' [FStr (Destination (spec_mount spec))] err;
                  st' = st\<lparr>seam_state := e', s_log := s_log st @ [MountFailed (Destination (spec_mount spec))]\<rparr> in
              case unmountAll h seam started st' of
                (cleanupErrs, st'') \<Rightarrow> (errors_Join (startErr # cleanupErrs), st''))
         | (Inr p, e') \<Rightarrow>
             mount_loop h orc seam (Suc k) specs (started @ [p])
               (st\<lparr>seam_state := e', s_log := s_log st @ [Mounted p]\<rparr>)))"

definition run_specs ::
  "host \<Rightarrow> 'e orchestrator \<Rightarrow> 'e pointMounter \<Rightarrow> Config \<Rightarrow> 'e session \<Rightarrow> gerror option \<times> 'e session" where
  "run_specs h orc seam cfg st =
     (case buildSpecs orc cfg of
        Inl err \<Rightarrow> (Some err, st)
      | Inr specs \<Rightarrow> if specs = [] then (None, st) else mount_loop h orc seam 0 specs [] st)"

definition run :: "host \<Rightarrow> 'e orchestrator \<Rightarrow> Config \<Rightarrow> 'e session \<Rightarrow> gerror option \<times> 'e session" where
  "run h orc cfg st =
     (case (case o_seam orc of
              Some seam \<Rightarrow> Inr seam
            | None \<Rightarrow>
                (case o_newSeam orc of
                   None \<Rightarrow> Inl (msgf ''orchestrator: no mount seam configured'' [])
                 | Some r \<Rightarrow> r)) of
        Inl err \<Rightarrow> (Some err, st)
      | Inr seam \<Rightarrow>
          if ReadyFilePath orc \<noteq> [] then
            (case remove_ready h st of
               (Some err, st1) \<Rightarrow>
                 (Some (wrapf ''remove stale ready-file %q: %w'' [FStr (ReadyFilePath orc)] err), st1)
             | (None, st1) \<Rightarrow>
                 (case run_specs h orc seam cfg st1 of
                    (err, st2) \<Rightarrow> (err, snd (remove_ready h st2))))
          else run_specs h orc seam cfg st)"

text \<open>\<^verbatim>\<open>orchestratorMounter.Mount\<close>: the transport values come from the configuration.\<close>

definition Mount_run ::
  "host \<Rightarrow> 'e pointMounter result \<Rightarrow> string \<Rightarrow> Config \<Rightarrow> 'e session \<Rightarrow> gerror option \<times> 'e session" where
  "Mount_run h newSeam readyPath cfg st =
     run h \<lparr>o_seam = None, o_newSeam = Some newSeam, ReadyFilePath = readyPath,
           o_serviceURL = ServiceURL cfg, o_caCertPEM = CACertPEM cfg\<rparr> cfg st"

subsection \<open>What a run logs\<close>

text \<open>The scheduler runs each goroutine once; the select names one of the points it was given.\<close>

definition host_ok :: "host \<Rightarrow> bool" where
  "host_ok h \<longleftrightarrow>
     (\<forall>n. distinct (sched h n) \<and> set (sched h n) = {..<n}) \<and>
     (\<forall>ps. case wakes h ps of SignalArrived \<Rightarrow> True | PointExited i _ \<Rightarrow> ps \<noteq> [] \<longrightarrow> i < length ps)"

lemma run_unmounts_log:
  "s_log (snd (run_unmounts seam points is cs st)) = s_log st @ map (\<lambda>i. Unmounted (points ! i)) is \<and>
   ready_file (snd (run_unmounts seam points is cs st)) = ready_file st \<and>
   removals (snd (run_unmounts seam points is cs st)) = removals st"
  by (induction "is" arbitrary: cs st) (simp_all add: Let_def case_prod_unfold)

lemma nth_perm:
  assumes "distinct is" "set is = {..<length xs}"
  shows "mset (map (\<lambda>i. xs ! i) is) = mset xs"
proof -
  have "mset is = mset [0..<length xs]"
    using assms by (subst set_eq_iff_mset_eq_distinct[symmetric]) (simp_all add: atLeast0LessThan)
  then have "mset (map (\<lambda>i. xs ! i) is) = mset (map (\<lambda>i. xs ! i) [0..<length xs])"
    unfolding mset_map by (rule arg_cong)
  then show ?thesis unfolding map_nth .
qed

lemma unmountAll_log:
  assumes "host_ok h" "unmountAll h seam points st = (errs, st')"
  obtains us where "s_log st' = s_log st @ map Unmounted us" "mset us = mset points"
    "ready_file st' = ready_file st" "removals st' = removals st"
proof
  have st': "st' = snd (run_unmounts seam points (sched h (length points)) (replicate (length points) None) st)"
    using assms(2) by (auto simp: unmountAll_def split: prod.splits)
  note L = run_unmounts_log[of seam points "sched h (length points)" "replicate (length points) None" st]
  show "s_log st' = s_log st @ map Unmounted (map (\<lambda>i. points ! i) (sched h (length points)))"
    unfolding st' using L by (simp add: comp_def)
  show "mset (map (\<lambda>i. points ! i) (sched h (length points))) = mset points"
    using assms(1) unfolding host_ok_def by (intro nth_perm) blast+
  show "ready_file st' = ready_file st" "removals st' = removals st"
    unfolding st' using L by simp_all
qed

fun is_ready :: "event \<Rightarrow> bool" where
  "is_ready ReadyCreated = True"
| "is_ready (ReadyLogged n) = True"
| "is_ready _ = False"

text \<open>
  The points \<open>us\<close> a teardown unmounts: all that were started, but, once readiness was signalled, for the
  one whose own exit woke the select.
\<close>

definition torn_down :: "host \<Rightarrow> bool \<Rightarrow> point list \<Rightarrow> point list \<Rightarrow> bool" where
  "torn_down h ready started us \<longleftrightarrow>
     mset us = mset started \<or>
     ready \<and>
     (case wakes h started of
        SignalArrived \<Rightarrow> False
      | PointExited i _ \<Rightarrow> mset us = mset (filter (\<lambda>p. p \<noteq> started ! i) started))"

lemma blockUntilTeardown_log:
  assumes "host_ok h" "blockUntilTeardown h seam started st = (err, st')"
  obtains us where "s_log st' = s_log st @ map Unmounted us" "torn_down h True started us"
    "ready_file st' = ready_file st" "removals st' = removals st"
proof (cases "wakes h started")
  case SignalArrived
  obtain errs where "unmountAll h seam started st = (errs, st')"
    using assms(2) SignalArrived by (auto simp: blockUntilTeardown_def split: prod.splits)
  then obtain us where us: "s_log st' = s_log st @ map Unmounted us" "mset us = mset started"
    "ready_file st' = ready_file st" "removals st' = removals st"
    by (rule unmountAll_log[OF assms(1)])
  show ?thesis by (rule that[OF us(1) _ us(3,4)]) (simp add: torn_down_def us(2))
next
  case (PointExited i e)
  obtain errs where "unmountAll h seam (filter (\<lambda>p. p \<noteq> started ! i) started) st = (errs, st')"
    using assms(2) PointExited by (auto simp: blockUntilTeardown_def Let_def split: prod.splits option.splits)
  then obtain us where us: "s_log st' = s_log st @ map Unmounted us"
    "mset us = mset (filter (\<lambda>p. p \<noteq> started ! i) started)"
    "ready_file st' = ready_file st" "removals st' = removals st"
    by (rule unmountAll_log[OF assms(1)])
  show ?thesis by (rule that[OF us(1) _ us(3,4)]) (simp add: torn_down_def us(2) PointExited)
qed

lemma signalReady_cases:
  assumes "signalReady h orc n st = (err, st')"
  obtains "err \<noteq> None" "st' = st"
  | R where "R \<in> {ReadyCreated, ReadyLogged n}" "s_log st' = s_log st @ [R]"
    "removals st' = removals st"
  using assms by (auto simp: signalReady_def split: if_splits option.splits)

text \<open>
  How the start of \<open>n\<close> mounts ends when \<open>m\<close> of them came up: a signal was waiting or the ready-file
  could not be made; a mount failed and the error names its destination; or all are up and readiness
  was signalled once.
\<close>

definition start_outcome :: "host \<Rightarrow> nat \<Rightarrow> nat \<Rightarrow> nat \<Rightarrow> nat \<Rightarrow> event list \<Rightarrow> gerror option \<Rightarrow> bool" where
  "start_outcome h k n m tot mid err \<longleftrightarrow>
     (mid = [] \<and> m \<le> n \<and> (polls h (k + m) \<or> m = n \<and> err \<noteq> None)) \<or>
     (\<exists>d e es. mid = [MountFailed d] \<and> m < n \<and>
        err = errors_Join (wrapf ''mount %q: %w'' [FStr d] e # es)) \<or>
     (mid \<in> {[ReadyCreated], [ReadyLogged tot]} \<and> m = n \<and> (\<forall>j \<le> m. \<not> polls h (k + j)))"

lemma start_outcome_Suc:
  assumes "start_outcome h (Suc k) n m (Suc tot) mid err" "\<not> polls h k"
  shows "start_outcome h k (Suc n) (Suc m) (Suc tot) mid err"
proof -
  have "\<not> polls h (k + j)" if "\<forall>j \<le> m. \<not> polls h (Suc k + j)" "j \<le> Suc m" for j
    using that assms(2) by (cases j) auto
  then show ?thesis using assms by (auto simp: start_outcome_def)
qed

lemma mount_loop_NilE:
  assumes "mount_loop h orc seam k [] started st = (err, st')"
  obtains (stop) "shutdownDuringStartup h seam started st = (err, st')" "polls h k"
  | (unready) e st1 errs where "signalReady h orc (length started) st = (Some e, st1)"
      "unmountAll h seam started st1 = (errs, st')" "err = errors_Join (e # errs)" "\<not> polls h k"
  | (served) st1 where "signalReady h orc (length started) st = (None, st1)"
      "blockUntilTeardown h seam started st1 = (err, st')" "\<not> polls h k"
proof (cases "polls h k")
  case False
  obtain r st1 where "signalReady h orc (length started) st = (r, st1)" by fastforce
  then show ?thesis using assms False unready served by (cases r) (auto split: prod.splits)
qed (use assms stop in simp)

abbreviation failed_log :: "mountSpec \<Rightarrow> 'e session \<Rightarrow> event list" where
  "failed_log spec st \<equiv> s_log st @ [MountFailed (Destination (spec_mount spec))]"

lemma mount_loop_ConsE:
  assumes "mount_loop h orc seam k (spec # specs) started st = (err, st')"
  obtains (stop) "shutdownDuringStartup h seam started st = (err, st')" "polls h k"
  | (failed) e e' errs where "mountAndWaitReady seam spec (seam_state st) = (Inl e, e')"
      "unmountAll h seam started (st\<lparr>seam_state := e', s_log := failed_log spec st\<rparr>) = (errs, st')"
      "err = errors_Join (wrapf ''mount %q: %w'' [FStr (Destination (spec_mount spec))] e # errs)"
  | (mounted) p e' where "mountAndWaitReady seam spec (seam_state st) = (Inr p, e')"
      "mount_loop h orc seam (Suc k) specs (started @ [p])
         (st\<lparr>seam_state := e', s_log := s_log st @ [Mounted p]\<rparr>) = (err, st')" "\<not> polls h k"
proof (cases "polls h k")
  case False
  obtain r e' where "mountAndWaitReady seam spec (seam_state st) = (r, e')" by fastforce
  then show ?thesis using assms False failed mounted by (cases r) (auto simp: Let_def split: prod.splits)
qed (use assms stop in simp)

lemma shutdownE:
  assumes "shutdownDuringStartup h seam started st = (err, st')"
  obtains errs where "unmountAll h seam started st = (errs, st')"
  using assms by (auto simp: shutdownDuringStartup_def split: prod.splits)

lemma shutdown_log:
  assumes "host_ok h" "shutdownDuringStartup h seam started st = (err, st')"
  obtains us where "s_log st' = s_log st @ map Unmounted us" "mset us = mset started"
  using assms(2) by (rule shutdownE) (rule unmountAll_log[OF assms(1)], assumption, rule that)

lemma mount_loop_log_Nil:
  assumes ok: "host_ok h" and "mount_loop h orc seam k [] started st = (err, st')"
  shows "\<exists>mid us. s_log st' = s_log st @ mid @ map Unmounted us \<and>
    start_outcome h k 0 0 (length started) mid err \<and> torn_down h (list_ex is_ready mid) started us"
  using assms(2)
proof (cases rule: mount_loop_NilE)
  case stop
  obtain us where "s_log st' = s_log st @ map Unmounted us" "mset us = mset started"
    by (rule shutdown_log[OF ok stop(1)])
  then show ?thesis
    using stop(2) by (intro exI[of _ "[]"] exI[of _ us]) (simp add: start_outcome_def torn_down_def)
next
  case (unready e st1 errs)
  obtain us where us: "s_log st' = s_log st1 @ map Unmounted us" "mset us = mset started"
    by (rule unmountAll_log[OF ok unready(2)])
  from unready(1) show ?thesis
  proof (cases rule: signalReady_cases)
    case 1
    with us unready(3) show ?thesis
      by (intro exI[of _ "[]"] exI[of _ us]) (simp add: start_outcome_def torn_down_def)
  next
    case (2 R)
    with us unready(4) show ?thesis
      by (intro exI[of _ "[R]"] exI[of _ us]) (auto simp: start_outcome_def torn_down_def)
  qed
next
  case (served st1)
  obtain us where us: "s_log st' = s_log st1 @ map Unmounted us" "torn_down h True started us"
    by (rule blockUntilTeardown_log[OF ok served(2)])
  from served(1) show ?thesis
  proof (cases rule: signalReady_cases)
    case (2 R)
    with us served(3) show ?thesis
      by (intro exI[of _ "[R]"] exI[of _ us]) (auto simp: start_outcome_def)
  qed simp
qed

lemma mount_loop_log:
  assumes ok: "host_ok h" and "mount_loop h orc seam k specs started st = (err, st')"
  shows "\<exists>ps mid us. s_log st' = s_log st @ map Mounted ps @ mid @ map Unmounted us \<and>
    start_outcome h k (length specs) (length ps) (length started + length specs) mid err \<and>
    torn_down h (list_ex is_ready mid) (started @ ps) us"
  using assms(2)
proof (induction specs arbitrary: k started st)
  case Nil
  show ?case by (rule exI[of _ "[]"]) (use mount_loop_log_Nil[OF ok Nil] in simp)
next
  case (Cons spec specs)
  from Cons.prems show ?case
  proof (cases rule: mount_loop_ConsE)
    case stop
    obtain us where "s_log st' = s_log st @ map Unmounted us" "mset us = mset started"
      by (rule shutdown_log[OF ok stop(1)])
    then show ?thesis using stop(2)
      by (intro exI[of _ "[]"] exI[of _ us]) (simp add: start_outcome_def torn_down_def)
  next
    case (failed e e' errs)
    let ?d = "Destination (spec_mount spec)"
    obtain us where us: "s_log st' = s_log st @ [MountFailed ?d] @ map Unmounted us" "mset us = mset started"
      by (rule unmountAll_log[OF ok failed(2)]) simp
    have "start_outcome h k (length (spec # specs)) 0 tot [MountFailed ?d] err" for tot
      unfolding start_outcome_def failed(3) by (intro disjI2 disjI1 exI[of _ ?d] exI[of _ e] exI[of _ errs]) simp
    then show ?thesis using us
      by (intro exI[of _ "[]"] exI[of _ "[MountFailed ?d]"] exI[of _ us]) (simp add: torn_down_def)
  next
    case (mounted p e')
    from Cons.IH[OF mounted(2)] obtain ps mid us where
      "s_log st' = s_log st @ [Mounted p] @ map Mounted ps @ mid @ map Unmounted us"
      "start_outcome h (Suc k) (length specs) (length ps) (length (started @ [p]) + length specs) mid err"
      "torn_down h (list_ex is_ready mid) ((started @ [p]) @ ps) us" by auto
    then show ?thesis
      by (intro exI[of _ "p # ps"] exI[of _ mid] exI[of _ us]) (simp add: start_outcome_Suc mounted(3))
  qed
qed

end
