(* ===== verification/Mountcfg_Correct.thy ===== *)
theory Mountcfg_Correct
  imports Mountcfg
begin

text \<open>
  What the loader of the mount configuration guarantees: it accepts exactly the documents of the
  single mount-config shape, names the first mount at fault, and refuses unknown fields.
\<close>

subsection \<open>The patterns, in words\<close>


lemma destinationRe_iff: "matches destinationRe s \<longleftrightarrow> (\<exists>c t. s = slash # c # t \<and> c \<noteq> CHR 0x0A)"
proof
  assume "matches destinationRe s"
  then obtain u v where "s = ''/'' @ u @ v" "u \<noteq> []" "list_all (\<lambda>c. c \<noteq> CHR 0x0A) u"
    unfolding matches_lang destinationRe_def lang.simps(4) lang_Lit lang_Plus_Class lang_Rep_Class by blast
  then show "\<exists>c t. s = slash # c # t \<and> c \<noteq> CHR 0x0A" by (cases u) auto
next
  assume "\<exists>c t. s = slash # c # t \<and> c \<noteq> CHR 0x0A"
  then obtain c t where "s = ''/'' @ [c] @ t" "c \<noteq> CHR 0x0A" by auto
  then show "matches destinationRe s"
    unfolding matches_lang destinationRe_def lang.simps(4) lang_Lit lang_Plus_Class lang_Rep_Class
    by (intro CollectI exI[of _ "''/''"] exI[of _ "[c] @ t"] conjI exI[of _ "[c]"] exI[of _ t])
       (simp_all add: list_all_iff)
qed

lemma octalRe_iff:
  "matches octalRe s \<longleftrightarrow> (\<exists>a b c. s = [CHR ''0'', a, b, c] \<and> list_all is_octal [a, b, c])"
proof -
  have "t \<in> lang (Cat (Class is_octal) (Cat (Class is_octal) (Class is_octal))) \<longleftrightarrow>
      (\<exists>a b c. t = [a, b, c] \<and> list_all is_octal [a, b, c])" for t
    unfolding in_lang_Class_Cat by auto
  then show ?thesis
    unfolding matches_lang octalRe_def lang.simps(4)[of "Lit _"] lang_Lit by auto
qed

lemma byteSizeRe_iff:
  "matches byteSizeRe s \<longleftrightarrow>
     (\<exists>ds u. s = ds @ u \<and> ds \<noteq> [] \<and> list_all is_digit ds \<and> (u = [] \<or> (\<exists>c \<in> set ''BKMGT''. u = [c])))"
  unfolding matches_lang byteSizeRe_def lang.simps(3,4) lang_Opt lang_Plus_Class by blast

subsection \<open>The accepted shape\<close>

definition mount_ok :: "Mount \<Rightarrow> bool" where
  "mount_ok m \<longleftrightarrow>
     (\<exists>c t. Destination m = slash # c # t \<and> c \<noteq> CHR 0x0A) \<and> AuthToken m \<noteq> [] \<and>
     ((\<exists>fs. FilesystemID m = Some fs \<and> fs \<noteq> [] \<and> MemoryStoreID m = None) \<or>
      (\<exists>ms. MemoryStoreID m = Some ms \<and> ms \<noteq> [] \<and> FilesystemID m = None)) \<and>
     Readonly m \<noteq> None \<and> (\<exists>d \<ge> 0. CacheDurationS m = Some d) \<and>
     list_all (\<lambda>p. \<exists>a b c. p = [CHR ''0'', a, b, c] \<and> list_all is_octal [a, b, c]) [DirPerms m, FilePerms m] \<and>
     (\<exists>ds u. VfsCacheMaxSize m = ds @ u \<and> ds \<noteq> [] \<and> list_all is_digit ds \<and>
        (u = [] \<or> (\<exists>c \<in> set ''BKMGT''. u = [c]))) \<and>
     VfsCacheMode m \<in> {''off'', ''minimal'', ''writes'', ''full''}"


lemma validateMount_None: "validateMount i m = None \<longleftrightarrow> mount_ok m"
  unfolding validateMount_def mount_ok_def Let_def destinationRe_iff[symmetric] octalRe_iff[symmetric]
    byteSizeRe_iff[symmetric]
  by (cases "FilesystemID m"; cases "MemoryStoreID m"; cases "CacheDurationS m")
     (simp_all add: cacheModes_def not_le)




text \<open>The index an error names.\<close>

fun error_index :: "cfg_error \<Rightarrow> nat option" where
  "error_index (ErrDestination i _) = Some i"
| "error_index (ErrMountScope i _ _) = Some i"
| "error_index (ErrScopeID i _) = Some i"
| "error_index (ErrPerms i _ _) = Some i"
| "error_index (ErrByteSize i _) = Some i"
| "error_index (ErrCacheMode i _) = Some i"
| "error_index (ErrAuthToken i) = Some i"
| "error_index (ErrReadonlyMissing i) = Some i"
| "error_index (ErrCacheDuration i _ _) = Some i"
| "error_index _ = None"

lemma validateMount_index: "validateMount i m = Some err \<Longrightarrow> error_index err = Some i"
  by (auto simp: validateMount_def Let_def split: if_splits option.splits)

lemma validateMounts_from_first:
  assumes "validateMounts_from i ms = Some err"
  obtains k where "k < length ms" "error_index err = Some (i + k)" "\<not> mount_ok (ms ! k)"
    "list_all mount_ok (take k ms)"
  using assms
proof (induction ms arbitrary: i thesis)
  case (Cons m ms)
  show ?case
  proof (cases "validateMount i m")
    case None
    then have ok: "mount_ok m" by (simp add: validateMount_None)
    from None Cons.prems(2) have "validateMounts_from (Suc i) ms = Some err" by simp
    then obtain k where "k < length ms" "error_index err = Some (Suc i + k)" "\<not> mount_ok (ms ! k)"
      "list_all mount_ok (take k ms)"
      using Cons.IH by blast
    then show ?thesis using Cons.prems(1)[of "Suc k"] ok by simp
  next
    case (Some e)
    then have "\<not> mount_ok m" "error_index e = Some i"
      using validateMount_None[of i m] validateMount_index by auto
    then show ?thesis using Cons.prems Some by (intro Cons.prems(1)[of 0]) auto
  qed
qed simp

subsection \<open>Properties\<close>


text \<open>
  A fault in the mounts is reported for the first mount at fault: the error names its index, that
  mount breaks a rule, and every mount before it keeps all of them.
\<close>

theorem first_bad_mount:
  assumes "validateMounts ms = Some err"
  shows "\<exists>k < length ms. error_index err = Some k \<and> \<not> mount_ok (ms ! k) \<and> list_all mount_ok (take k ms)"
  using assms validateMounts_from_first[of 0 ms err] by (auto simp: validateMounts_def)

definition ex_mount :: Mount where
  "ex_mount =
     \<lparr>Destination = ''/mnt/a'', AuthToken = ''tok'', FilesystemID = Some ''fs'', MemoryStoreID = None,
      Readonly = Some True, VfsCacheMode = ''full'', CacheDurationS = Some 5, VfsCacheMaxSize = ''10M'',
      DirPerms = ''0755'', FilePerms = ''0644'', VfsWriteBack = []\<rparr>"

lemma ex_mount_valid: "validateMount i ex_mount = None"
  by (simp add: validateMount_def Let_def ex_mount_def) code_simp

theorem first_bad_mount_witness:
  "\<exists>k < 2. error_index (ErrAuthToken 1) = Some k \<and> \<not> mount_ok ([ex_mount, ex_mount\<lparr>AuthToken := []\<rparr>] ! k) \<and>
     list_all mount_ok (take k [ex_mount, ex_mount\<lparr>AuthToken := []\<rparr>])"
proof -
  have "validateMount 1 (ex_mount\<lparr>AuthToken := []\<rparr>) = Some (ErrAuthToken 1)"
    by (simp add: validateMount_def Let_def ex_mount_def) code_simp
  then have "validateMounts [ex_mount, ex_mount\<lparr>AuthToken := []\<rparr>] = Some (ErrAuthToken 1)"
    by (simp add: validateMounts_def ex_mount_valid)
  from first_bad_mount[OF this] show ?thesis by (simp add: numeral_2_eq_2)
qed

definition config_fields :: "string list" where
  "config_fields = [''schema_version'', ''service_url'', ''ca_cert_pem'', ''mounts'', ''backend_cache_ttl'']"

definition mount_fields :: "string list" where
  "mount_fields =
     [''destination'', ''auth_token'', ''filesystem_id'', ''memory_store_id'', ''readonly'', ''vfs_cache_mode'',
      ''cache_duration_s'', ''vfs_cache_max_size'', ''dir_perms'', ''file_perms'', ''vfs_write_back'']"

definition has_unknown :: "string list \<Rightarrow> (string \<times> json) list \<Rightarrow> bool" where
  "has_unknown names kvs \<longleftrightarrow> list_ex (\<lambda>(k, v). fold_name k \<notin> fold_name ` set names) kvs"

text \<open>An unknown field at the top level, or in an element of the mounts array.\<close>

fun mount_unknown :: "json \<Rightarrow> bool" where
  "mount_unknown (JObj mkvs) = has_unknown mount_fields mkvs"
| "mount_unknown _ = False"

fun mounts_unknown :: "json \<Rightarrow> bool" where
  "mounts_unknown (JArr js) = list_ex mount_unknown js"
| "mounts_unknown _ = False"

definition unknown_field :: "(string \<times> json) list \<Rightarrow> bool" where
  "unknown_field kvs \<longleftrightarrow>
     has_unknown config_fields kvs \<or> list_ex (\<lambda>(k, v). k = ''mounts'' \<and> mounts_unknown v) kvs"

lemma strict_unknown:
  assumes "has_unknown (map fst fs) kvs"
  shows "dec_members True fs kvs a = None"
proof -
  obtain k v where "(k, v) \<in> set kvs" and u: "fold_name k \<notin> fold_name ` set (map fst fs)"
    using assms by (auto simp: has_unknown_def list_ex_iff)
  then obtain xs ys where "kvs = xs @ (k, v) # ys" by (meson split_list)
  moreover have "\<forall>n \<in> set (map fst fs). fold_name n \<noteq> fold_name k" using u by (metis imageI)
  ultimately show ?thesis by (simp only: dec_members_unknown(2))
qed

lemma dec_Mount_unknown: "has_unknown mount_fields mkvs \<Longrightarrow> dec_Mount (JObj mkvs) a = None"
  unfolding dec_Mount_def dec_struct_def json.case
  by (rule strict_unknown) (simp add: field_def mount_fields_def)

lemma fold_config_fields:
  "map fold_name config_fields = config_fields"
  by code_simp

lemma dec_Config_unknown:
  assumes "unknown_field kvs"
  shows "dec_Config (JObj kvs) a = None"
  using assms unfolding unknown_field_def
proof
  assume "has_unknown config_fields kvs"
  then show ?thesis
    unfolding dec_Config_def dec_struct_def json.case
    by (intro strict_unknown) (simp add: field_def config_fields_def)
next
  assume "list_ex (\<lambda>(k, v). k = ''mounts'' \<and> mounts_unknown v) kvs"
  then obtain js mkvs where m: "(''mounts'', JArr js) \<in> set kvs" "JObj mkvs \<in> set js" "has_unknown mount_fields mkvs"
    by (auto simp: list_ex_iff elim!: mounts_unknown.elims mount_unknown.elims)
  have e: "dec_elems dec_Mount zero_Mount js = None"
    by (rule dec_elems_bad[where d = dec_Mount, OF m(2) dec_Mount_unknown[OF m(3)]])
  show ?thesis
    unfolding dec_Config_def dec_struct_def json.case
    by (rule dec_members_bad[OF m(1)])
       (use fold_config_fields in \<open>simp add: field_def config_fields_def\<close>, simp add: dec_slice_def e)
qed

text \<open>
  An unknown field is refused, at the top level of the document as in any of its mounts, whatever
  else the document holds.  Names are compared as the decoder folds them.
\<close>

theorem unknown_field_refused:
  assumes "os_ReadFile ld path = Inr raw" "json_Decode raw = Some (JObj kvs)"
    and "unknown_field kvs"
  shows "Load ld path = Inl ErrDecode"
  using assms by (simp add: Load_def dec_Config_unknown)

definition ex_loader :: "(string \<times> json) list \<Rightarrow> loader" where
  "ex_loader kvs =
     \<lparr>os_ReadFile = (\<lambda>p. Inr (json_text (JObj kvs) @ p)), ParseRequestURI = (\<lambda>_. True)\<rparr>"

theorem unknown_field_refused_witness:
  "Load (ex_loader [(''mounts'', JArr [JObj [(''secret'', JNull)]])]) '' junk'' = Inl ErrDecode"
  by (rule unknown_field_refused[of _ _ "json_text (JObj [(''mounts'', JArr [JObj [(''secret'', JNull)]])]) @ '' junk''"
        "[(''mounts'', JArr [JObj [(''secret'', JNull)]])]"])
     (simp add: ex_loader_def, rule json_Decode_text, code_simp+)

text \<open>
  Only the first JSON value of the file decides: what follows it is not read, so trailing data is not
  refused.
\<close>

theorem trailing_data_ignored:
  assumes "os_ReadFile ld path = Inr (json_text j @ rest)" "os_ReadFile ld path' = Inr (json_text j)"
    and "json_ok j" "num_end rest"
  shows "Load ld path = Load ld path'"
  using assms(1,2) json_Decode_text[OF assms(3,4)] json_Decode_text[OF assms(3), of "[]"]
  by (simp add: Load_def num_end_def)

theorem trailing_data_ignored_witness: "Load (ex_loader []) ''junk'' = Load (ex_loader []) []"
  by (rule trailing_data_ignored[of _ _ "JObj []" "''junk''"]) (simp_all add: ex_loader_def, code_simp+)

end
