(* ===== verification/MountOptions.thy ===== *)
theory MountOptions
  imports Mountcfg_Correct
begin

text \<open>
  \<^verbatim>\<open>internal/mounter/options.go\<close>: the options of one mount, from its configuration.  The option
  types and their parsers belong to rclone; the record \<open>rclone_vfs\<close> holds the parsers and the registered
  defaults, and the record types are left open (\<open>'r\<close>) for the fields the code never names.
\<close>

subsection \<open>Types\<close>

record vfs_options =
  vo_CacheMode :: nat
  vo_CacheMaxSize :: int
  vo_DirCacheTime :: int
  vo_WriteBack :: int
  vo_DirPerms :: nat
  vo_FilePerms :: nat
  vo_Umask :: nat
  vo_ReadOnly :: bool
  vo_UID :: nat
  vo_GID :: nat

record mount_options =
  mo_AllowOther :: bool
  mo_AllowNonEmpty :: bool
  mo_AllowRoot :: bool
  mo_DefaultPermissions :: bool
  mo_WritebackCache :: bool
  mo_DebugFUSE :: bool
  mo_ExtraFlags :: "string list"
  mo_ExtraOptions :: "string list"
  mo_DeviceName :: string
  mo_VolumeName :: string
  mo_MaxReadAhead :: int
  mo_AttrTimeout :: int

record 'r rclone_vfs =
  CacheMode_Set :: "string \<Rightarrow> nat result"
  SizeSuffix_Set :: "string \<Rightarrow> int result"
  Duration_Set :: "string \<Rightarrow> int result"
  FileMode_Set :: "string \<Rightarrow> nat result"
  vfscommon_Opt :: "'r vfs_options_scheme"
  mountlib_Opt :: mount_options

subsection \<open>Operations\<close>

definition isAllDigits :: "string \<Rightarrow> bool" where
  "isAllDigits s \<longleftrightarrow> (if s = [] then False else list_all is_digit s)"

text \<open>\<^verbatim>\<open>time.Second\<close> in nanoseconds; the product of two durations wraps at 64 bits.\<close>

definition time_Second :: int where
  "time_Second = 1000000000"

definition buildVFSOptions :: "'r rclone_vfs \<Rightarrow> Mount \<Rightarrow> bool \<Rightarrow> 'r vfs_options_scheme result" where
  "buildVFSOptions rv m readOnly =
     (let opt = vfscommon_Opt rv in
      case CacheMode_Set rv (VfsCacheMode m) of
        Inl err \<Rightarrow> Inl (wrapf ''vfs_cache_mode %q: %w'' [FStr (VfsCacheMode m)] err)
      | Inr mode \<Rightarrow>
     (let rawSize = (if isAllDigits (VfsCacheMaxSize m) then VfsCacheMaxSize m @ ''B'' else VfsCacheMaxSize m) in
      case SizeSuffix_Set rv rawSize of
        Inl err \<Rightarrow> Inl (wrapf ''vfs_cache_max_size %q: %w'' [FStr (VfsCacheMaxSize m)] err)
      | Inr sz \<Rightarrow>
     (let seconds = (case CacheDurationS m of None \<Rightarrow> 0 | Some s \<Rightarrow> s);
          opt = opt\<lparr>vo_CacheMode := mode, vo_CacheMaxSize := sz,
                    vo_DirCacheTime := wrap64 (seconds * time_Second)\<rparr> in
      case (if VfsWriteBack m \<noteq> [] then
              (case Duration_Set rv (VfsWriteBack m) of
                 Inl err \<Rightarrow> Inl (wrapf ''vfs_write_back %q: %w'' [FStr (VfsWriteBack m)] err)
               | Inr wb \<Rightarrow>
                   if wb \<le> 0 then
                     Inl (msgf ''vfs_write_back %q: must be a positive duration'' [FStr (VfsWriteBack m)])
                   else Inr (opt\<lparr>vo_WriteBack := wb\<rparr>))
            else Inr opt) of
        Inl err \<Rightarrow> Inl err
      | Inr opt \<Rightarrow>
     (case FileMode_Set rv (DirPerms m) of
        Inl err \<Rightarrow> Inl (wrapf ''dir_perms %q: %w'' [FStr (DirPerms m)] err)
      | Inr dirPerms \<Rightarrow>
     (case FileMode_Set rv (FilePerms m) of
        Inl err \<Rightarrow> Inl (wrapf ''file_perms %q: %w'' [FStr (FilePerms m)] err)
      | Inr filePerms \<Rightarrow>
          Inr (opt\<lparr>vo_DirPerms := dirPerms, vo_FilePerms := filePerms, vo_Umask := 0,
                   vo_ReadOnly := readOnly\<rparr>))))))"

definition buildMountOptions :: "'r rclone_vfs \<Rightarrow> Mount \<Rightarrow> mount_options result" where
  "buildMountOptions rv m = Inr ((mountlib_Opt rv)\<lparr>mo_AllowOther := True, mo_AllowNonEmpty := True\<rparr>)"

definition buildOcufsConfigmap ::
  "Mount \<Rightarrow> bool \<Rightarrow> string \<Rightarrow> string \<Rightarrow> (string \<rightharpoonup> string) result" where
  "buildOcufsConfigmap m readOnly svcURL caPEM =
     (if MemoryStoreID m \<noteq> None then
        Inl (msgf ''mount %q: memory-store mounts are not yet supported (no memory scope axis)''
               [FStr (Destination m)])
      else
        (case FilesystemID m of
           None \<Rightarrow> Inl (msgf ''mount %q: filesystem_id is required'' [FStr (Destination m)])
         | Some fs \<Rightarrow>
             if fs = [] then Inl (msgf ''mount %q: filesystem_id is required'' [FStr (Destination m)])
             else
               Inr (Map.empty(''service_url'' \<mapsto> svcURL, ''auth_token'' \<mapsto> AuthToken m,
                      ''ca_cert_pem'' \<mapsto> caPEM, ''filesystem_id'' \<mapsto> fs,
                      ''read_only'' \<mapsto> (if readOnly then ''true'' else ''false'')))))"

subsection \<open>What the parsers of rclone document\<close>

definition dec_value :: "string \<Rightarrow> int" where
  "dec_value = foldl (\<lambda>n c. n * 10 + (of_char c - 48)) 0"

definition oct_value :: "string \<Rightarrow> nat" where
  "oct_value = foldl (\<lambda>n c. n * 8 + (of_char c - 48)) 0"

text \<open>A size in bytes: a number with a binary unit, or without one.\<close>

definition unit_bytes :: "char \<Rightarrow> int" where
  "unit_bytes c =
     (if c = CHR ''K'' then 2 ^ 10 else if c = CHR ''M'' then 2 ^ 20 else if c = CHR ''G'' then 2 ^ 30
      else if c = CHR ''T'' then 2 ^ 40 else 1)"

definition byte_size :: "string \<Rightarrow> int" where
  "byte_size s =
     (if list_all is_digit s then dec_value s else dec_value (butlast s) * unit_bytes (last s))"

text \<open>
  \<open>CacheMode.Set\<close> takes the four names; \<open>SizeSuffix.Set\<close> reads a number with a unit exactly while it
  fits a double, and a trailing digit as kibibytes; \<open>FileMode.Set\<close> reads octal.
\<close>

definition parser_laws :: "'r rclone_vfs \<Rightarrow> bool" where
  "parser_laws rv \<longleftrightarrow>
     (\<forall>s \<in> set cacheModes. \<exists>mode. CacheMode_Set rv s = Inr mode) \<and>
     (\<forall>ds u. ds \<noteq> [] \<longrightarrow> list_all is_digit ds \<longrightarrow> u \<in> set ''BKMGT'' \<longrightarrow> dec_value ds * unit_bytes u < 2 ^ 53 \<longrightarrow>
        SizeSuffix_Set rv (ds @ [u]) = Inr (dec_value ds * unit_bytes u)) \<and>
     (\<forall>ds. ds \<noteq> [] \<longrightarrow> list_all is_digit ds \<longrightarrow> dec_value ds * 2 ^ 10 < 2 ^ 53 \<longrightarrow>
        SizeSuffix_Set rv ds = Inr (dec_value ds * 2 ^ 10)) \<and>
     (\<forall>p. p \<noteq> [] \<longrightarrow> length p \<le> 4 \<longrightarrow> list_all is_octal p \<longrightarrow> FileMode_Set rv p = Inr (oct_value p))"

subsection \<open>Properties\<close>

lemma is_octal_digit: "is_octal c \<Longrightarrow> is_digit c"
  by (simp add: is_octal_def is_digit_def)

lemma units_not_digits: "u \<in> set ''BKMGT'' \<Longrightarrow> \<not> is_digit u"
  by (auto simp: is_digit_def)

lemma cap_bytes:
  assumes "parser_laws rv" "matches byteSizeRe s" "byte_size s < 2 ^ 53"
  shows "SizeSuffix_Set rv (if isAllDigits s then s @ ''B'' else s) = Inr (byte_size s)"
proof -
  obtain ds u where s: "s = ds @ u" "ds \<noteq> []" "list_all is_digit ds" "u = [] \<or> (\<exists>c \<in> set ''BKMGT''. u = [c])"
    using assms(2) unfolding byteSizeRe_iff by blast
  have law: "SizeSuffix_Set rv (ds @ [c]) = Inr (dec_value ds * unit_bytes c)"
    if "c \<in> set ''BKMGT''" "dec_value ds * unit_bytes c < 2 ^ 53" for c
    using assms(1) that s(2,3) unfolding parser_laws_def by blast
  from s(4) show ?thesis
  proof
    assume "u = []"
    then show ?thesis using s(1-3) assms(3) law[of "CHR ''B''"]
      by (simp add: isAllDigits_def byte_size_def unit_bytes_def)
  next
    assume "\<exists>c \<in> set ''BKMGT''. u = [c]"
    then obtain c where c: "c \<in> set ''BKMGT''" "u = [c]" by blast
    have nd: "\<not> isAllDigits s" using s(1,2) c(2) units_not_digits[OF c(1)] by (simp add: isAllDigits_def)
    have b: "byte_size s = dec_value ds * unit_bytes c"
      using s(1) c(2) units_not_digits[OF c(1)] by (simp add: byte_size_def)
    show ?thesis using nd b law[OF c(1)] assms(3) unfolding s(1) c(2) by simp
  qed
qed

lemma seconds_exact: "0 \<le> d \<Longrightarrow> d \<le> 9223372036 \<Longrightarrow> wrap64 (d * time_Second) = d * time_Second"
  by (rule wrap64_id) (simp add: is_int64_def time_Second_def)

definition write_back_of :: "'r rclone_vfs \<Rightarrow> Mount \<Rightarrow> int result" where
  "write_back_of rv m =
     (if VfsWriteBack m = [] then Inr (vo_WriteBack (vfscommon_Opt rv)) else Duration_Set rv (VfsWriteBack m))"

text \<open>
  A mount the loader accepts gets the VFS options it asks for: the registered defaults with the
  cache mode, the cache cap in bytes (a number without a unit counts bytes, not kibibytes), the
  directory cache time in nanoseconds as far as 64 bits hold it, the write-back delay, the octal permissions,
  no umask and the read-only flag, and nothing else changed.
\<close>

theorem vfs_options_exact:
  assumes "parser_laws rv" "validateMount i m = None" "byte_size (VfsCacheMaxSize m) < 2 ^ 53"
    and "CacheMode_Set rv (VfsCacheMode m) = Inr mode" "CacheDurationS m = Some d" "d \<le> 9223372036"
    and "write_back_of rv m = Inr wb" "VfsWriteBack m = [] \<or> wb > 0"
  shows "buildVFSOptions rv m ro =
    Inr ((vfscommon_Opt rv)\<lparr>vo_CacheMode := mode, vo_CacheMaxSize := byte_size (VfsCacheMaxSize m),
      vo_DirCacheTime := d * 1000000000, vo_WriteBack := wb, vo_DirPerms := oct_value (DirPerms m),
      vo_FilePerms := oct_value (FilePerms m), vo_Umask := 0, vo_ReadOnly := ro\<rparr>)"
proof -
  have ok: "mount_ok m" using assms(2) by (simp add: validateMount_None)
  have perms: "FileMode_Set rv p = Inr (oct_value p)" if p: "p \<in> {DirPerms m, FilePerms m}" for p
  proof -
    have "list_all (\<lambda>p. \<exists>a b c. p = [CHR ''0'', a, b, c] \<and> list_all is_octal [a, b, c]) [DirPerms m, FilePerms m]"
      using ok unfolding mount_ok_def by blast
    then obtain a b c where "p = [CHR ''0'', a, b, c]" "list_all is_octal [a, b, c]"
      using p by auto
    then have "p \<noteq> []" "length p \<le> 4" "list_all is_octal p" by (auto simp: is_octal_def)
    then show ?thesis using assms(1) unfolding parser_laws_def by blast
  qed
  have cap: "SizeSuffix_Set rv (if isAllDigits (VfsCacheMaxSize m) then VfsCacheMaxSize m @ ''B'' else VfsCacheMaxSize m) =
      Inr (byte_size (VfsCacheMaxSize m))"
    using ok by (intro cap_bytes[OF assms(1) _ assms(3)]) (simp only: mount_ok_def byteSizeRe_iff)
  have "d \<ge> 0" using ok assms(5) by (auto simp: mount_ok_def)
  then have time: "wrap64 (d * time_Second) = d * 1000000000"
    using seconds_exact assms(6) by (simp add: time_Second_def)
  show ?thesis
    using assms(7,8)
    by (simp add: buildVFSOptions_def Let_def assms(4,5) cap perms time write_back_of_def split: if_splits)
qed

definition ex_vfs :: "unit rclone_vfs" where
  "ex_vfs =
     \<lparr>CacheMode_Set = (\<lambda>_. Inr 3),
      SizeSuffix_Set = (\<lambda>s. Inr (if list_all is_digit s then dec_value s * 2 ^ 10
                              else dec_value (butlast s) * unit_bytes (last s))),
      Duration_Set = (\<lambda>_. Inr time_Second), FileMode_Set = (\<lambda>p. Inr (oct_value p)),
      vfscommon_Opt =
        \<lparr>vo_CacheMode = 0, vo_CacheMaxSize = - 1, vo_DirCacheTime = 300000000000, vo_WriteBack = 5000000000,
         vo_DirPerms = 511, vo_FilePerms = 438, vo_Umask = 18, vo_ReadOnly = False, vo_UID = 0, vo_GID = 0\<rparr>,
      mountlib_Opt =
        \<lparr>mo_AllowOther = False, mo_AllowNonEmpty = False, mo_AllowRoot = False, mo_DefaultPermissions = False,
         mo_WritebackCache = False, mo_DebugFUSE = False, mo_ExtraFlags = [], mo_ExtraOptions = [],
         mo_DeviceName = [], mo_VolumeName = [], mo_MaxReadAhead = 131072, mo_AttrTimeout = 1000000000\<rparr>\<rparr>"

lemma ex_parser_laws: "parser_laws ex_vfs"
  by (auto simp: parser_laws_def ex_vfs_def is_digit_def)

theorem vfs_options_exact_witness:
  "buildVFSOptions ex_vfs (ex_mount\<lparr>VfsCacheMaxSize := ''1048576''\<rparr>) True =
     Inr \<lparr>vo_CacheMode = 3, vo_CacheMaxSize = 1048576, vo_DirCacheTime = 5000000000, vo_WriteBack = 5000000000,
         vo_DirPerms = 493, vo_FilePerms = 420, vo_Umask = 0, vo_ReadOnly = True, vo_UID = 0, vo_GID = 0\<rparr>"
proof -
  let ?m = "ex_mount\<lparr>VfsCacheMaxSize := ''1048576''\<rparr>"
  have v: "validateMount 0 ?m = None" by (simp add: validateMount_def Let_def ex_mount_def) code_simp
  have b: "byte_size ''1048576'' = 1048576" by code_simp
  have p: "oct_value ''0755'' = 493" "oct_value ''0644'' = 420" by code_simp+
  from vfs_options_exact[OF ex_parser_laws v, of 3 5 5000000000 True] show ?thesis
    by (simp add: b p ex_vfs_def write_back_of_def ex_mount_def)
qed

text \<open>A write-back delay that is not positive never reaches the VFS.\<close>

lemma write_back_positive:
  assumes "buildVFSOptions rv m ro = Inr opt" "VfsWriteBack m \<noteq> []"
  shows "vo_WriteBack opt > 0"
  using assms by (auto simp: buildVFSOptions_def Let_def split: sum.splits if_splits)

text \<open>
  The loader bounds the cache duration below only: from \<open>9223372037\<close> seconds on, the conversion to
  nanoseconds wraps and the directory cache time turns negative.
\<close>

lemma dir_cache_time_wraps: "wrap64 (9223372037 * time_Second) = - 9223372036709551616"
  by (simp add: wrap64_def time_Second_def)

end
