(* ===== verification/ScaffoldGuard.thy ===== *)
theory ScaffoldGuard
  imports GoErrors GoPath
begin

text \<open>
  \<^verbatim>\<open>internal/mounter/scaffoldguard.go\<close>: the walk over a mount destination that refuses to mount over
  anything but empty directories.  The file system is the function \<open>ReadDir\<close>, the names of a directory with
  the flag whether each is a directory; it may hold anything, cycles included.
\<close>

subsection \<open>The walk\<close>

type_synonym dirEntry = "string \<times> bool"
type_synonym ReadDir = "string \<Rightarrow> dirEntry list result"

definition scaffoldWalkEntryCeiling :: nat where
  "scaffoldWalkEntryCeiling = 4096"

definition classifyDestReadError :: "string \<Rightarrow> string \<Rightarrow> gerror \<Rightarrow> gerror" where
  "classifyDestReadError dest dir err =
     (if dir = dest \<and> errors_is err Os_ErrNotExist then
        msgf ''mount destination %q does not exist'' [FStr dest]
      else if errors_is err Sys_ENOTCONN then
        wrapf ''a stale disconnected mount is still attached at %q (a previous mount instance exited without a clean detach); lazy-unmount it (umount -l) and restart the mount: %w'' [FStr dir] err
      else wrapf ''inspecting mount destination %q: %w'' [FStr dest] err)"

definition too_many :: "string \<Rightarrow> gerror" where
  "too_many dir =
     msgf ''refusing to shadow existing content at %q: more than %d entries under the mount destination; empty the destination and restart the mount''
       [FStr dir, FInt (int scaffoldWalkEntryCeiling)]"

definition not_a_dir :: "string \<Rightarrow> gerror" where
  "not_a_dir p =
     msgf ''refusing to shadow existing content at %q: the mount destination must hold only empty directories (the baked scaffold); remove the entry and restart the mount''
       [FStr p]"

text \<open>
  The recursive closure \<open>walk\<close> with its call stack written out: each frame is a directory and the entries
  its loop has still to visit.  The result is the first error or the count \<open>seen\<close>; lemma
  \<open>walk_Cons\<close> below gives the recursion back.
\<close>

function walk :: "ReadDir \<Rightarrow> string \<Rightarrow> nat \<Rightarrow> (string \<times> dirEntry list) list \<Rightarrow> nat result" where
  "walk rd dest seen [] = Inr seen"
| "walk rd dest seen ((dir, []) # frames) = walk rd dest seen frames"
| "walk rd dest seen ((dir, (name, isDir) # es) # frames) =
     (if Suc seen > scaffoldWalkEntryCeiling then Inl (too_many dir)
      else
        (let p = Join [dir, name] in
         if \<not> isDir then Inl (not_a_dir p)
         else
           (case rd p of
              Inl err \<Rightarrow> Inl (classifyDestReadError dest p err)
            | Inr es' \<Rightarrow> walk rd dest (Suc seen) ((p, es') # (dir, es) # frames))))"
  by pat_completeness auto
termination
  by (relation "measures [\<lambda>(rd, dest, seen, fs). scaffoldWalkEntryCeiling - seen, \<lambda>(rd, dest, seen, fs). length fs]")
     auto

definition ensureMountpointShadowsNoContent :: "ReadDir \<Rightarrow> string \<Rightarrow> gerror option" where
  "ensureMountpointShadowsNoContent rd dest =
     (case rd dest of
        Inl err \<Rightarrow> Some (classifyDestReadError dest dest err)
      | Inr es \<Rightarrow> (case walk rd dest 0 [(dest, es)] of Inl err \<Rightarrow> Some err | Inr _ \<Rightarrow> None))"

subsection \<open>The recursion of the source\<close>

lemma walk_append:
  "walk rd dest seen (fs @ gs) =
     (case walk rd dest seen fs of Inl err \<Rightarrow> Inl err | Inr s \<Rightarrow> walk rd dest s gs)"
  by (induction rd dest seen fs rule: walk.induct) (simp_all add: Let_def split: sum.split)

lemma walk_Cons:
  "walk rd dest seen [(dir, (name, isDir) # es)] =
     (if Suc seen > scaffoldWalkEntryCeiling then Inl (too_many dir)
      else if \<not> isDir then Inl (not_a_dir (Join [dir, name]))
      else
        (case rd (Join [dir, name]) of
           Inl err \<Rightarrow> Inl (classifyDestReadError dest (Join [dir, name]) err)
         | Inr es' \<Rightarrow>
             (case walk rd dest (Suc seen) [(Join [dir, name], es')] of
                Inl err \<Rightarrow> Inl err
              | Inr s \<Rightarrow> walk rd dest s [(dir, es)])))"
  using walk_append[of rd dest "Suc seen" "[(Join [dir, name], _)]" "[(dir, es)]"]
  by (simp add: Let_def split: sum.split)

subsection \<open>What passes\<close>

text \<open>Below these entries of a directory there are only directories, \<open>n\<close> in all.\<close>

inductive dirs_only :: "ReadDir \<Rightarrow> string \<Rightarrow> dirEntry list \<Rightarrow> nat \<Rightarrow> bool" for rd where
  none: "dirs_only rd dir [] 0"
| entry: "rd (Join [dir, name]) = Inr es' \<Longrightarrow> dirs_only rd (Join [dir, name]) es' k \<Longrightarrow> dirs_only rd dir es n \<Longrightarrow>
    dirs_only rd dir ((name, True) # es) (Suc (k + n))"

lemma walk_complete:
  "dirs_only rd dir es n \<Longrightarrow> seen + n \<le> scaffoldWalkEntryCeiling \<Longrightarrow>
   walk rd dest seen ((dir, es) # frames) = walk rd dest (seen + n) frames"
proof (induction arbitrary: seen frames rule: dirs_only.induct)
  case (entry dir name es' k es n)
  have "walk rd dest (Suc seen) ((Join [dir, name], es') # (dir, es) # frames) =
      walk rd dest (Suc seen + k) ((dir, es) # frames)"
    using entry by simp
  also have "\<dots> = walk rd dest (Suc seen + k + n) frames" using entry by simp
  finally show ?case using entry by (simp add: Let_def add.assoc)
qed simp

lemma walk_sound:
  "walk rd dest seen fs = Inr s \<Longrightarrow>
   \<exists>ns. list_all2 (\<lambda>(dir, es). dirs_only rd dir es) fs ns \<and> s = seen + sum_list ns \<and>
     (seen \<le> scaffoldWalkEntryCeiling \<longrightarrow> s \<le> scaffoldWalkEntryCeiling)"
proof (induction rd dest seen fs rule: walk.induct)
  case (2 rd dest seen dir frames)
  then obtain ns where "list_all2 (\<lambda>(dir, es). dirs_only rd dir es) frames ns" "s = seen + sum_list ns"
    "seen \<le> scaffoldWalkEntryCeiling \<longrightarrow> s \<le> scaffoldWalkEntryCeiling" by auto
  then show ?case by (intro exI[of _ "0 # ns"]) (simp add: none)
next
  case (3 rd dest seen dir name isDir es frames)
  then obtain es' where p: "\<not> Suc seen > scaffoldWalkEntryCeiling" "isDir" "rd (Join [dir, name]) = Inr es'"
    and w: "walk rd dest (Suc seen) ((Join [dir, name], es') # (dir, es) # frames) = Inr s"
    by (auto simp: Let_def split: if_splits sum.splits)
  from 3(1)[OF p(1) refl _ p(3) w] p(2) obtain ns where ns:
    "list_all2 (\<lambda>(dir, es). dirs_only rd dir es) ((Join [dir, name], es') # (dir, es) # frames) ns"
    "s = Suc seen + sum_list ns" "Suc seen \<le> scaffoldWalkEntryCeiling \<longrightarrow> s \<le> scaffoldWalkEntryCeiling" by auto
  then obtain k n ns' where "ns = k # n # ns'" "dirs_only rd (Join [dir, name]) es' k" "dirs_only rd dir es n"
    "list_all2 (\<lambda>(dir, es). dirs_only rd dir es) frames ns'"
    by (auto simp: list_all2_Cons1)
  then show ?case using p ns(2,3)
    by (intro exI[of _ "Suc (k + n) # ns'"]) (simp add: entry)
qed simp

text \<open>The entries below a destination, as paths with the flag.\<close>

inductive below :: "ReadDir \<Rightarrow> string \<Rightarrow> string \<Rightarrow> bool \<Rightarrow> bool" for rd dest where
  top: "rd dest = Inr es \<Longrightarrow> (name, d) \<in> set es \<Longrightarrow> below rd dest (Join [dest, name]) d"
| deeper: "below rd dest q True \<Longrightarrow> rd q = Inr es \<Longrightarrow> (name, d) \<in> set es \<Longrightarrow> below rd dest (Join [q, name]) d"

lemma dirs_only_mem:
  "dirs_only rd dir es n \<Longrightarrow> (name, d) \<in> set es \<Longrightarrow>
   d \<and> (\<exists>es' k. rd (Join [dir, name]) = Inr es' \<and> dirs_only rd (Join [dir, name]) es' k)"
  by (induction rule: dirs_only.induct) auto

lemma dirs_only_below:
  assumes "rd dest = Inr es" "dirs_only rd dest es n" "below rd dest p d"
  shows "d \<and> (\<exists>es' k. rd p = Inr es' \<and> dirs_only rd p es' k)"
  using assms(3)
proof induction
  case (top es' name d)
  then have "(name, d) \<in> set es" using assms(1) by simp
  then show ?case by (rule dirs_only_mem[OF assms(2)])
next
  case (deeper q es' name d)
  then obtain k where "dirs_only rd q es' k" by auto
  then show ?case using deeper(3) by (rule dirs_only_mem)
qed

lemma guard_passes_iff:
  "ensureMountpointShadowsNoContent rd dest = None \<longleftrightarrow>
     (\<exists>es n. rd dest = Inr es \<and> dirs_only rd dest es n \<and> n \<le> scaffoldWalkEntryCeiling)"
proof
  assume "ensureMountpointShadowsNoContent rd dest = None"
  then obtain es s where "rd dest = Inr es" "walk rd dest 0 [(dest, es)] = Inr s"
    by (auto simp: ensureMountpointShadowsNoContent_def split: sum.splits)
  then show "\<exists>es n. rd dest = Inr es \<and> dirs_only rd dest es n \<and> n \<le> scaffoldWalkEntryCeiling"
    using walk_sound[of rd dest 0 "[(dest, es)]" s] by (auto simp: list_all2_Cons1)
next
  assume "\<exists>es n. rd dest = Inr es \<and> dirs_only rd dest es n \<and> n \<le> scaffoldWalkEntryCeiling"
  then obtain es n where "rd dest = Inr es" "walk rd dest 0 [(dest, es)] = walk rd dest n []"
    using walk_complete[of rd dest _ _ 0 dest "[]"] by auto
  then show "ensureMountpointShadowsNoContent rd dest = None"
    by (simp add: ensureMountpointShadowsNoContent_def)
qed

text \<open>
  C22. The guard lets a mount through exactly when its destination can be read to the end and holds
  directories only, at most 4096 of them; then no entry below the destination, at any depth, is anything
  but a directory.  The walk ends on every file system, one with cycles included.
\<close>

theorem guard_exact:
  "(ensureMountpointShadowsNoContent rd dest = None \<longleftrightarrow>
      (\<exists>es n. rd dest = Inr es \<and> dirs_only rd dest es n \<and> n \<le> 4096)) \<and>
   (ensureMountpointShadowsNoContent rd dest = None \<and> below rd dest p d \<longrightarrow> d)"
  using guard_passes_iff[of rd dest] dirs_only_below[of rd dest _ _ p d]
  unfolding scaffoldWalkEntryCeiling_def by blast

definition ex_tree :: ReadDir where
  "ex_tree d =
     (if d = ''/m'' then Inr [(''outputs'', True), (''uploads'', True)]
      else if d = ''/f'' then Inr [(''notes'', False)]
      else if d \<in> {''/m/outputs'', ''/m/uploads''} then Inr [] else Inl (Sentinel Os_ErrNotExist))"

theorem guard_exact_witness:
  "ensureMountpointShadowsNoContent ex_tree ''/m'' = None \<and> ensureMountpointShadowsNoContent ex_tree ''/f'' \<noteq> None"
proof -
  have j: "Join [''/m'', ''outputs''] = ''/m/outputs''" "Join [''/m'', ''uploads''] = ''/m/uploads''"
    "Join [''/f'', ''notes''] = ''/f/notes''" by code_simp+
  have "dirs_only ex_tree ''/m'' [(''outputs'', True), (''uploads'', True)] (Suc (0 + Suc (0 + 0)))"
    by (intro dirs_only.entry[where es' = "[]"] dirs_only.none) (simp_all add: j ex_tree_def)
  moreover have "below ex_tree ''/f'' ''/f/notes'' False"
    using below.top[of ex_tree "''/f''" "[(''notes'', False)]" "''notes''" False] by (simp add: j ex_tree_def)
  ultimately show ?thesis
    using guard_exact[of ex_tree "''/m''"] guard_exact[of ex_tree "''/f''" "''/f/notes''" False]
    by (auto simp: ex_tree_def)
qed

end
