(* ===== verification/Session.thy ===== *)
theory Session
  imports Examples
begin

text \<open>
  A mount at work: any sequence of calls of the methods of \<^verbatim>\<open>Fs\<close> and \<^verbatim>\<open>Object\<close> on a file
  system that \<open>NewFs\<close> built, and what such a sequence puts on the wire.
\<close>

subsection \<open>Sequences of method calls\<close>

inductive fs_step :: "time_Parse \<Rightarrow> range_Decode \<Rightarrow> 'w Fs \<Rightarrow> 'w \<Rightarrow> 'w \<Rightarrow> bool"
  for tp dec f where
  list: "fs_step tp dec f w (snd (List tp f dir w))"
| new_object: "fs_step tp dec f w (snd (NewObject tp f remote w))"
| put: "fs_step tp dec f w (snd (Put f inp sr w))"
| mkdir: "fs_step tp dec f w (snd (Mkdir f dir w))"
| rmdir: "fs_step tp dec f w (snd (Rmdir f dir w))"
| mod_time: "fs_step tp dec f w (snd (ModTime tp f ob w))"
| size: "fs_step tp dec f w (snd (Size tp f ob w))"
| mime_type: "fs_step tp dec f w (snd (MimeType tp f ob w))"
| set_mod_time: "fs_step tp dec f w (snd (SetModTime f ob w))"
| update: "fs_step tp dec f w (snd (Update f ob inp sr w))"
| remove: "fs_step tp dec f w (snd (Remove f ob w))"
| open_file: "fs_step tp dec f w (snd (Open tp dec f ob opts w))"
| copy: "fs_step tp dec f w (snd (Copy tp f so dst w))"
| move: "fs_step tp dec f w (snd (Move tp f so dst w))"
| dir_move: "fs_step tp dec f w (snd (DirMove f srcFs srcRemote dstRemote w))"

lemma readonly_gates [gate_simp]:
  assumes "fs_readOnly f"
  shows "Put f inp sr w = (Inl (Sentinel Fs_ErrorPermissionDenied), w)"
    and "Mkdir f dir w = (Some (Sentinel Fs_ErrorPermissionDenied), w)"
    and "Rmdir f dir w = (Some (Sentinel Fs_ErrorPermissionDenied), w)"
    and "SetModTime f ob w = (Some (Sentinel Fs_ErrorPermissionDenied), w)"
    and "Update f ob inp sr w = ((Some (Sentinel Fs_ErrorPermissionDenied), ob), w)"
    and "Remove f ob w = (Some (Sentinel Fs_ErrorPermissionDenied), w)"
    and "Copy tp f so dst w = ((Inl (Sentinel Fs_ErrorPermissionDenied), so), w)"
    and "Move tp f so dst w = ((Inl (Sentinel Fs_ErrorPermissionDenied), so), w)"
    and "DirMove f srcFs srcRemote dstRemote w = (Some (Sentinel Fs_ErrorPermissionDenied), w)"
  using assms by (simp_all add: Put_def Mkdir_def Rmdir_def SetModTime_def Update_def Remove_def
      Copy_def Move_def transferFile_def DirMove_def)

context fs_reader
begin

lemma readonly_step:
  assumes "fs_step tp dec f w w'" "fs_readOnly f"
  shows "evolves w w'"
  using assms(1)
  by cases (simp_all add: gate_simp[OF assms(2)] lookup_evolves attr_evolves Size_evolves Open_evolves
      evolves_refl)

lemma readonly_run:
  assumes "(fs_step tp dec f)\<^sup>*\<^sup>* w w'" "fs_readOnly f"
  shows "evolves w w'"
  using assms(1) by induction (auto intro: evolves_refl evolves_trans readonly_step[OF _ assms(2)])

end

context fs_backend
begin

lemma step_evolves: "fs_step tp dec f w w' \<Longrightarrow> evolves w w'"
  by (induction rule: fs_step.induct)
     (simp_all add: lookup_evolves attr_evolves Size_evolves Open_evolves Fs_write_evolves
      mutating_evolves copymove_evolves)

lemma run_evolves: "(fs_step tp dec f)\<^sup>*\<^sup>* w w' \<Longrightarrow> evolves w w'"
  by (induction rule: rtranclp_induct) (auto intro: evolves_refl evolves_trans step_evolves)

end

subsection \<open>The client of a mounted file system\<close>





subsection \<open>Properties\<close>





text \<open>
  On a read-only mount each mutating method returns the permission error of rclone and leaves
  the world behind the client, and the object it was called on, as they were: no call is made.
\<close>

theorem readonly_no_call:
  assumes "fs_readOnly f"
  shows "Put f inp sr w = (Inl (Sentinel Fs_ErrorPermissionDenied), w) \<and>
    Mkdir f dir w = (Some (Sentinel Fs_ErrorPermissionDenied), w) \<and>
    Rmdir f dir w = (Some (Sentinel Fs_ErrorPermissionDenied), w) \<and>
    SetModTime f ob w = (Some (Sentinel Fs_ErrorPermissionDenied), w) \<and>
    Update f ob inp sr w = ((Some (Sentinel Fs_ErrorPermissionDenied), ob), w) \<and>
    Remove f ob w = (Some (Sentinel Fs_ErrorPermissionDenied), w) \<and>
    Copy tp f so dst w = ((Inl (Sentinel Fs_ErrorPermissionDenied), so), w) \<and>
    Move tp f so dst w = ((Inl (Sentinel Fs_ErrorPermissionDenied), so), w) \<and>
    DirMove f srcFs srcRemote dstRemote w = (Some (Sentinel Fs_ErrorPermissionDenied), w)"
  by (simp add: gate_simp[OF assms])

theorem readonly_no_call_witness:
  "Remove (ex_fs True) ex_object ex_net = (Some (Sentinel Fs_ErrorPermissionDenied), ex_net)"
  using readonly_no_call[of "ex_fs True"] by (simp add: ex_fs_def)

end
