(* ===== verification/RealPoint.thy ===== *)
theory RealPoint
  imports Orchestrator MountOptions ScaffoldGuard Session
begin

text \<open>
  \<^verbatim>\<open>internal/mounter/realpoint.go\<close> and \<^verbatim>\<open>teardown.go\<close>: the production mount seam.  The record
  \<open>real_env\<close> holds what is not in the sources: the registry and the mount points of rclone's mountlib,
  the kernel's answers to the readiness poll, and how long the detach takes.  The state keeps every mount
  point that was started, by number, and a log of what was done to it.
\<close>

subsection \<open>Waiting for the mount\<close>

text \<open>Times are in nanoseconds.\<close>

definition waitMountReadyTimeout :: int where
  "waitMountReadyTimeout = 30 * time_Second"

definition writebackDrainTimeout :: int where
  "writebackDrainTimeout = 120 * time_Second"

definition unmountDetachGrace :: int where
  "unmountDetachGrace = 3 * time_Second"

definition pollInterval :: int where
  "pollInterval = 100000000"

text \<open>
  What the loop sees at its \<open>k\<close>-th poll: the context before the poll and during the pause, the kernel's
  mount table, the device numbers, and the time the poll takes beyond the pause.
\<close>

record observations =
  ctx_Err :: "nat \<Rightarrow> gerror option"
  ctx_Done :: "nat \<Rightarrow> gerror option"
  CheckMountReady :: "nat \<Rightarrow> string \<Rightarrow> gerror option"
  os_Stat_Dev :: "nat \<Rightarrow> string \<Rightarrow> nat option"
  poll_delay :: "nat \<Rightarrow> nat"

definition mountServes :: "(string \<Rightarrow> nat option) \<Rightarrow> string \<Rightarrow> bool" where
  "mountServes stat dest =
     (let cleanDest = Clean dest; parentPath = Dir cleanDest in
      if parentPath = cleanDest then False
      else
        (case stat cleanDest of
           None \<Rightarrow> False
         | Some dst \<Rightarrow> (case stat parentPath of None \<Rightarrow> False | Some parent \<Rightarrow> dst \<noteq> parent)))"

abbreviation not_ready :: "string \<Rightarrow> gerror \<Rightarrow> gerror" where
  "not_ready dest err \<equiv> wrapf ''mount %q: wait for mount ready: %w'' [FStr dest] err"

text \<open>The loop; \<open>elapsed\<close> is the time since the deadline was set.  The second component counts the polls.\<close>

function wait_loop :: "observations \<Rightarrow> string \<Rightarrow> int \<Rightarrow> int \<Rightarrow> nat \<Rightarrow> gerror option \<times> nat" where
  "wait_loop ob dest timeout elapsed k =
     (case ctx_Err ob k of
        Some err \<Rightarrow> (Some (not_ready dest err), k)
      | None \<Rightarrow>
          (case CheckMountReady ob k dest of
             None \<Rightarrow> (None, Suc k)
           | Some lastErr \<Rightarrow>
               if mountServes (os_Stat_Dev ob k) dest then (None, Suc k)
               else if \<not> elapsed < timeout then (Some (not_ready dest lastErr), Suc k)
               else
                 (case ctx_Done ob k of
                    Some err \<Rightarrow> (Some (not_ready dest err), Suc k)
                  | None \<Rightarrow> wait_loop ob dest timeout (elapsed + pollInterval + int (poll_delay ob k)) (Suc k))))"
  by pat_completeness auto
termination
  by (relation "measure (\<lambda>(ob, dest, timeout, elapsed, k). nat (timeout - elapsed))")
     (auto simp: pollInterval_def)

declare wait_loop.simps [simp del]

definition waitReady :: "bool \<Rightarrow> observations \<Rightarrow> int \<Rightarrow> string \<Rightarrow> gerror option \<times> nat" where
  "waitReady CanCheckMountReady ob readyTimeout dest =
     (if \<not> CanCheckMountReady then (None, 0) else wait_loop ob dest readyTimeout 0 0)"

subsection \<open>Mount points\<close>

text \<open>The detach returns after some time, or never.\<close>

datatype detach = DetachAfter int "gerror option" | DetachNever

datatype point_event = Attach nat | Drain nat int | FlushDirCache nat | Detach nat

record ('p, 'r) realPoint =
  rp_dest :: string
  rp_fs :: "('p net) Fs"
  rp_vfs :: "'r vfs_options_scheme"
  rp_once :: bool
  rp_unmountErr :: "gerror option"

record ('p, 'r) real_state =
  rs_points :: "('p, 'r) realPoint list"
  rs_addr :: nat
  rs_log :: "point_event list"

record ('p, 'r) real_env =
  re_rclone :: rclone
  re_platform :: "'p platform"
  re_vfs :: "'r rclone_vfs"
  re_Find :: "gerror option"
  re_ReadDir :: "nat \<Rightarrow> ReadDir"
  re_Mount :: "nat \<Rightarrow> string \<Rightarrow> mount_options \<Rightarrow> 'r vfs_options_scheme \<Rightarrow> gerror option"
  re_CanCheck :: bool
  re_obs :: "nat \<Rightarrow> observations"
  re_readyTimeout :: int
  re_hasVFS :: bool
  re_detach :: "nat \<Rightarrow> detach"

text \<open>The select between the detach and the timer of the grace.\<close>

definition detach_result :: "('p, 'r) real_env \<Rightarrow> nat \<Rightarrow> gerror option" where
  "detach_result env i =
     (case re_detach env i of
        DetachAfter t err \<Rightarrow> if t < unmountDetachGrace then err else Some (Sentinel ErrDetachDidNotReturn)
      | DetachNever \<Rightarrow> Some (Sentinel ErrDetachDidNotReturn))"

text \<open>
  The body of the \<^verbatim>\<open>sync.Once\<close>: drain the write-back queue, forget the directory cache, then detach, waiting
  no longer than the grace.
\<close>

definition doUnmount ::
  "('p, 'r) real_env \<Rightarrow> nat \<Rightarrow> ('p, 'r) real_state \<Rightarrow> gerror option \<times> ('p, 'r) real_state" where
  "doUnmount env i st =
     (let rp = rs_points st ! i in
      if rp_once rp then (rp_unmountErr rp, st)
      else
        (let drained = (if re_hasVFS env then [Drain i writebackDrainTimeout, FlushDirCache i] else []);
             err = detach_result env i in
         (err, st\<lparr>rs_points := (rs_points st)[i := rp\<lparr>rp_once := True, rp_unmountErr := err\<rparr>],
                  rs_log := rs_log st @ drained @ [Detach i]\<rparr>)))"

text \<open>A point of another type than the seam's own is refused; the seam's own are numbered.\<close>

definition real_unmount ::
  "('p, 'r) real_env \<Rightarrow> point \<Rightarrow> ('p, 'r) real_state \<Rightarrow> gerror option \<times> ('p, 'r) real_state" where
  "real_unmount env p st =
     (if \<not> pt_id p < length (rs_points st) then (Some (msgf ''unmount: unexpected point type %T'' []), st)
      else
        (case doUnmount env (pt_id p) st of
           (None, st') \<Rightarrow> (None, st')
         | (Some err, st') \<Rightarrow> if errors_is err ErrDetachDidNotReturn then (None, st') else (Some err, st')))"

definition real_mountAndWaitReady ::
  "('p, 'r) real_env \<Rightarrow> mountSpec \<Rightarrow> ('p, 'r) real_state \<Rightarrow> point result \<times> ('p, 'r) real_state" where
  "real_mountAndWaitReady env spec st =
     (let m = spec_mount spec; dest = Destination m; i = length (rs_points st) in
      case buildOcufsConfigmap m (spec_readOnly spec) (spec_serviceURL spec) (spec_caCertPEM spec) of
        Inl err \<Rightarrow> (Inl err, st)
      | Inr cm \<Rightarrow>
     (case re_Find env of
        Some err \<Rightarrow> (Inl (wrapf ''mount %q: ocufs backend not registered: %w'' [FStr dest] err), st)
      | None \<Rightarrow>
     (case NewFs (re_rclone env) (re_platform env) (rs_addr st) (''ocufs-'' @ dest) [] cm of
        Inl err \<Rightarrow> (Inl (wrapf ''mount %q: build ocufs Fs: %w'' [FStr dest] err), st)
      | Inr fsObj \<Rightarrow>
     (let st = st\<lparr>rs_addr := Suc (rs_addr st)\<rparr> in
      case buildVFSOptions (re_vfs env) m (spec_readOnly spec) of
        Inl err \<Rightarrow> (Inl (wrapf ''mount %q: build VFS options: %w'' [FStr dest] err), st)
      | Inr vfsOpt \<Rightarrow>
     (case buildMountOptions (re_vfs env) m of
        Inl err \<Rightarrow> (Inl (wrapf ''mount %q: build mount options: %w'' [FStr dest] err), st)
      | Inr mountOpt \<Rightarrow>
     (case ensureMountpointShadowsNoContent (re_ReadDir env i) dest of
        Some err \<Rightarrow> (Inl (wrapf ''mount %q: %w'' [FStr dest] err), st)
      | None \<Rightarrow>
     (case re_Mount env i dest mountOpt vfsOpt of
        Some err \<Rightarrow> (Inl (wrapf ''mount %q: start mount: %w'' [FStr dest] err), st)
      | None \<Rightarrow>
     (let rp = \<lparr>rp_dest = dest, rp_fs = fsObj, rp_vfs = vfsOpt, rp_once = False, rp_unmountErr = None\<rparr>;
          st = st\<lparr>rs_points := rs_points st @ [rp], rs_log := rs_log st @ [Attach i]\<rparr> in
      case waitReady (re_CanCheck env) (re_obs env i) (re_readyTimeout env) dest of
        (Some err, _) \<Rightarrow> (Inl err, snd (doUnmount env i st))
      | (None, _) \<Rightarrow> (Inr \<lparr>pt_id = i, destination = dest\<rparr>, st)))))))))"

definition realPointMounter :: "('p, 'r) real_env \<Rightarrow> ('p, 'r) real_state pointMounter" where
  "realPointMounter env = \<lparr>mountAndWaitReady = real_mountAndWaitReady env, unmount = real_unmount env\<rparr>"

text \<open>\<^verbatim>\<open>newRealPointMounter\<close>: without a mount function there is no seam.\<close>

definition newRealPointMounter :: "bool \<Rightarrow> ('p, 'r) real_env \<Rightarrow> ('p, 'r) real_state pointMounter result" where
  "newRealPointMounter has_fn env =
     (if \<not> has_fn then Inl (Sentinel ErrMountMethodUnavailable)
      else Inr (realPointMounter (env\<lparr>re_readyTimeout := waitMountReadyTimeout\<rparr>)))"

text \<open>The seam of \<^verbatim>\<open>New()\<close>: on a platform without the mount method it is the error.\<close>

definition defaultRealSeam :: "bool \<Rightarrow> ('p, 'r) real_env \<Rightarrow> ('p, 'r) real_state pointMounter result" where
  "defaultRealSeam supported env =
     (if supported then newRealPointMounter True env else Inl (Sentinel ErrMountMethodUnavailable))"

end
