(* ===== verification/UnmountOnce.thy ===== *)
theory UnmountOnce
  imports RealPoint
begin

text \<open>
  \<^verbatim>\<open>realPoint.doUnmount\<close> under concurrent callers: the \<^verbatim>\<open>sync.Once\<close> with its body in steps.  The first
  caller runs the body; callers that arrive meanwhile wait; who arrives later returns the stored result.  The
  atomic \<open>doUnmount\<close> of the production seam is refined by every interleaving.
\<close>

subsection \<open>The steps\<close>

datatype body_pc = AtDrain | AtFlush | AtDetach | AtStore "gerror option"

datatype once = OnceFree | OnceRunning nat body_pc | OnceDone

record once_state =
  on_once :: once
  on_unmountErr :: "gerror option"
  on_log :: "point_event list"
  on_returned :: "nat \<Rightarrow> gerror option option"

inductive once_step :: "('p, 'r) real_env \<Rightarrow> nat \<Rightarrow> once_state \<Rightarrow> once_state \<Rightarrow> bool" for env i where
  enter: "on_once s = OnceFree \<Longrightarrow> on_returned s c = None \<Longrightarrow>
    once_step env i s (s\<lparr>on_once := OnceRunning c (if re_hasVFS env then AtDrain else AtDetach)\<rparr>)"
| drain: "on_once s = OnceRunning c AtDrain \<Longrightarrow>
    once_step env i s (s\<lparr>on_once := OnceRunning c AtFlush, on_log := on_log s @ [Drain i writebackDrainTimeout]\<rparr>)"
| flush: "on_once s = OnceRunning c AtFlush \<Longrightarrow>
    once_step env i s (s\<lparr>on_once := OnceRunning c AtDetach, on_log := on_log s @ [FlushDirCache i]\<rparr>)"
| detach: "on_once s = OnceRunning c AtDetach \<Longrightarrow>
    once_step env i s (s\<lparr>on_once := OnceRunning c (AtStore (detach_result env i)), on_log := on_log s @ [Detach i]\<rparr>)"
| store: "on_once s = OnceRunning c (AtStore r) \<Longrightarrow>
    once_step env i s (s\<lparr>on_once := OnceDone, on_unmountErr := r, on_returned := (on_returned s)(c := Some r)\<rparr>)"
| late: "on_once s = OnceDone \<Longrightarrow> on_returned s c = None \<Longrightarrow>
    once_step env i s (s\<lparr>on_returned := (on_returned s)(c := Some (on_unmountErr s))\<rparr>)"

definition once_start :: "point_event list \<Rightarrow> once_state" where
  "once_start l = \<lparr>on_once = OnceFree, on_unmountErr = None, on_log = l, on_returned = (\<lambda>_. None)\<rparr>"

subsection \<open>The invariant\<close>

text \<open>What the body has logged at each of its points.\<close>

definition drain_events :: "('p, 'r) real_env \<Rightarrow> nat \<Rightarrow> point_event list" where
  "drain_events env i = (if re_hasVFS env then [Drain i writebackDrainTimeout, FlushDirCache i] else [])"

fun done_at :: "('p, 'r) real_env \<Rightarrow> nat \<Rightarrow> body_pc \<Rightarrow> point_event list" where
  "done_at env i AtDrain = []"
| "done_at env i AtFlush = [Drain i writebackDrainTimeout]"
| "done_at env i AtDetach = drain_events env i"
| "done_at env i (AtStore r) = drain_events env i @ [Detach i]"

definition once_inv :: "('p, 'r) real_env \<Rightarrow> nat \<Rightarrow> point_event list \<Rightarrow> once_state \<Rightarrow> bool" where
  "once_inv env i l s \<longleftrightarrow>
     (case on_once s of
        OnceFree \<Rightarrow> on_log s = l \<and> on_returned s = (\<lambda>_. None)
      | OnceRunning c pc \<Rightarrow>
          on_log s = l @ done_at env i pc \<and> on_returned s = (\<lambda>_. None) \<and>
          (pc \<in> {AtDrain, AtFlush} \<longrightarrow> re_hasVFS env) \<and> (\<forall>r. pc = AtStore r \<longrightarrow> r = detach_result env i)
      | OnceDone \<Rightarrow>
          on_log s = l @ done_at env i (AtStore None) \<and> on_unmountErr s = detach_result env i \<and>
          (\<forall>c r. on_returned s c = Some r \<longrightarrow> r = detach_result env i))"

lemma once_step_inv: "once_step env i s s' \<Longrightarrow> once_inv env i l s \<Longrightarrow> once_inv env i l s'"
  by (induction rule: once_step.induct) (auto simp: once_inv_def drain_events_def)

lemma once_reach_inv: "(once_step env i)\<^sup>*\<^sup>* (once_start l) s \<Longrightarrow> once_inv env i l s"
proof (induction rule: rtranclp_induct)
  case base
  show ?case by (simp add: once_inv_def once_start_def)
qed (rule once_step_inv)

subsection \<open>Progress\<close>

definition ends :: "('p, 'r) real_env \<Rightarrow> nat \<Rightarrow> once_state \<Rightarrow> bool" where
  "ends env i s \<longleftrightarrow> (\<exists>s'. (once_step env i)\<^sup>*\<^sup>* s s' \<and> on_once s' = OnceDone)"

lemma ends_step: "once_step env i s t \<Longrightarrow> ends env i t \<Longrightarrow> ends env i s"
  unfolding ends_def by (meson converse_rtranclp_into_rtranclp)

lemma ends_done: "on_once s = OnceDone \<Longrightarrow> ends env i s"
  unfolding ends_def by blast

lemma ends_store: "on_once s = OnceRunning c (AtStore r) \<Longrightarrow> ends env i s"
  by (rule ends_step[OF once_step.store], assumption, rule ends_done, simp)

lemma ends_detach: "on_once s = OnceRunning c AtDetach \<Longrightarrow> ends env i s"
  by (rule ends_step[OF once_step.detach], assumption, rule ends_store, simp)

lemma ends_flush: "on_once s = OnceRunning c AtFlush \<Longrightarrow> ends env i s"
  by (rule ends_step[OF once_step.flush], assumption, rule ends_detach, simp)

lemma ends_drain: "on_once s = OnceRunning c AtDrain \<Longrightarrow> ends env i s"
  by (rule ends_step[OF once_step.drain], assumption, rule ends_flush, simp)

lemma ends_running: "on_once s = OnceRunning c pc \<Longrightarrow> ends env i s"
  by (cases pc) (simp_all add: ends_drain ends_flush ends_detach ends_store)

lemma ends_always: "on_returned s c = None \<Longrightarrow> ends env i s"
proof (cases "on_once s")
  case OnceFree
  assume "on_returned s c = None"
  from once_step.enter[OF OnceFree this] show ?thesis
    by (rule ends_step) (rule ends_running, simp)
qed (auto intro: ends_running ends_done)

lemma returns_eventually:
  assumes "on_returned s c = None"
  shows "\<exists>s'. (once_step env i)\<^sup>*\<^sup>* s s' \<and> on_returned s' c \<noteq> None"
proof -
  obtain s1 where r: "(once_step env i)\<^sup>*\<^sup>* s s1" and d: "on_once s1 = OnceDone"
    using ends_always[OF assms] unfolding ends_def by blast
  show ?thesis
  proof (cases "on_returned s1 c = None")
    case True
    from once_step.late[OF d True, of env i] r show ?thesis
      by (intro exI[of _ "s1\<lparr>on_returned := (on_returned s1)(c := Some (on_unmountErr s1))\<rparr>"])
         (auto intro: rtranclp.rtrancl_into_rtrancl)
  qed (use r in blast)
qed

text \<open>
  C24. Concurrent unmounts of one point: in every interleaving of any number of callers, whoever has
  returned has the result of the one atomic unmount, and by then the log is the log of that unmount: one
  drain, one flush, one detach, in this order.  No caller is stuck: from every state reached, one that has not
  returned can.
\<close>

theorem concurrent_unmount_refines:
  assumes "(once_step env i)\<^sup>*\<^sup>* (once_start (rs_log st)) s" "\<not> rp_once (rs_points st ! i)"
  shows "(on_returned s c = Some r \<longrightarrow>
      r = fst (doUnmount env i st) \<and> on_log s = rs_log (snd (doUnmount env i st))) \<and>
    (on_returned s c = None \<longrightarrow> (\<exists>s'. (once_step env i)\<^sup>*\<^sup>* s s' \<and> on_returned s' c \<noteq> None))"
proof -
  have "fst (doUnmount env i st) = detach_result env i"
    "rs_log (snd (doUnmount env i st)) = rs_log st @ drain_events env i @ [Detach i]"
    using assms(2) by (auto simp: doUnmount_def Let_def drain_events_def)
  then show ?thesis
    using once_reach_inv[OF assms(1)] returns_eventually[of s c env i]
    by (auto simp: once_inv_def split: once.splits)
qed

end
