(* ===== verification/Seam.thy ===== *)
theory Seam
  imports Orchestrator
begin

text \<open>
  The interface \<open>pointMounter\<close> as the orchestrator uses it.  Two contracts of a seam: an invariant of its
  state that both operations keep, and the set of points attached, which a mount extends by the point it
  returns and an unmount reduces.  What a run of the orchestrator makes of them is proved here once.
\<close>

subsection \<open>How a run goes\<close>

text \<open>The point whose own exit wakes the select over the points \<open>ps\<close>.\<close>

definition exited :: "host \<Rightarrow> point list \<Rightarrow> point set" where
  "exited h ps = (case wakes h ps of SignalArrived \<Rightarrow> {} | PointExited i _ \<Rightarrow> {ps ! i})"

lemma blockE:
  assumes "blockUntilTeardown h seam started st = (err, st')"
  obtains points errs where "unmountAll h seam points st = (errs, st')" "set started \<subseteq> set points \<union> exited h started"
proof (cases "wakes h started")
  case SignalArrived
  then show ?thesis using assms that[of started] by (auto simp: blockUntilTeardown_def split: prod.splits)
next
  case (PointExited i e)
  obtain errs where "unmountAll h seam (filter (\<lambda>p. p \<noteq> started ! i) started) st = (errs, st')"
    using assms PointExited by (auto simp: blockUntilTeardown_def Let_def split: prod.splits option.splits)
  then show ?thesis by (rule that) (auto simp: exited_def PointExited)
qed

lemma signalReady_seam: "signalReady h orc n st = (r, st') \<Longrightarrow> seam_state st' = seam_state st"
  by (auto simp: signalReady_def split: if_splits option.splits)

lemma remove_ready_seam: "seam_state (snd (remove_ready h st)) = seam_state st"
  by (auto simp: remove_ready_def split: option.splits)

lemma unmountAll_run:
  assumes "unmountAll h seam points st = (errs, st')"
  shows "st' = snd (run_unmounts seam points (sched h (length points)) (replicate (length points) None) st)"
  using assms by (auto simp: unmountAll_def split: prod.splits)

text \<open>Either the seam was never used, or the loop over the specs ran on it.\<close>

lemma runE:
  assumes "run h orc cfg st = (err, st')"
  obtains "seam_state st' = seam_state st"
  | seam specs st1 st2 err' where "o_seam orc = Some seam \<or> o_seam orc = None \<and> o_newSeam orc = Some (Inr seam)"
      "seam_state st1 = seam_state st" "seam_state st' = seam_state st2"
      "mount_loop h orc seam 0 specs [] st1 = (err', st2)"
proof (cases "\<exists>seam. o_seam orc = Some seam \<or> o_seam orc = None \<and> o_newSeam orc = Some (Inr seam)")
  case False
  then have "st' = st" using assms by (auto simp: run_def split: option.splits sum.splits)
  then show ?thesis using that(1) by simp
next
  case True
  then obtain seam where s: "o_seam orc = Some seam \<or> o_seam orc = None \<and> o_newSeam orc = Some (Inr seam)" by blast
  have specs: "seam_state s2 = seam_state s1 \<or> (\<exists>specs. mount_loop h orc seam 0 specs [] s1 = (e, s2))"
    if "run_specs h orc seam cfg s1 = (e, s2)" for s1 s2 e
    using that by (auto simp: run_specs_def split: sum.splits if_splits)
  obtain e1 st1 where r1: "remove_ready h st = (e1, st1)" by fastforce
  then have st1: "seam_state st1 = seam_state st" using remove_ready_seam[of h st] by simp
  show ?thesis
  proof (cases "ReadyFilePath orc \<noteq> []")
    case False
    then have "run_specs h orc seam cfg st = (err, st')" using assms s by (auto simp: run_def)
    from specs[OF this] show ?thesis using that(1) that(2)[OF s refl refl] by blast
  next
    case rf: True
    obtain e2 st2 where r2: "run_specs h orc seam cfg st1 = (e2, st2)" by fastforce
    have "st' = st1 \<or> st' = snd (remove_ready h st2)"
      using assms s rf r1 r2 by (auto simp: run_def split: option.splits)
    then have "seam_state st' = seam_state st1 \<or> seam_state st' = seam_state st2"
      using remove_ready_seam by auto
    then show ?thesis using specs[OF r2] that(1) that(2)[OF s st1, of st2] st1 by metis
  qed
qed

subsection \<open>An invariant of the seam\<close>

locale seam_invariant =
  fixes seam :: "'e pointMounter" and inv :: "'e \<Rightarrow> bool"
  assumes mount_keeps: "inv e \<Longrightarrow> mountAndWaitReady seam spec e = (r, e') \<Longrightarrow> inv e'"
    and unmount_keeps: "inv e \<Longrightarrow> unmount seam p e = (u, e') \<Longrightarrow> inv e'"
begin

lemma run_unmounts_keeps:
  "inv (seam_state st) \<Longrightarrow> inv (seam_state (snd (run_unmounts seam points is cs st)))"
proof (induction "is" arbitrary: cs st)
  case (Cons i js)
  obtain u e' where u: "unmount seam (points ! i) (seam_state st) = (u, e')" by fastforce
  from unmount_keeps[OF Cons.prems u] show ?case using u Cons.IH by (simp add: Let_def)
qed simp

lemma unmountAll_keeps:
  "unmountAll h seam points st = (errs, st') \<Longrightarrow> inv (seam_state st) \<Longrightarrow> inv (seam_state st')"
  using run_unmounts_keeps unmountAll_run by metis

lemma mount_loop_keeps:
  "mount_loop h orc seam k specs started st = (err, st') \<Longrightarrow> inv (seam_state st) \<Longrightarrow> inv (seam_state st')"
proof (induction specs arbitrary: k started st)
  case Nil
  from Nil.prems(1) show ?case
    by (cases rule: mount_loop_NilE)
       (use Nil.prems(2) unmountAll_keeps signalReady_seam in \<open>metis shutdownE blockE\<close>)+
next
  case (Cons spec specs)
  from Cons.prems(1) show ?case
  proof (cases rule: mount_loop_ConsE)
    case stop
    then show ?thesis using Cons.prems(2) unmountAll_keeps by (metis shutdownE)
  next
    case (failed e e' errs)
    then show ?thesis using unmountAll_keeps[OF failed(2)] mount_keeps[OF Cons.prems(2)] by simp
  next
    case (mounted p e')
    then show ?thesis using Cons.IH[OF mounted(2)] mount_keeps[OF Cons.prems(2)] by simp
  qed
qed

end

subsection \<open>The points attached\<close>

locale mount_seam =
  fixes seam :: "'e pointMounter" and attached :: "'e \<Rightarrow> point set"
  assumes mount_up: "mountAndWaitReady seam spec e = (Inr p, e') \<Longrightarrow> attached e' \<subseteq> insert p (attached e)"
    and mount_failed: "mountAndWaitReady seam spec e = (Inl err, e') \<Longrightarrow> attached e' \<subseteq> attached e"
    and unmounted: "unmount seam p e = (u, e') \<Longrightarrow> attached e' \<subseteq> attached e - {p}"
begin

lemma run_unmounts_attached:
  "attached (seam_state (snd (run_unmounts seam points is cs st))) \<subseteq>
     attached (seam_state st) - (\<lambda>i. points ! i) ` set is"
proof (induction "is" arbitrary: cs st)
  case (Cons i js)
  obtain u e' where u: "unmount seam (points ! i) (seam_state st) = (u, e')" by fastforce
  let ?cs = "cs[i := map_option (\<lambda>x. wrapf ''unmount %q: %w'' [FStr (destination (points ! i))] x) u]"
  let ?st = "st\<lparr>seam_state := e', s_log := s_log st @ [Unmounted (points ! i)]\<rparr>"
  show ?case using Cons.IH[of ?cs ?st] unmounted[OF u] by (auto simp: Let_def u)
qed simp

lemma unmountAll_attached:
  assumes "host_ok h" "unmountAll h seam points st = (errs, st')"
  shows "attached (seam_state st') \<subseteq> attached (seam_state st) - set points"
proof -
  have "set (sched h (length points)) = {..<length points}" using assms(1) by (simp add: host_ok_def)
  then have e: "(\<lambda>i. points ! i) ` set (sched h (length points)) = set points"
    unfolding set_conv_nth[of points] by auto
  show ?thesis
    using run_unmounts_attached[of points "sched h (length points)" "replicate (length points) None" st]
    unfolding unmountAll_run[OF assms(2)] e .
qed

lemma mount_loop_attached:
  assumes ok: "host_ok h" and "mount_loop h orc seam k specs started st = (err, st')"
  shows "\<exists>ps. attached (seam_state st') \<subseteq> (attached (seam_state st) - set started) \<union> exited h ps"
  using assms(2)
proof (induction specs arbitrary: k started st)
  case Nil
  from Nil show ?case
  proof (cases rule: mount_loop_NilE)
    case stop
    obtain errs where "unmountAll h seam started st = (errs, st')" by (rule shutdownE[OF stop(1)])
    from unmountAll_attached[OF ok this] show ?thesis by blast
  next
    case (unready e st1 errs)
    from unmountAll_attached[OF ok unready(2)] show ?thesis unfolding signalReady_seam[OF unready(1)] by blast
  next
    case (served st1)
    from served(2) obtain points errs where u: "unmountAll h seam points st1 = (errs, st')"
      and "set started \<subseteq> set points \<union> exited h started" by (rule blockE)
    with unmountAll_attached[OF ok u] show ?thesis unfolding signalReady_seam[OF served(1)] by blast
  qed
next
  case (Cons spec specs)
  from Cons.prems show ?case
  proof (cases rule: mount_loop_ConsE)
    case stop
    obtain errs where "unmountAll h seam started st = (errs, st')" by (rule shutdownE[OF stop(1)])
    from unmountAll_attached[OF ok this] show ?thesis by blast
  next
    case (failed e e' errs)
    have "attached (seam_state st') \<subseteq> attached e' - set started" using unmountAll_attached[OF ok failed(2)] by simp
    then show ?thesis using mount_failed[OF failed(1)] by blast
  next
    case (mounted p e')
    from Cons.IH[OF mounted(2)] obtain ps where
      "attached (seam_state st') \<subseteq> (attached e' - insert p (set started)) \<union> exited h ps" by auto
    then show ?thesis using mount_up[OF mounted(1)] by blast
  qed
qed

end

end
