(* ===== verification/Orchestrator_Correct.thy ===== *)
theory Orchestrator_Correct
  imports Orchestrator Mountcfg_Correct
begin

text \<open>
  What the orchestrator promises of a session: readiness is announced only while every mount is up,
  every started mount is unmounted once, the ready-file is retracted, the errors of a teardown do not
  depend on the scheduler, and no two mounts serve the same path.
\<close>

subsection \<open>Specs\<close>

definition spec_of :: "'e orchestrator \<Rightarrow> Mount \<Rightarrow> mountSpec" where
  "spec_of orc m =
     \<lparr>spec_mount = m, spec_readOnly = (Readonly m = Some True),
      spec_serviceURL = o_serviceURL orc, spec_caCertPEM = o_caCertPEM orc\<rparr>"

definition apart :: "string \<Rightarrow> string \<Rightarrow> bool" where
  "apart a b \<longleftrightarrow> a \<noteq> b \<and> \<not> nested b a"

abbreviation cleaned :: "Mount \<Rightarrow> string" where
  "cleaned m \<equiv> Clean (Destination m)"

lemma specs_loop_Inr:
  "specs_loop orc ms seen specs = Inr out \<longleftrightarrow>
     out = specs @ map (spec_of orc) ms \<and> (\<forall>m \<in> set ms. MemoryStoreID m = None) \<and>
     sorted_wrt apart (map cleaned ms) \<and> (\<forall>a \<in> set seen. \<forall>m \<in> set ms. apart a (cleaned m))"
proof (induction orc ms seen specs rule: specs_loop.induct)
  case (1 orc seen specs)
  then show ?case by auto
next
  case (2 orc m ms seen specs)
  show ?case
  proof (cases "MemoryStoreID m = None \<and> cleaned m \<notin> set seen \<and> find (nested (cleaned m)) seen = None")
    case True
    then have "\<forall>a \<in> set seen. apart a (cleaned m)" by (auto simp: apart_def find_None_iff)
    with True 2[OF refl refl] show ?thesis by (auto simp: Let_def spec_of_def)
  next
    case False
    then have "MemoryStoreID m \<noteq> None \<or> (\<exists>a \<in> set seen. \<not> apart a (cleaned m))"
      by (auto simp: apart_def find_None_iff)
    moreover have "\<exists>err. specs_loop orc (m # ms) seen specs = Inl err"
      using False by (auto simp: Let_def split: option.splits)
    ultimately show ?thesis by (auto simp del: specs_loop.simps)
  qed
qed

lemma buildSpecs_Inr:
  "buildSpecs orc cfg = Inr specs \<longleftrightarrow>
     (let ms = (case Mounts cfg of None \<Rightarrow> [] | Some ms \<Rightarrow> ms) in
      specs = map (spec_of orc) ms \<and> (\<forall>m \<in> set ms. MemoryStoreID m = None) \<and>
      sorted_wrt apart (map cleaned ms))"
  by (simp add: buildSpecs_def specs_loop_Inr Let_def)

text \<open>The paths a mount at a cleaned destination serves.\<close>

definition serves :: "string \<Rightarrow> string \<Rightarrow> bool" where
  "serves d p \<longleftrightarrow> p = d \<or> HasPrefix p (if d = ''/'' then d else d @ ''/'')"



subsection \<open>The log of a run\<close>

definition mount_count :: "Config \<Rightarrow> nat" where
  "mount_count cfg = (case Mounts cfg of None \<Rightarrow> 0 | Some ms \<Rightarrow> length ms)"

lemma buildSpecs_length: "buildSpecs orc cfg = Inr specs \<Longrightarrow> length specs = mount_count cfg"
  by (auto simp: buildSpecs_Inr mount_count_def Let_def split: option.splits)

text \<open>A run logs the mounts that came up, how the start ended, and the unmounts, in this order.\<close>

definition run_shape :: "host \<Rightarrow> nat \<Rightarrow> gerror option \<Rightarrow> event list \<Rightarrow> point list \<Rightarrow> event list \<Rightarrow> point list \<Rightarrow> bool" where
  "run_shape h n err l ps mid us \<longleftrightarrow>
     l = map Mounted ps @ mid @ map Unmounted us \<and>
     (ps = [] \<and> mid = [] \<or> start_outcome h 0 n (length ps) n mid err) \<and>
     torn_down h (list_ex is_ready mid) ps us"

lemma run_shape_empty: "run_shape h n err [] [] [] []"
  by (simp add: run_shape_def torn_down_def)

lemma run_specs_log:
  assumes ok: "host_ok h" and eq: "run_specs h orc seam cfg st = (err, st')"
  shows "\<exists>l ps mid us. s_log st' = s_log st @ l \<and> run_shape h (mount_count cfg) err l ps mid us"
proof (cases "\<exists>specs. buildSpecs orc cfg = Inr specs \<and> specs \<noteq> []")
  case False
  then have "st' = st" using eq by (auto simp: run_specs_def split: sum.splits if_splits)
  then show ?thesis using run_shape_empty by (intro exI[of _ "[]"]) auto
next
  case True
  then obtain specs where specs: "buildSpecs orc cfg = Inr specs" "specs \<noteq> []" by blast
  then have "mount_loop h orc seam 0 specs [] st = (err, st')" using eq by (simp add: run_specs_def)
  from mount_loop_log[OF ok this] obtain ps mid us where
    "s_log st' = s_log st @ map Mounted ps @ mid @ map Unmounted us"
    "start_outcome h 0 (length specs) (length ps) (length specs) mid err"
    "torn_down h (list_ex is_ready mid) ps us" by auto
  then show ?thesis unfolding run_shape_def buildSpecs_length[OF specs(1)] by blast
qed

lemma remove_ready_log:
  "\<exists>r. s_log (snd (remove_ready h st)) = s_log st @ r \<and> set r \<subseteq> {ReadyRemoved}"
  by (auto simp: remove_ready_def split: option.splits)

lemma run_log:
  assumes ok: "host_ok h" and eq: "run h orc cfg st = (err, st')"
  obtains pre l post ps mid us where "s_log st' = s_log st @ pre @ l @ post"
    "set pre \<subseteq> {ReadyRemoved}" "set post \<subseteq> {ReadyRemoved}"
    "run_shape h (mount_count cfg) err l ps mid us"
proof (cases "\<exists>seam st1 st2. run_specs h orc seam cfg st1 = (err, st2) \<and>
    (st1 = st \<and> st2 = st' \<or> st1 = snd (remove_ready h st) \<and> st' = snd (remove_ready h st2))")
  case True
  then obtain seam st1 st2 where r: "run_specs h orc seam cfg st1 = (err, st2)"
    and st: "st1 = st \<and> st2 = st' \<or> st1 = snd (remove_ready h st) \<and> st' = snd (remove_ready h st2)" by blast
  obtain l ps mid us where l: "s_log st2 = s_log st1 @ l" "run_shape h (mount_count cfg) err l ps mid us"
    using run_specs_log[OF ok r] by blast
  obtain pre where pre: "s_log st1 = s_log st @ pre" "set pre \<subseteq> {ReadyRemoved}"
    using st remove_ready_log[of h st] by fastforce
  obtain post where post: "s_log st' = s_log st2 @ post" "set post \<subseteq> {ReadyRemoved}"
    using st remove_ready_log[of h st2] by fastforce
  show ?thesis by (rule that[OF _ pre(2) post(2) l(2)]) (simp add: pre(1) post(1) l(1))
next
  case False
  then have "st' = st \<or> st' = snd (remove_ready h st)"
    using eq by (auto simp: run_def split: sum.splits option.splits if_splits prod.splits)
  then obtain pre where "s_log st' = s_log st @ pre" "set pre \<subseteq> {ReadyRemoved}"
    using remove_ready_log[of h st] by fastforce
  then show ?thesis by (intro that[of pre "[]" "[]"]) (auto intro: run_shape_empty)
qed

subsection \<open>Readiness\<close>

lemma start_outcome_ready:
  assumes "start_outcome h 0 n m tot mid err" "R \<in> set mid" "is_ready R"
  shows "mid = [R]" "m = n" "\<forall>j \<le> n. \<not> polls h j"
  using assms by (auto simp: start_outcome_def)

text \<open>
  C15. Readiness is announced only when every mount of the configuration has come up and no poll of the
  signal channel saw a signal; after it the log holds no further mount and no second announcement,
  only the unmounts and the retraction of the ready-file.
\<close>

theorem readiness_after_all_up:
  assumes "host_ok h" "run h orc cfg st = (err, st')" "s_log st = []"
    and split: "s_log st' = xs @ R # ys" and ready: "is_ready R"
  shows "(\<exists>ps. filter (\<lambda>e. e \<noteq> ReadyRemoved) xs = map Mounted ps \<and> length ps = mount_count cfg) \<and>
    (\<forall>j \<le> mount_count cfg. \<not> polls h j) \<and> (\<forall>e \<in> set ys. e = ReadyRemoved \<or> (\<exists>p. e = Unmounted p))"
proof -
  obtain pre l post ps mid us where log: "s_log st' = s_log st @ pre @ l @ post"
    and pp: "set pre \<subseteq> {ReadyRemoved}" "set post \<subseteq> {ReadyRemoved}"
    and l: "run_shape h (mount_count cfg) err l ps mid us"
    by (rule run_log[OF assms(1,2)])
  have out: "\<not> is_ready e" if "e \<in> set pre \<union> Mounted ` set ps \<union> Unmounted ` set us \<union> set post" for e
    using that pp by auto
  have eq: "xs @ R # ys = pre @ map Mounted ps @ mid @ map Unmounted us @ post"
    using log l split assms(3) by (simp add: run_shape_def)
  then have "R \<in> set (pre @ map Mounted ps @ mid @ map Unmounted us @ post)"
    by (metis in_set_conv_decomp)
  then have R: "R \<in> set mid" using out[of R] ready by auto
  then have so: "start_outcome h 0 (mount_count cfg) (length ps) (mount_count cfg) mid err"
    using l by (auto simp: run_shape_def)
  note mid = start_outcome_ready[OF so R ready]
  have "R \<notin> set (pre @ map Mounted ps)" "R \<notin> set (map Unmounted us @ post)"
    using out[of R] ready by auto
  from append_Cons_eq_iff[OF this, of xs ys] eq mid(1)
  have xs: "xs = pre @ map Mounted ps" "ys = map Unmounted us @ post" by auto
  have "filter (\<lambda>e. e \<noteq> ReadyRemoved) xs = map Mounted ps"
    unfolding xs using pp(1) by (auto simp: filter_empty_conv filter_id_conv)
  moreover have "\<forall>e \<in> set ys. e = ReadyRemoved \<or> (\<exists>p. e = Unmounted p)" unfolding xs using pp(2) by auto
  ultimately show ?thesis using mid(2,3) by blast
qed

text \<open>A session of two mounts that a signal ends: the seam numbers its points.\<close>

definition ex_host :: host where
  "ex_host =
     \<lparr>polls = (\<lambda>_. False), wakes = (\<lambda>_. SignalArrived), sched = (\<lambda>n. rev [0..<n]),
      remove_error = (\<lambda>_. None), create_error = None, close_error = None\<rparr>"

definition ex_seam :: "nat pointMounter" where
  "ex_seam =
     \<lparr>mountAndWaitReady = (\<lambda>spec e.
        if Destination (spec_mount spec) = ''/mnt/bad'' then (Inl (msgf ''no fuse'' []), e)
        else (Inr \<lparr>pt_id = e, destination = Destination (spec_mount spec)\<rparr>, Suc e)),
      unmount = (\<lambda>p e. (if pt_id p = 0 then None else Some (msgf ''busy'' []), e))\<rparr>"

definition ex_orc :: "nat orchestrator" where
  "ex_orc =
     \<lparr>o_seam = Some ex_seam, o_newSeam = None, ReadyFilePath = ''/run/ready'', o_serviceURL = ''https://s'',
      o_caCertPEM = ''pem''\<rparr>"

definition ex_cfg :: "string \<Rightarrow> Config" where
  "ex_cfg d =
     \<lparr>SchemaVersion = ''v1'', ServiceURL = ''https://s'', CACertPEM = ''pem'',
      Mounts = Some [ex_mount, ex_mount\<lparr>Destination := d\<rparr>], BackendCacheTTL = None\<rparr>"

definition ex_session :: "nat session" where
  "ex_session = \<lparr>seam_state = 0, ready_file = True, removals = 0, s_log = []\<rparr>"

abbreviation ex_point :: "nat \<Rightarrow> string \<Rightarrow> point" where
  "ex_point i d \<equiv> \<lparr>pt_id = i, destination = d\<rparr>"

lemma ex_host_ok: "host_ok ex_host"
  by (auto simp: host_ok_def ex_host_def)

lemma ex_Clean: "Clean ''/mnt/a'' = ''/mnt/a''" "Clean ''/mnt/b'' = ''/mnt/b''" "Clean ''/mnt/bad'' = ''/mnt/bad''"
  by code_simp+

lemmas ex_run_simps = run_def run_specs_def buildSpecs_def remove_ready_def signalReady_def nested_def HasPrefix_def
  unmountAll_def blockUntilTeardown_def ex_host_def ex_seam_def ex_orc_def ex_cfg_def ex_session_def
  ex_mount_def ex_Clean Let_def errors_Join_def upt_rec

lemma ex_run:
  "run ex_host ex_orc (ex_cfg ''/mnt/b'') ex_session =
     (Some (ErrorsJoin [wrapf ''unmount %q: %w'' [FStr ''/mnt/b''] (msgf ''busy'' [])]),
      \<lparr>seam_state = 2, ready_file = False, removals = 2,
       s_log = [ReadyRemoved, Mounted (ex_point 0 ''/mnt/a''), Mounted (ex_point 1 ''/mnt/b''), ReadyCreated,
                Unmounted (ex_point 1 ''/mnt/b''), Unmounted (ex_point 0 ''/mnt/a''), ReadyRemoved]\<rparr>)"
  by (simp add: ex_run_simps numeral_2_eq_2)

lemma ex_run_bad:
  "run ex_host ex_orc (ex_cfg ''/mnt/bad'') ex_session =
     (Some (ErrorsJoin [wrapf ''mount %q: %w'' [FStr ''/mnt/bad''] (msgf ''no fuse'' [])]),
      \<lparr>seam_state = 1, ready_file = False, removals = 2,
       s_log = [ReadyRemoved, Mounted (ex_point 0 ''/mnt/a''), MountFailed ''/mnt/bad'',
                Unmounted (ex_point 0 ''/mnt/a'')]\<rparr>)"
  by (simp add: ex_run_simps numeral_2_eq_2)

theorem readiness_after_all_up_witness:
  "\<exists>ps. [Mounted (ex_point 0 ''/mnt/a''), Mounted (ex_point 1 ''/mnt/b'')] = map Mounted ps \<and> length ps = 2"
  using readiness_after_all_up[OF ex_host_ok ex_run, of "[ReadyRemoved, Mounted (ex_point 0 ''/mnt/a''), Mounted (ex_point 1 ''/mnt/b'')]" ReadyCreated]
  by (simp add: ex_session_def mount_count_def ex_cfg_def numeral_2_eq_2)

subsection \<open>Teardown\<close>

fun mounted_by :: "event \<Rightarrow> point list" where
  "mounted_by (Mounted p) = [p]"
| "mounted_by _ = []"

fun unmounted_by :: "event \<Rightarrow> point list" where
  "unmounted_by (Unmounted p) = [p]"
| "unmounted_by _ = []"

lemma by_map [simp]:
  "concat (map (mounted_by \<circ> Mounted) ps) = ps" "concat (map (unmounted_by \<circ> Unmounted) ps) = ps"
  "concat (map (mounted_by \<circ> Unmounted) ps) = []" "concat (map (unmounted_by \<circ> Mounted) ps) = []"
  "list_ex is_ready (map Mounted ps) = False" "list_ex is_ready (map Unmounted ps) = False"
  by (induction ps) auto

lemma removed_only:
  assumes "set l \<subseteq> {ReadyRemoved}"
  shows "concat (map mounted_by l) = []" "concat (map unmounted_by l) = []" "list_ex is_ready l = False"
  using assms by (induction l) auto

lemma start_outcome_mid:
  assumes "start_outcome h k n m tot mid err"
  shows "concat (map mounted_by mid) = []" "concat (map unmounted_by mid) = []"
  using assms by (auto simp: start_outcome_def)

text \<open>
  C16. Whatever ends a session, each point that came up is unmounted exactly once, in some order; the
  one exception is the point whose own exit ended a session that was ready.
\<close>

theorem every_mount_torn_down:
  assumes "host_ok h" "run h orc cfg st = (err, st')" "s_log st = []"
  shows "torn_down h (list_ex is_ready (s_log st'))
    (concat (map mounted_by (s_log st'))) (concat (map unmounted_by (s_log st')))"
proof -
  obtain pre l post ps mid us where log: "s_log st' = s_log st @ pre @ l @ post"
    and pp: "set pre \<subseteq> {ReadyRemoved}" "set post \<subseteq> {ReadyRemoved}"
    and l: "run_shape h (mount_count cfg) err l ps mid us"
    by (rule run_log[OF assms(1,2)])
  have "concat (map mounted_by mid) = []" "concat (map unmounted_by mid) = []"
    using l start_outcome_mid by (auto simp: run_shape_def)
  then show ?thesis
    using l removed_only[OF pp(1)] removed_only[OF pp(2)] unfolding log assms(3) run_shape_def
    by (simp del: concat_eq_Nil_conv)
qed

theorem every_mount_torn_down_witness:
  "torn_down ex_host True [ex_point 0 ''/mnt/a'', ex_point 1 ''/mnt/b''] [ex_point 1 ''/mnt/b'', ex_point 0 ''/mnt/a'']"
  using every_mount_torn_down[OF ex_host_ok ex_run] by (simp add: ex_session_def)

text \<open>
  When a mount fails to start, the run returns an error whose first part names that destination and
  wraps the seam's error, and readiness is never announced.
\<close>

theorem failed_start_named:
  assumes "host_ok h" "run h orc cfg st = (err, st')" "s_log st = []" "MountFailed d \<in> set (s_log st')"
  shows "(\<exists>e es. err = Some (ErrorsJoin (wrapf ''mount %q: %w'' [FStr d] e # es))) \<and>
    \<not> list_ex is_ready (s_log st')"
proof -
  obtain pre l post ps mid us where log: "s_log st' = s_log st @ pre @ l @ post"
    and pp: "set pre \<subseteq> {ReadyRemoved}" "set post \<subseteq> {ReadyRemoved}"
    and l: "run_shape h (mount_count cfg) err l ps mid us"
    by (rule run_log[OF assms(1,2)])
  have "MountFailed d \<in> set mid" using assms(3,4) log pp l by (auto simp: run_shape_def)
  then have mid: "mid = [MountFailed d]" "\<exists>e es. err = errors_Join (wrapf ''mount %q: %w'' [FStr d] e # es)"
    using l unfolding run_shape_def start_outcome_def by (force, force)
  have "\<not> list_ex is_ready (s_log st')"
    using l removed_only[OF pp(1)] removed_only[OF pp(2)] unfolding log assms(3) run_shape_def mid(1) by simp
  then show ?thesis using mid(2) by (simp add: errors_Join_def)
qed

theorem failed_start_named_witness:
  "\<exists>e es. fst (run ex_host ex_orc (ex_cfg ''/mnt/bad'') ex_session) =
     Some (ErrorsJoin (wrapf ''mount %q: %w'' [FStr ''/mnt/bad''] e # es))"
  using failed_start_named[OF ex_host_ok ex_run_bad, of "''/mnt/bad''"]
  unfolding ex_run_bad by (simp add: ex_session_def)





subsection \<open>The ready-file\<close>

definition seam_of :: "'e orchestrator \<Rightarrow> 'e pointMounter option" where
  "seam_of orc =
     (case o_seam orc of Some seam \<Rightarrow> Some seam | None \<Rightarrow> (case o_newSeam orc of Some (Inr seam) \<Rightarrow> Some seam | _ \<Rightarrow> None))"

text \<open>
  C27. While the file system lets the ready-file be removed, it does not outlive the run, stale or new;
  the one run that leaves a stale file in place is the one that gets no mount seam, which returns
  before any file operation.
\<close>

theorem ready_file_retracted:
  assumes "ReadyFilePath orc \<noteq> []" "\<And>n. remove_error h n = None"
  shows "ready_file (snd (run h orc cfg st)) \<longleftrightarrow> ready_file st \<and> seam_of orc = None"
  using assms by (auto simp: run_def seam_of_def remove_ready_def split: option.split sum.split prod.split)

theorem ready_file_retracted_witness:
  "ready_file ex_session \<and> \<not> ready_file (snd (run ex_host ex_orc (ex_cfg ''/mnt/b'') ex_session))"
  using ready_file_retracted[of ex_orc ex_host "ex_cfg ''/mnt/b''" ex_session]
  by (simp add: ex_orc_def ex_host_def seam_of_def ex_session_def)

subsection \<open>Destinations\<close>



text \<open>
  The root escapes the nesting check: a destination that cleans to \<open>/\<close> passes the validation, and next
  to a mount below it the specs are built, although both serve the same path.
\<close>

lemma root_escapes_nesting:
  "validateMounts [ex_mount\<lparr>Destination := ''//''\<rparr>, ex_mount] = None"
  "buildSpecs ex_orc ((ex_cfg [])\<lparr>Mounts := Some [ex_mount\<lparr>Destination := ''//''\<rparr>, ex_mount]\<rparr>) =
     Inr (map (spec_of ex_orc) [ex_mount\<lparr>Destination := ''//''\<rparr>, ex_mount])"
  "serves (Clean ''//'') ''/mnt/a/x'' \<and> serves (Clean ''/mnt/a'') ''/mnt/a/x''"
proof -
  have "validateMount 0 (ex_mount\<lparr>Destination := ''//''\<rparr>) = None"
    by (simp add: validateMount_def Let_def ex_mount_def) code_simp
  then show "validateMounts [ex_mount\<lparr>Destination := ''//''\<rparr>, ex_mount] = None"
    by (simp add: validateMounts_def ex_mount_valid)
  have c: "Clean ''//'' = ''/''" by code_simp
  show "buildSpecs ex_orc ((ex_cfg [])\<lparr>Mounts := Some [ex_mount\<lparr>Destination := ''//''\<rparr>, ex_mount]\<rparr>) =
     Inr (map (spec_of ex_orc) [ex_mount\<lparr>Destination := ''//''\<rparr>, ex_mount])"
    by (simp add: buildSpecs_Inr c ex_mount_def ex_Clean apart_def nested_def HasPrefix_def)
  show "serves (Clean ''//'') ''/mnt/a/x'' \<and> serves (Clean ''/mnt/a'') ''/mnt/a/x''"
    by (simp add: c ex_Clean serves_def HasPrefix_def)
qed

end
