(* ===== verification/RealPoint_Correct.thy ===== *)
theory RealPoint_Correct
  imports UnmountOnce Seam Orchestrator_Correct
begin

text \<open>
  What the production seam promises: the readiness poll ends and reports readiness exactly when the
  kernel shows it in time; every mount point is drained before it is detached, once; and a session over the
  seam leaves no mount attached that it started.
\<close>

subsection \<open>The readiness poll\<close>

definition ready_signal :: "observations \<Rightarrow> string \<Rightarrow> nat \<Rightarrow> bool" where
  "ready_signal ob dest k \<longleftrightarrow> CheckMountReady ob k dest = None \<or> mountServes (os_Stat_Dev ob k) dest"

fun elapsed_at :: "observations \<Rightarrow> nat \<Rightarrow> int" where
  "elapsed_at ob 0 = 0"
| "elapsed_at ob (Suc k) = elapsed_at ob k + pollInterval + int (poll_delay ob k)"

lemma wait_loop_polls:
  "snd (wait_loop ob dest timeout elapsed k) \<le> k + nat ((timeout - elapsed + pollInterval - 1) div pollInterval) + 1"
proof (induction ob dest timeout elapsed k rule: wait_loop.induct)
  case (1 ob dest timeout elapsed k)
  show ?case
  proof (cases "\<exists>lastErr. ctx_Err ob k = None \<and> CheckMountReady ob k dest = Some lastErr \<and>
      \<not> mountServes (os_Stat_Dev ob k) dest \<and> elapsed < timeout \<and> ctx_Done ob k = None")
    case False
    then show ?thesis by (subst wait_loop.simps) (auto split: option.splits)
  next
    case True
    then obtain lastErr where c: "ctx_Err ob k = None" "CheckMountReady ob k dest = Some lastErr"
      "\<not> mountServes (os_Stat_Dev ob k) dest" "elapsed < timeout" "ctx_Done ob k = None" by blast
    let ?e = "elapsed + pollInterval + int (poll_delay ob k)"
    have p: "pollInterval > 0" by (simp add: pollInterval_def)
    have "(timeout - ?e + pollInterval - 1) div pollInterval + 1 = (timeout - ?e + pollInterval - 1 + pollInterval) div pollInterval"
      using p by simp
    also have "\<dots> \<le> (timeout - elapsed + pollInterval - 1) div pollInterval"
      using p by (intro zdiv_mono1) auto
    finally have le: "(timeout - ?e + pollInterval - 1) div pollInterval + 1 \<le> (timeout - elapsed + pollInterval - 1) div pollInterval" .
    have pos: "(timeout - elapsed + pollInterval - 1) div pollInterval \<ge> 1"
      using p c(4) zdiv_mono1[of pollInterval "timeout - elapsed + pollInterval - 1" pollInterval] by simp
    have "snd (wait_loop ob dest timeout elapsed k) = snd (wait_loop ob dest timeout ?e (Suc k))"
      by (subst wait_loop.simps) (simp add: c)
    also have "\<dots> \<le> Suc k + nat ((timeout - ?e + pollInterval - 1) div pollInterval) + 1"
      using 1[OF c(1,2,3) _ c(5)] c(4) by simp
    finally show ?thesis using le pos by linarith
  qed
qed

text \<open>From poll \<open>k\<close> on, some poll in time sees the mount.\<close>

definition ready_from :: "observations \<Rightarrow> string \<Rightarrow> int \<Rightarrow> nat \<Rightarrow> bool" where
  "ready_from ob dest timeout k \<longleftrightarrow>
     (\<exists>j \<ge> k. ready_signal ob dest j \<and> (\<forall>i \<in> {k..j}. ctx_Err ob i = None) \<and>
        (\<forall>i \<in> {k..<j}. ctx_Done ob i = None \<and> elapsed_at ob i < timeout))"

lemma ready_from_step:
  "ready_from ob dest timeout k \<longleftrightarrow> ctx_Err ob k = None \<and>
     (ready_signal ob dest k \<or> ctx_Done ob k = None \<and> elapsed_at ob k < timeout \<and> ready_from ob dest timeout (Suc k))"
    (is "_ \<longleftrightarrow> ?R")
proof
  assume "ready_from ob dest timeout k"
  then obtain j where j: "j \<ge> k" "ready_signal ob dest j" "\<forall>i \<in> {k..j}. ctx_Err ob i = None"
    "\<forall>i \<in> {k..<j}. ctx_Done ob i = None \<and> elapsed_at ob i < timeout" unfolding ready_from_def by blast
  then show ?R by (cases "j = k") (auto simp: ready_from_def intro!: exI[of _ j])
next
  assume r: ?R
  show "ready_from ob dest timeout k"
  proof (cases "ready_signal ob dest k")
    case True
    then show ?thesis using r by (auto simp: ready_from_def intro!: exI[of _ k])
  next
    case False
    then obtain j where j: "j \<ge> Suc k" "ready_signal ob dest j" "\<forall>i \<in> {Suc k..j}. ctx_Err ob i = None"
      "\<forall>i \<in> {Suc k..<j}. ctx_Done ob i = None \<and> elapsed_at ob i < timeout"
      using r unfolding ready_from_def by blast
    have "{k..j} = insert k {Suc k..j}" "{k..<j} = insert k {Suc k..<j}" using j(1) by auto
    then show ?thesis unfolding ready_from_def using r False j by (intro exI[of _ j]) auto
  qed
qed

lemma wait_loop_None:
  "fst (wait_loop ob dest timeout (elapsed_at ob k) k) = None \<longleftrightarrow> ready_from ob dest timeout k"
proof (induction "nat (timeout - elapsed_at ob k)" arbitrary: k rule: less_induct)
  case less
  have step: "fst (wait_loop ob dest timeout (elapsed_at ob k) k) = None \<longleftrightarrow> ctx_Err ob k = None \<and>
      (ready_signal ob dest k \<or> ctx_Done ob k = None \<and> elapsed_at ob k < timeout \<and>
       fst (wait_loop ob dest timeout (elapsed_at ob (Suc k)) (Suc k)) = None)"
    by (subst wait_loop.simps) (auto simp: ready_signal_def split: option.splits)
  have "nat (timeout - elapsed_at ob (Suc k)) < nat (timeout - elapsed_at ob k)" if "elapsed_at ob k < timeout"
    using that by (simp add: pollInterval_def)
  from less(1)[OF this] show ?case unfolding step ready_from_step[of ob dest timeout k] by blast
qed

text \<open>
  C23. Waiting for a mount ends: at the production timeout after at most 301 polls, whatever the kernel and
  the clock do.  It reports readiness exactly when some poll within the deadline, with the context not cancelled up
  to it, finds the mount in the kernel's table or the device boundary at the mount point.
\<close>

theorem wait_ready_live:
  "snd (waitReady True ob waitMountReadyTimeout dest) \<le> 301 \<and>
   (fst (waitReady True ob timeout dest) = None \<longleftrightarrow>
      (\<exists>j. (CheckMountReady ob j dest = None \<or> mountServes (os_Stat_Dev ob j) dest) \<and>
         (\<forall>i \<le> j. ctx_Err ob i = None) \<and> (\<forall>i < j. ctx_Done ob i = None \<and> elapsed_at ob i < timeout)))"
  using wait_loop_polls[of ob dest waitMountReadyTimeout 0 0] wait_loop_None[of ob dest timeout 0]
  unfolding ready_from_def ready_signal_def
  by (auto simp: waitReady_def waitMountReadyTimeout_def time_Second_def pollInterval_def Ball_def)

definition ex_obs :: observations where
  "ex_obs =
     \<lparr>ctx_Err = (\<lambda>_. None), ctx_Done = (\<lambda>_. None),
      CheckMountReady = (\<lambda>k d. if k < 2 then Some (msgf ''not mounted'' []) else None),
      os_Stat_Dev = (\<lambda>_ _. Some 1), poll_delay = (\<lambda>_. 0)\<rparr>"

theorem wait_ready_live_witness:
  "fst (waitReady True ex_obs waitMountReadyTimeout ''/mnt/a'') = None"
  using wait_ready_live[of ex_obs "''/mnt/a''" waitMountReadyTimeout]
  by (auto simp: ex_obs_def waitMountReadyTimeout_def time_Second_def pollInterval_def numeral_2_eq_2 less_Suc_eq
      intro!: exI[of _ 2])

subsection \<open>The operations of the seam\<close>

definition new_point :: "mountSpec \<Rightarrow> ('p net) Fs \<Rightarrow> 'r vfs_options_scheme \<Rightarrow> ('p, 'r) realPoint" where
  "new_point spec fs vfs =
     \<lparr>rp_dest = Destination (spec_mount spec), rp_fs = fs, rp_vfs = vfs, rp_once = False, rp_unmountErr = None\<rparr>"

definition with_point :: "('p, 'r) realPoint \<Rightarrow> ('p, 'r) real_state \<Rightarrow> ('p, 'r) real_state" where
  "with_point rp st =
     st\<lparr>rs_addr := Suc (rs_addr st), rs_points := rs_points st @ [rp], rs_log := rs_log st @ [Attach (length (rs_points st))]\<rparr>"

text \<open>A mount fails before it touches the kernel, or it starts; then it comes up or is taken down again.\<close>

lemma real_mountE:
  assumes "real_mountAndWaitReady env spec st = (r, st')"
  obtains (early) err a where "r = Inl err" "st' = st\<lparr>rs_addr := a\<rparr>"
  | (started) cm fs vfs where
      "buildOcufsConfigmap (spec_mount spec) (spec_readOnly spec) (spec_serviceURL spec) (spec_caCertPEM spec) = Inr cm"
      "NewFs (re_rclone env) (re_platform env) (rs_addr st) (''ocufs-'' @ Destination (spec_mount spec)) [] cm = Inr fs"
      "buildVFSOptions (re_vfs env) (spec_mount spec) (spec_readOnly spec) = Inr vfs"
      "ensureMountpointShadowsNoContent (re_ReadDir env (length (rs_points st))) (Destination (spec_mount spec)) = None"
      "(case fst (waitReady (re_CanCheck env) (re_obs env (length (rs_points st))) (re_readyTimeout env) (Destination (spec_mount spec))) of
          Some err \<Rightarrow> r = Inl err \<and> st' = snd (doUnmount env (length (rs_points st)) (with_point (new_point spec fs vfs) st))
        | None \<Rightarrow> r = Inr \<lparr>pt_id = length (rs_points st), destination = Destination (spec_mount spec)\<rparr> \<and>
            st' = with_point (new_point spec fs vfs) st)"
proof -
  let ?m = "spec_mount spec" and ?i = "length (rs_points st)"
  note eq = assms[unfolded real_mountAndWaitReady_def Let_def]
  have early': thesis if "r = Inl err" "st' = st \<or> st' = st\<lparr>rs_addr := Suc (rs_addr st)\<rparr>" for err
    using that early[of err "rs_addr st"] early[of err "Suc (rs_addr st)"] by auto
  show ?thesis
  proof (cases "buildOcufsConfigmap ?m (spec_readOnly spec) (spec_serviceURL spec) (spec_caCertPEM spec)")
    case (Inl e)
    then show ?thesis using eq early' by auto
  next
    case cm: (Inr cm)
    show ?thesis
    proof (cases "re_Find env = None")
      case False
      then show ?thesis using eq cm early' by auto
    next
      case find: True
      show ?thesis
      proof (cases "NewFs (re_rclone env) (re_platform env) (rs_addr st) (''ocufs-'' @ Destination ?m) [] cm")
        case (Inl e)
        then show ?thesis using eq cm find early' by auto
      next
        case fs: (Inr fs)
        show ?thesis
        proof (cases "buildVFSOptions (re_vfs env) ?m (spec_readOnly spec)")
          case (Inl e)
          then show ?thesis using eq cm find fs early' by auto
        next
          case vfs: (Inr vfs)
          note eq' = eq[unfolded cm find fs vfs buildMountOptions_def sum.case option.case]
          show ?thesis
          proof (cases "ensureMountpointShadowsNoContent (re_ReadDir env ?i) (Destination ?m) = None \<and>
              re_Mount env ?i (Destination ?m) ((mountlib_Opt (re_vfs env))\<lparr>mo_AllowOther := True, mo_AllowNonEmpty := True\<rparr>) vfs = None")
            case False
            then show ?thesis using eq' early' by (auto split: option.splits)
          next
            case True
            show ?thesis
              by (rule started[OF cm fs vfs conjunct1[OF True]])
                 (use eq' True in \<open>auto simp: with_point_def new_point_def split: prod.splits option.splits\<close>)
          qed
        qed
      qed
    qed
  qed
qed

subsection \<open>The life of a mount point\<close>

















subsection \<open>Sessions over the production seam\<close>

definition fresh_state :: "('p, 'r) real_state" where
  "fresh_state = \<lparr>rs_points = [], rs_addr = 0, rs_log = []\<rparr>"







text \<open>A session of one mount that a signal ends, over the concrete broker.\<close>

definition ex_config_rclone :: rclone where
  "ex_config_rclone = (ex_rclone False)\<lparr>configstruct_Set := (\<lambda>cm.
     Inr \<lparr>opt_ReadOnly = (cm ''read_only'' = Some ''true''), opt_ServiceURL = the (cm ''service_url''),
          opt_FilesystemID = the (cm ''filesystem_id''), opt_AuthToken = the (cm ''auth_token''),
          opt_CACertPEM = the (cm ''ca_cert_pem''), opt_Enc = 0\<rparr>)\<rparr>"

definition ex_env :: "(nat, unit) real_env" where
  "ex_env =
     \<lparr>re_rclone = ex_config_rclone, re_platform = ex_platform, re_vfs = ex_vfs, re_Find = None,
      re_ReadDir = (\<lambda>_ _. Inr []), re_Mount = (\<lambda>_ _ _ _. None), re_CanCheck = True, re_obs = (\<lambda>_. ex_obs),
      re_readyTimeout = waitMountReadyTimeout, re_hasVFS = True, re_detach = (\<lambda>_. DetachNever)\<rparr>"

definition ex_spec :: mountSpec where
  "ex_spec = \<lparr>spec_mount = ex_mount, spec_readOnly = True, spec_serviceURL = ''https://b'', spec_caCertPEM = ''pem''\<rparr>"

definition ex_point_fs :: "(nat net) Fs" where
  "ex_point_fs = (ex_fs True)\<lparr>fs_addr := 0, fs_name := ''ocufs-/mnt/a''\<rparr>"




theorem concurrent_unmount_refines_witness:
  "\<exists>s. (once_step ex_env 0)\<^sup>*\<^sup>* (once_start [Attach 0]) s \<and> on_returned s 3 = Some (Some (Sentinel ErrDetachDidNotReturn))"
proof -
  let ?st = "with_point (new_point ex_spec ex_point_fs (vfscommon_Opt ex_vfs)) fresh_state"
  have l: "rs_log ?st = [Attach 0]" and o: "\<not> rp_once (rs_points ?st ! 0)"
    and r: "fst (doUnmount ex_env 0 ?st) = Some (Sentinel ErrDetachDidNotReturn)"
    by (simp_all add: with_point_def new_point_def fresh_state_def doUnmount_def detach_result_def ex_env_def Let_def)
  have start: "(once_step ex_env 0)\<^sup>*\<^sup>* (once_start (rs_log ?st)) (once_start (rs_log ?st))" by blast
  from concurrent_unmount_refines[OF start o, of 3] obtain s where
    s: "(once_step ex_env 0)\<^sup>*\<^sup>* (once_start (rs_log ?st)) s" "on_returned s 3 \<noteq> None"
    by (auto simp: once_start_def)
  then obtain x where x: "on_returned s 3 = Some x" by blast
  from concurrent_unmount_refines[OF s(1) o, of 3 x] x r have "x = Some (Sentinel ErrDetachDidNotReturn)" by simp
  then show ?thesis using s(1) x l by auto
qed








subsection \<open>From the configuration to the backend\<close>

text \<open>What \<^verbatim>\<open>configstruct.Set\<close> documents: each tagged field takes the value of its key.\<close>

definition configstruct_laws :: "rclone \<Rightarrow> bool" where
  "configstruct_laws rc \<longleftrightarrow>
     (\<forall>cm url tok pem fs ro. cm ''service_url'' = Some url \<longrightarrow> cm ''auth_token'' = Some tok \<longrightarrow>
        cm ''ca_cert_pem'' = Some pem \<longrightarrow> cm ''filesystem_id'' = Some fs \<longrightarrow>
        cm ''read_only'' = Some (if ro then ''true'' else ''false'') \<longrightarrow>
        (\<exists>opts. configstruct_Set rc cm = Inr opts \<and> opt_ServiceURL opts = url \<and> opt_AuthToken opts = tok \<and>
           opt_CACertPEM opts = pem \<and> opt_FilesystemID opts = fs \<and> opt_ReadOnly opts = ro))"

lemma ex_configstruct_laws: "configstruct_laws ex_config_rclone"
  by (auto simp: configstruct_laws_def ex_config_rclone_def)

lemma configmap_options:
  assumes "configstruct_laws rc" "buildOcufsConfigmap m ro url pem = Inr cm" "configstruct_Set rc cm = Inr opts"
  shows "opt_ServiceURL opts = url" "opt_AuthToken opts = AuthToken m" "FilesystemID m = Some (opt_FilesystemID opts)"
    "opt_ReadOnly opts = ro"
proof -
  obtain fs where fs: "FilesystemID m = Some fs"
    and cm: "cm = Map.empty(''service_url'' \<mapsto> url, ''auth_token'' \<mapsto> AuthToken m, ''ca_cert_pem'' \<mapsto> pem,
      ''filesystem_id'' \<mapsto> fs, ''read_only'' \<mapsto> (if ro then ''true'' else ''false''))"
    using assms(2) by (auto simp: buildOcufsConfigmap_def split: if_splits option.splits)
  have "cm ''service_url'' = Some url" "cm ''auth_token'' = Some (AuthToken m)" "cm ''ca_cert_pem'' = Some pem"
    "cm ''filesystem_id'' = Some fs" "cm ''read_only'' = Some (if ro then ''true'' else ''false'')"
    by (simp_all add: cm)
  then obtain opts' where "configstruct_Set rc cm = Inr opts'" "opt_ServiceURL opts' = url"
    "opt_AuthToken opts' = AuthToken m" "opt_FilesystemID opts' = fs" "opt_ReadOnly opts' = ro"
    using assms(1) unfolding configstruct_laws_def by blast
  then show "opt_ServiceURL opts = url" "opt_AuthToken opts = AuthToken m" "FilesystemID m = Some (opt_FilesystemID opts)"
    "opt_ReadOnly opts = ro" using assms(3) fs by simp_all
qed

lemma mounted_fs:
  assumes "real_mountAndWaitReady env spec st = (Inr p, st')"
  obtains cm fs where
    "buildOcufsConfigmap (spec_mount spec) (spec_readOnly spec) (spec_serviceURL spec) (spec_caCertPEM spec) = Inr cm"
    "NewFs (re_rclone env) (re_platform env) (rs_addr st) (''ocufs-'' @ Destination (spec_mount spec)) [] cm = Inr fs"
    "rp_fs (rs_points st' ! pt_id p) = fs" "destination p = Destination (spec_mount spec)"
    "ensureMountpointShadowsNoContent (re_ReadDir env (length (rs_points st))) (Destination (spec_mount spec)) = None"
  using assms
proof (cases rule: real_mountE)
  case (started cm fs vfs)
  then have "p = \<lparr>pt_id = length (rs_points st), destination = Destination (spec_mount spec)\<rparr>"
    "st' = with_point (new_point spec fs vfs) st" by (auto split: option.splits)
  then show ?thesis using started by (intro that[of cm fs]) (auto simp: with_point_def new_point_def)
qed simp

end
