(* ===== verification/DirectMount.thy ===== *)
theory DirectMount
  imports MountOptions "HOL-Library.Word"
begin

unbundle bit_operations_syntax

text \<open>
  \<^verbatim>\<open>internal/mounter/directmount.go\<close>, its two \<^verbatim>\<open>directmount_readonly\<close> variants and
  \<^verbatim>\<open>xattr_enotsup.go\<close>: the mount function that serves a VFS over FUSE.  The checks of
  mountlib and the server of go-fuse are the record \<open>fuse_env\<close>; a log records what is done to the VFS and
  to the server.
\<close>

subsection \<open>Types\<close>

record fuse_MountOptions =
  fm_AllowOther :: bool
  fm_FsName :: string
  fm_Name :: string
  fm_Debug :: bool
  fm_MaxReadAhead :: int
  fm_MaxWrite :: int
  fm_DisableReadDirPlus :: bool
  fm_DisableXAttrs :: bool
  fm_DirectMountStrict :: bool
  fm_DirectMountFlags :: "64 word"
  fm_Options :: "string list"


datatype goos = Linux | Darwin

text \<open>The file system of mount2: what the code reads of the VFS options behind it.\<close>

record mount2_FS =
  fsys_ReadOnly :: bool
  fsys_UID :: nat
  fsys_GID :: nat

datatype fuse_event = ServerCreated string | ServeStarted | VfsShutdown | KernelUnmount | WritebackIgnored


subsection \<open>Options\<close>

definition MS_RDONLY :: "64 word" where "MS_RDONLY = 1"
definition MS_NOSUID :: "64 word" where "MS_NOSUID = 2"
definition MS_NODEV :: "64 word" where "MS_NODEV = 4"

definition applyReadOnly_linux :: "fuse_MountOptions \<Rightarrow> bool \<Rightarrow> string list \<times> fuse_MountOptions" where
  "applyReadOnly_linux mo readOnly =
     (if \<not> readOnly then ([], mo)
      else ([], mo\<lparr>fm_DirectMountFlags := MS_NOSUID OR MS_NODEV OR MS_RDONLY\<rparr>))"

definition applyReadOnly_darwin :: "fuse_MountOptions \<Rightarrow> bool \<Rightarrow> string list \<times> fuse_MountOptions" where
  "applyReadOnly_darwin mo readOnly = (if \<not> readOnly then ([], mo) else ([''ro''], mo))"

definition applyReadOnly :: "goos \<Rightarrow> fuse_MountOptions \<Rightarrow> bool \<Rightarrow> string list \<times> fuse_MountOptions" where
  "applyReadOnly g = (case g of Linux \<Rightarrow> applyReadOnly_linux | Darwin \<Rightarrow> applyReadOnly_darwin)"

definition buildFuseMountOptions ::
  "goos \<Rightarrow> mount2_FS \<Rightarrow> mount_options \<Rightarrow> fuse_event list \<Rightarrow> fuse_MountOptions result \<times> fuse_event list" where
  "buildFuseMountOptions g fsys opt l =
     (if mo_AllowRoot opt then
        (Inl (wrapf ''allow-root: only a fusermount-style helper can enforce it and the kernel rejects the option string: %w''
                [] (Sentinel ErrUnsupportedDirectMountOption)), l)
      else if length (mo_ExtraFlags opt) > 0 then
        (Inl (wrapf ''extra mount flags %v: helper-era flags have no kernel meaning (use kernel-recognized ExtraOptions instead): %w''
                (map FStr (mo_ExtraFlags opt)) (Sentinel ErrUnsupportedDirectMountOption)), l)
      else
        (let l' = (if mo_WritebackCache opt then l @ [WritebackIgnored] else l);
             mo = \<lparr>fm_AllowOther = mo_AllowOther opt, fm_FsName = mo_DeviceName opt, fm_Name = ''rclone'',
                   fm_Debug = mo_DebugFUSE opt, fm_MaxReadAhead = mo_MaxReadAhead opt,
                   fm_MaxWrite = 1024 * 1024, fm_DisableReadDirPlus = True, fm_DisableXAttrs = False,
                   fm_DirectMountStrict = True, fm_DirectMountFlags = 0, fm_Options = []\<rparr>;
             opts = (if mo_DefaultPermissions opt then [''default_permissions''] else []) in
         case applyReadOnly g mo (fsys_ReadOnly fsys) of
           (ro, mo') \<Rightarrow>
             (let opts = opts @ ro @
                    (if g = Darwin then [''volname='' @ mo_VolumeName opt, ''noapplexattr'', ''noappledouble''] else []) @
                    mo_ExtraOptions opt in
              (Inr (mo'\<lparr>fm_Options := opts\<rparr>), l'))))"


subsection \<open>Serving\<close>




subsection \<open>Extended attributes\<close>

type_synonym status = int

definition ENOSYS :: status where "ENOSYS = 38"
definition ENOTSUP :: status where "ENOTSUP = 95"

record 'q RawFileSystem =
  raw_GetXAttr :: "'q \<Rightarrow> nat \<times> status"
  raw_ListXAttr :: "'q \<Rightarrow> nat \<times> status"
  raw_SetXAttr :: "'q \<Rightarrow> status"
  raw_RemoveXAttr :: "'q \<Rightarrow> status"

definition enosysToENOTSUP :: "status \<Rightarrow> status" where
  "enosysToENOTSUP s = (if s = ENOSYS then ENOTSUP else s)"

text \<open>The wrapper: the extended-attribute operations are replaced, the rest of the record (\<open>'r\<close>) is kept.\<close>

definition newXattrENOTSUPFileSystem :: "('q, 'r) RawFileSystem_scheme \<Rightarrow> ('q, 'r) RawFileSystem_scheme" where
  "newXattrENOTSUPFileSystem fs =
     fs\<lparr>raw_GetXAttr := (\<lambda>q. case raw_GetXAttr fs q of (n, s) \<Rightarrow> (n, enosysToENOTSUP s)),
        raw_ListXAttr := (\<lambda>q. case raw_ListXAttr fs q of (n, s) \<Rightarrow> (n, enosysToENOTSUP s)),
        raw_SetXAttr := (\<lambda>q. enosysToENOTSUP (raw_SetXAttr fs q)),
        raw_RemoveXAttr := (\<lambda>q. enosysToENOTSUP (raw_RemoveXAttr fs q))\<rparr>"

subsection \<open>Properties\<close>

text \<open>Of the registered defaults of mountlib the frontend relies on these.\<close>

definition mountlib_defaults :: "mount_options \<Rightarrow> bool" where
  "mountlib_defaults opt \<longleftrightarrow> \<not> mo_AllowRoot opt \<and> mo_ExtraFlags opt = [] \<and> mo_ExtraOptions opt = []"

text \<open>
  C38. The options of a production mount on Linux are accepted and never name a helper: the direct
  mount is strict, other users may read, extended attributes reach the wrapper, and the read-only posture
  is the flag \<open>MS_RDONLY\<close> of the system call, set together with the two flags of the default, never the
  option string \<open>ro\<close>.
\<close>

theorem production_fuse_options:
  assumes "buildMountOptions rv m = Inr opt" "mountlib_defaults (mountlib_Opt rv)"
  shows "\<exists>mo l'. buildFuseMountOptions Linux fsys opt l = (Inr mo, l') \<and>
    fm_DirectMountStrict mo \<and> fm_AllowOther mo \<and> \<not> fm_DisableXAttrs mo \<and> ''ro'' \<notin> set (fm_Options mo) \<and>
    (bit (fm_DirectMountFlags mo) 0 \<longleftrightarrow> fsys_ReadOnly fsys) \<and>
    fm_DirectMountFlags mo = (if fsys_ReadOnly fsys then 7 else 0)"
  using assms
  by (auto simp: buildMountOptions_def buildFuseMountOptions_def mountlib_defaults_def applyReadOnly_def
      applyReadOnly_linux_def MS_RDONLY_def MS_NOSUID_def MS_NODEV_def Let_def)

theorem production_fuse_options_witness:
  "\<exists>mo l'. buildFuseMountOptions Linux \<lparr>fsys_ReadOnly = True, fsys_UID = 0, fsys_GID = 0\<rparr>
      ((mountlib_Opt ex_vfs)\<lparr>mo_AllowOther := True, mo_AllowNonEmpty := True\<rparr>) [] = (Inr mo, l') \<and>
    fm_DirectMountFlags mo = 7"
  using production_fuse_options[of ex_vfs ex_mount "(mountlib_Opt ex_vfs)\<lparr>mo_AllowOther := True, mo_AllowNonEmpty := True\<rparr>"
      "\<lparr>fsys_ReadOnly = True, fsys_UID = 0, fsys_GID = 0\<rparr>" "[]"]
  by (auto simp: buildMountOptions_def mountlib_defaults_def ex_vfs_def)



lemma enosys_simps [simp]:
  "enosysToENOTSUP s \<noteq> ENOSYS" "s \<noteq> ENOSYS \<Longrightarrow> enosysToENOTSUP s = s"
  by (simp_all add: enosysToENOTSUP_def ENOSYS_def ENOTSUP_def)

text \<open>
  The wrapper answers no extended-attribute operation with \<open>ENOSYS\<close>, passes every other answer
  unchanged, and wrapping twice is wrapping once.
\<close>

lemma xattr_translation:
  fixes fs :: "('q, 'r) RawFileSystem_scheme"
  defines "w \<equiv> newXattrENOTSUPFileSystem fs"
  shows "snd (raw_GetXAttr w q) \<noteq> ENOSYS" "snd (raw_ListXAttr w q) \<noteq> ENOSYS"
    and "raw_SetXAttr w q \<noteq> ENOSYS" "raw_RemoveXAttr w q \<noteq> ENOSYS"
    and "snd (raw_GetXAttr fs q) \<noteq> ENOSYS \<Longrightarrow> raw_GetXAttr w q = raw_GetXAttr fs q"
    and "newXattrENOTSUPFileSystem w = w" "RawFileSystem.more w = RawFileSystem.more fs"
  by (simp_all add: w_def newXattrENOTSUPFileSystem_def case_prod_unfold prod_eq_iff)

end
