(* ===== verification/CacheDir.thy ===== *)
theory CacheDir
  imports GoErrors GoPath
begin

text \<open>
  \<^verbatim>\<open>internal/mounter/cachedir.go\<close> and \<^verbatim>\<open>internal/posture/posture.go\<close>: the writable directory of
  the VFS disk cache.  The operating system is a record of the calls the probe makes, over a state \<open>'f\<close>
  of the file system; the cache directory of rclone is a global of the state.
\<close>

subsection \<open>Operations\<close>

definition Home :: string where
  "Home = ''/root''"

definition CacheTmpfs :: string where
  "CacheTmpfs = Home @ ''/.cache''"

record 'f cache_os =
  os_MkdirAll :: "string \<Rightarrow> 'f \<Rightarrow> gerror option \<times> 'f"
  os_CreateTemp :: "string \<Rightarrow> string \<Rightarrow> 'f \<Rightarrow> string result \<times> 'f"
  os_Remove :: "string \<Rightarrow> 'f \<Rightarrow> gerror option \<times> 'f"
  os_TempDir :: string
  config_SetCacheDir :: "string \<Rightarrow> gerror option"

record 'f cache_state =
  files :: 'f
  cache_dir :: string

definition dirIsWritable :: "'f cache_os \<Rightarrow> string \<Rightarrow> 'f \<Rightarrow> bool \<times> 'f" where
  "dirIsWritable os dir f =
     (if dir = [] then (False, f)
      else
        (case os_MkdirAll os dir f of
           (Some err, f1) \<Rightarrow> (False, f1)
         | (None, f1) \<Rightarrow>
             (case os_CreateTemp os dir ''.ocu-cache-probe-'' f1 of
                (Inl err, f2) \<Rightarrow> (False, f2)
              | (Inr name, f2) \<Rightarrow> (True, snd (os_Remove os name f2)))))"

definition candidates :: "'f cache_os \<Rightarrow> string list" where
  "candidates os = [Join [CacheTmpfs, ''rclone''], Join [os_TempDir os, ''rclone'']]"

fun try_candidates ::
  "'f cache_os \<Rightarrow> string \<Rightarrow> string list \<Rightarrow> 'f cache_state \<Rightarrow> gerror option \<times> 'f cache_state" where
  "try_candidates os current [] st =
     (Some (msgf ''no writable VFS cache directory: default %q and fallbacks are all read-only (SEC-46 cache would silently disable)''
              [FStr current]), st)"
| "try_candidates os current (dir # dirs) st =
     (if dir = current then try_candidates os current dirs st
      else
        (case dirIsWritable os dir (files st) of
           (True, f) \<Rightarrow>
             (case config_SetCacheDir os dir of
                Some err \<Rightarrow> (Some (wrapf ''redirect VFS cache dir to %q: %w'' [FStr dir] err), st\<lparr>files := f\<rparr>)
              | None \<Rightarrow> (None, st\<lparr>files := f, cache_dir := dir\<rparr>))
         | (False, f) \<Rightarrow> try_candidates os current dirs (st\<lparr>files := f\<rparr>)))"

definition EnsureWritableCacheDir :: "'f cache_os \<Rightarrow> 'f cache_state \<Rightarrow> gerror option \<times> 'f cache_state" where
  "EnsureWritableCacheDir os st =
     (case dirIsWritable os (cache_dir st) (files st) of
        (True, f) \<Rightarrow> (None, st\<lparr>files := f\<rparr>)
      | (False, f) \<Rightarrow> try_candidates os (cache_dir st) (candidates os) (st\<lparr>files := f\<rparr>))"

subsection \<open>The directory chosen\<close>

definition writable :: "'f cache_os \<Rightarrow> 'f \<Rightarrow> string \<Rightarrow> bool" where
  "writable os f d \<longleftrightarrow> fst (dirIsWritable os d f)"

text \<open>Probing one directory does not change the verdict on another.\<close>

definition probes_independent :: "'f cache_os \<Rightarrow> bool" where
  "probes_independent os \<longleftrightarrow> (\<forall>d d' f. writable os (snd (dirIsWritable os d' f)) d = writable os f d)"

lemma try_candidates_find:
  assumes "probes_independent os" "\<And>d. config_SetCacheDir os d = None" "\<not> writable os (files st) current"
  shows "case find (writable os (files st)) dirs of
      Some d \<Rightarrow> fst (try_candidates os current dirs st) = None \<and>
        cache_dir (snd (try_candidates os current dirs st)) = d
    | None \<Rightarrow> fst (try_candidates os current dirs st) \<noteq> None \<and>
        cache_dir (snd (try_candidates os current dirs st)) = cache_dir st"
  using assms(3)
proof (induction dirs arbitrary: st)
  case (Cons d dirs)
  obtain b f where p: "dirIsWritable os d (files st) = (b, f)" by fastforce
  have w: "writable os f = writable os (files st)"
    using assms(1) unfolding probes_independent_def by (intro ext) (metis p snd_conv)
  have wd: "writable os (files st) d = b" by (simp add: writable_def p)
  have "\<not> writable os (files (st\<lparr>files := f\<rparr>)) current" using Cons.prems w by simp
  note IH = Cons.IH[OF this]
  show ?case
  proof (cases b)
    case True
    then have "d \<noteq> current" using Cons.prems wd by auto
    then show ?thesis using True p wd assms(2) by simp
  next
    case False
    then show ?thesis
      using IH Cons.IH[OF Cons.prems] p wd w
      by (cases "d = current"; cases "find (writable os (files st)) dirs") simp_all
  qed
qed simp

text \<open>
  The cache directory after the check is the first writable one of the configured default, the
  posture tmpfs and the temporary directory, so a writable default is never overridden; the check
  fails exactly when none of the three is writable, and then leaves the setting as it was.
\<close>

theorem cache_dir_first_writable:
  assumes "probes_independent os" "\<And>d. config_SetCacheDir os d = None"
  shows "case find (writable os (files st)) [cache_dir st, ''/root/.cache/rclone'', Join [os_TempDir os, ''rclone'']] of
      Some d \<Rightarrow> fst (EnsureWritableCacheDir os st) = None \<and> cache_dir (snd (EnsureWritableCacheDir os st)) = d
    | None \<Rightarrow> fst (EnsureWritableCacheDir os st) \<noteq> None \<and>
        cache_dir (snd (EnsureWritableCacheDir os st)) = cache_dir st"
proof -
  have c: "candidates os = [''/root/.cache/rclone'', Join [os_TempDir os, ''rclone'']]"
  proof -
    have "Join [CacheTmpfs, ''rclone''] = ''/root/.cache/rclone''" by code_simp
    then show ?thesis by (simp add: candidates_def)
  qed
  obtain b f where d: "dirIsWritable os (cache_dir st) (files st) = (b, f)" by fastforce
  show ?thesis
  proof (cases b)
    case True
    then show ?thesis using d by (simp add: EnsureWritableCacheDir_def writable_def)
  next
    case False
    have w: "writable os f = writable os (files st)"
      using assms(1) unfolding probes_independent_def by (intro ext) (metis d snd_conv)
    have nw: "\<not> writable os (files st) (cache_dir st)" using False d by (simp add: writable_def)
    have e: "EnsureWritableCacheDir os st = try_candidates os (cache_dir st) (candidates os) (st\<lparr>files := f\<rparr>)"
      using False d by (simp add: EnsureWritableCacheDir_def)
    from try_candidates_find[OF assms, of "st\<lparr>files := f\<rparr>" "cache_dir st" "candidates os"] nw show ?thesis
      unfolding c[symmetric] e by (cases "find (writable os (files st)) (candidates os)") (simp_all add: w)
  qed
qed

text \<open>A file system whose state is the list of its writable directories.\<close>

definition ex_os :: "string list cache_os" where
  "ex_os =
     \<lparr>os_MkdirAll = (\<lambda>d f. (if d \<in> set f then None else Some (msgf ''read-only file system'' []), f)),
      os_CreateTemp = (\<lambda>d pat f. (Inr (d @ ''/'' @ pat), f)), os_Remove = (\<lambda>p f. (None, f)),
      os_TempDir = ''/tmp'', config_SetCacheDir = (\<lambda>_. None)\<rparr>"

lemma ex_os_writable: "dirIsWritable ex_os d f = (d \<noteq> [] \<and> d \<in> set f, f)"
  by (simp add: dirIsWritable_def ex_os_def)

theorem cache_dir_first_writable_witness:
  "cache_dir (snd (EnsureWritableCacheDir ex_os \<lparr>files = [''/root/.cache/rclone''], cache_dir = ''/.cache/rclone''\<rparr>)) =
     ''/root/.cache/rclone''"
  using cache_dir_first_writable[of ex_os "\<lparr>files = [''/root/.cache/rclone''], cache_dir = ''/.cache/rclone''\<rparr>"]
  by (simp add: probes_independent_def writable_def ex_os_writable) (simp add: ex_os_def)

end
