(* ===== verification/Entrypoint.thy ===== *)
theory Entrypoint
  imports Orchestrator_Correct CacheDir
begin

text \<open>
  \<^verbatim>\<open>cmd/ocu-rclone-filestore/run.go\<close> and \<^verbatim>\<open>main.go\<close>: the flags (with what Go's \<^verbatim>\<open>flag\<close> package
  does with them), the order of the steps of a run, and the exit code.  The mount function is a
  parameter, as in the source; \<open>productionMount\<close> is the one \<^verbatim>\<open>main\<close> uses.  What is printed for a bad flag
  is not modelled.
\<close>

subsection \<open>Flags\<close>

record flags =
  configPath :: string
  showVersion :: bool
  readyFile :: string

abbreviation dash :: char where
  "dash \<equiv> CHR ''-''"

definition ParseBool :: "string \<Rightarrow> bool option" where
  "ParseBool s =
     (if s \<in> {''1'', ''t'', ''T'', ''TRUE'', ''true'', ''True''} then Some True
      else if s \<in> {''0'', ''f'', ''F'', ''FALSE'', ''false'', ''False''} then Some False else None)"

text \<open>The name of a flag and the value after its first equals sign.\<close>

definition flag_parts :: "string \<Rightarrow> string \<times> string option" where
  "flag_parts name =
     (let stem = hd name # takeWhile (\<lambda>c. c \<noteq> CHR ''='') (tl name);
          rest = dropWhile (\<lambda>c. c \<noteq> CHR ''='') (tl name)
      in (stem, if rest = [] then None else Some (tl rest)))"

definition set_flag :: "string \<Rightarrow> string \<Rightarrow> flags \<Rightarrow> flags" where
  "set_flag name v fl = (if name = ''config'' then fl\<lparr>configPath := v\<rparr> else fl\<lparr>readyFile := v\<rparr>)"

definition undefined_flag :: "string \<Rightarrow> gerror" where
  "undefined_flag name =
     (if name \<in> {''help'', ''h''} then msgf ''flag: help requested'' []
      else msgf ''flag provided but not defined: -%s'' [FStr name])"

function parse_flags :: "string list \<Rightarrow> flags \<Rightarrow> flags result" where
  "parse_flags [] fl = Inr fl"
| "parse_flags (s # args) fl =
     (if length s < 2 \<or> s ! 0 \<noteq> dash \<or> s = [dash, dash] then Inr fl
      else
        (let name = (if s ! 1 = dash then drop 2 s else drop 1 s) in
         if name = [] \<or> hd name = dash \<or> hd name = CHR ''='' then Inl (msgf ''bad flag syntax: %s'' [FStr s])
         else
           (case flag_parts name of
              (stem, val) \<Rightarrow>
                if stem = ''version'' then
                  (case val of
                     None \<Rightarrow> parse_flags args (fl\<lparr>showVersion := True\<rparr>)
                   | Some v \<Rightarrow>
                       (case ParseBool v of
                          None \<Rightarrow> Inl (msgf ''invalid boolean value %q for -%s: parse error'' [FStr v, FStr stem])
                        | Some b \<Rightarrow> parse_flags args (fl\<lparr>showVersion := b\<rparr>)))
                else if stem \<in> {''config'', ''ready-file''} then
                  (case val of
                     Some v \<Rightarrow> parse_flags args (set_flag stem v fl)
                   | None \<Rightarrow>
                       (case args of
                          [] \<Rightarrow> Inl (msgf ''flag needs an argument: -%s'' [FStr stem])
                        | v # args' \<Rightarrow> parse_flags args' (set_flag stem v fl)))
                else Inl (undefined_flag stem))))"
  by pat_completeness auto
termination
  by (relation "measure (\<lambda>(args, fl). length args)") auto

definition no_flags :: flags where
  "no_flags = \<lparr>configPath = [], showVersion = False, readyFile = []\<rparr>"

definition resolveFlagOrEnv :: "(string \<Rightarrow> string) \<Rightarrow> string \<Rightarrow> string \<Rightarrow> string" where
  "resolveFlagOrEnv env flagVal envKey = (if flagVal \<noteq> [] then flagVal else env envKey)"

subsection \<open>The run\<close>

datatype app_event = VersionWritten string | SignalsIgnored | SignalsNotified | MountCalled Config string | SignalsStopped

record 'f app =
  os_Getenv :: "string \<Rightarrow> string"
  app_version :: string
  app_loader :: loader
  app_cache_os :: "'f cache_os"
  stderr_error :: "gerror option"

record ('f, 'm) app_state =
  app_cache :: "'f cache_state"
  app_mount :: 'm
  app_log :: "app_event list"

type_synonym 'm mountFunc = "Config \<Rightarrow> string \<Rightarrow> 'm \<Rightarrow> gerror option \<times> 'm"

definition runWith :: "'f app \<Rightarrow> string list \<Rightarrow> 'm mountFunc \<Rightarrow> ('f, 'm) app_state \<Rightarrow> gerror option \<times> ('f, 'm) app_state" where
  "runWith app args mount st =
     (case parse_flags args no_flags of
        Inl err \<Rightarrow> (Some (wrapf ''parse flags: %w'' [] err), st)
      | Inr fl \<Rightarrow>
          if showVersion fl then
            (case stderr_error app of
               Some err \<Rightarrow> (Some (wrapf ''write version: %w'' [] err), st)
             | None \<Rightarrow> (None, st\<lparr>app_log := app_log st @ [VersionWritten (app_version app)]\<rparr>))
          else if configPath fl = [] then
            (Some (msgf ''missing required --config flag: pass the path to the guest mount config'' []), st)
          else
            (let resolvedReadyFile = resolveFlagOrEnv (os_Getenv app) (readyFile fl) ''OCU_READY_FILE'' in
             case Load (app_loader app) (configPath fl) of
               Inl err \<Rightarrow> (Some (wrapf ''load config: %w'' [] (cfg_Error err)), st)
             | Inr cfg \<Rightarrow>
                 (case EnsureWritableCacheDir (app_cache_os app) (app_cache st) of
                    (Some err, cs) \<Rightarrow> (Some (wrapf ''ensure VFS cache dir: %w'' [] err), st\<lparr>app_cache := cs\<rparr>)
                  | (None, cs) \<Rightarrow>
                      (case mount cfg resolvedReadyFile (app_mount st) of
                         (err, m') \<Rightarrow>
                           (err, st\<lparr>app_cache := cs, app_mount := m',
                                    app_log := app_log st @ [SignalsIgnored, SignalsNotified,
                                      MountCalled cfg resolvedReadyFile, SignalsStopped]\<rparr>)))))"

text \<open>
  \<^verbatim>\<open>mounter.New\<close> and its options (\<^verbatim>\<open>mounter.go\<close>); the signal channel is part of the host.
\<close>

record 'e orchestratorMounter =
  om_newSeam :: "'e pointMounter result"
  om_readiness :: string
  om_host :: host

definition WithReadiness :: "string \<Rightarrow> 'e orchestratorMounter \<Rightarrow> 'e orchestratorMounter" where
  "WithReadiness rc m = m\<lparr>om_readiness := rc\<rparr>"

definition WithSignals :: "host \<Rightarrow> 'e orchestratorMounter \<Rightarrow> 'e orchestratorMounter" where
  "WithSignals sig m = m\<lparr>om_host := sig\<rparr>"

definition New_mounter ::
  "host \<Rightarrow> 'e pointMounter result \<Rightarrow> ('e orchestratorMounter \<Rightarrow> 'e orchestratorMounter) list \<Rightarrow> 'e orchestratorMounter" where
  "New_mounter default_host seam opts =
     fold (\<lambda>opt m. opt m) opts \<lparr>om_newSeam = seam, om_readiness = [], om_host = default_host\<rparr>"

definition orchestratorMounter_Mount :: "'e orchestratorMounter \<Rightarrow> Config \<Rightarrow> 'e session \<Rightarrow> gerror option \<times> 'e session" where
  "orchestratorMounter_Mount m cfg st = Mount_run (om_host m) (om_newSeam m) (om_readiness m) cfg st"

definition productionMount :: "host \<Rightarrow> 'e pointMounter result \<Rightarrow> 'e session mountFunc" where
  "productionMount h newSeam cfg rc st =
     orchestratorMounter_Mount (New_mounter h newSeam [WithReadiness rc, WithSignals h]) cfg st"

lemma productionMount_run: "productionMount h newSeam cfg rc st = Mount_run h newSeam rc cfg st"
  by (simp add: productionMount_def orchestratorMounter_Mount_def New_mounter_def WithReadiness_def WithSignals_def)

definition entry_run :: "host \<Rightarrow> 'e pointMounter result \<Rightarrow> 'f app \<Rightarrow> string list \<Rightarrow> ('f, 'e session) app_state \<Rightarrow>
    gerror option \<times> ('f, 'e session) app_state" where
  "entry_run h newSeam app args st = runWith app args (productionMount h newSeam) st"

definition entry_main :: "host \<Rightarrow> 'e pointMounter result \<Rightarrow> 'f app \<Rightarrow> string list \<Rightarrow> ('f, 'e session) app_state \<Rightarrow>
    nat \<times> ('f, 'e session) app_state" where
  "entry_main h newSeam app args st =
     (case entry_run h newSeam app args st of (err, st') \<Rightarrow> (if err \<noteq> None then 1 else 0, st'))"

subsection \<open>Properties\<close>

text \<open>The documented forms of the flags, with one dash or two, and the value in the same word or the next.\<close>

lemma flags_forms:
  "parse_flags (''--config'' # p # args) fl = parse_flags args (fl\<lparr>configPath := p\<rparr>)"
  "parse_flags (''-config'' # p # args) fl = parse_flags args (fl\<lparr>configPath := p\<rparr>)"
  "parse_flags ((''--config='' @ p) # args) fl = parse_flags args (fl\<lparr>configPath := p\<rparr>)"
  "parse_flags (''--ready-file'' # p # args) fl = parse_flags args (fl\<lparr>readyFile := p\<rparr>)"
  "parse_flags ((''--ready-file='' @ p) # args) fl = parse_flags args (fl\<lparr>readyFile := p\<rparr>)"
  "parse_flags (''--version'' # args) fl = parse_flags args (fl\<lparr>showVersion := True\<rparr>)"
  by (simp_all add: flag_parts_def set_flag_def Let_def)

text \<open>The ready-file path of a run: the flag, or else the environment.\<close>

lemma resolve_simp: "resolveFlagOrEnv env f k = (if f = [] then env k else f)"
  by (simp add: resolveFlagOrEnv_def)

text \<open>
  C29. The process exits zero exactly when it only printed its version, or the flags name a
  configuration that loads, a writable cache directory was found and the session ended cleanly; the
  ready-file is the one of the flag, or of the environment when the flag is empty.
\<close>

theorem entry_exit_zero:
  "fst (entry_main h newSeam app args st) = 0 \<longleftrightarrow>
     (\<exists>fl. parse_flags args no_flags = Inr fl \<and>
        (if showVersion fl then stderr_error app = None
         else configPath fl \<noteq> [] \<and>
           (\<exists>cfg. Load (app_loader app) (configPath fl) = Inr cfg \<and>
              fst (EnsureWritableCacheDir (app_cache_os app) (app_cache st)) = None \<and>
              fst (Mount_run h newSeam (if readyFile fl = [] then os_Getenv app ''OCU_READY_FILE'' else readyFile fl)
                     cfg (app_mount st)) = None)))"
proof (cases "parse_flags args no_flags")
  case (Inl e)
  then show ?thesis by (simp add: entry_main_def entry_run_def runWith_def)
next
  case fl: (Inr fl)
  show ?thesis
  proof (cases "showVersion fl \<or> configPath fl = []")
    case True
    then show ?thesis using fl
      by (cases "stderr_error app") (auto simp: entry_main_def entry_run_def runWith_def)
  next
    case False
    obtain e cs where c: "EnsureWritableCacheDir (app_cache_os app) (app_cache st) = (e, cs)" by fastforce
    show ?thesis
      using fl False c
      by (cases "Load (app_loader app) (configPath fl)"; cases e)
         (simp_all add: entry_main_def entry_run_def runWith_def productionMount_run Let_def resolve_simp case_prod_unfold)
  qed
qed

text \<open>
  C30. A mount is attempted only with a configuration that loaded from the named path, after a writable
  cache directory was found and after rclone's own signal handler was switched off and the session's was
  installed; it is attempted once, its error is the error of the run, and a run that attempts none leaves
  the mounts as they were.
\<close>

theorem entry_mount_guarded:
  assumes "entry_run h newSeam app args st = (err, st')" "app_log st = []"
  shows "(\<exists>fl cfg rf. parse_flags args no_flags = Inr fl \<and> \<not> showVersion fl \<and>
      Load (app_loader app) (configPath fl) = Inr cfg \<and>
      fst (EnsureWritableCacheDir (app_cache_os app) (app_cache st)) = None \<and>
      app_log st' = [SignalsIgnored, SignalsNotified, MountCalled cfg rf, SignalsStopped] \<and>
      Mount_run h newSeam rf cfg (app_mount st) = (err, app_mount st')) \<or>
    app_mount st' = app_mount st \<and> (app_log st' = [] \<or> app_log st' = [VersionWritten (app_version app)])"
proof (cases "parse_flags args no_flags")
  case (Inl e)
  then show ?thesis using assms by (auto simp: entry_run_def runWith_def)
next
  case fl: (Inr fl)
  show ?thesis
  proof (cases "showVersion fl \<or> configPath fl = []")
    case True
    then show ?thesis using fl assms
      by (cases "stderr_error app"; cases "showVersion fl") (auto simp: entry_run_def runWith_def)
  next
    case False
    obtain e cs where c: "EnsureWritableCacheDir (app_cache_os app) (app_cache st) = (e, cs)" by fastforce
    show ?thesis
      using fl False c assms
      by (cases "Load (app_loader app) (configPath fl)"; cases e)
         (auto simp: entry_run_def runWith_def productionMount_run Let_def split: prod.splits)
  qed
qed

text \<open>A run that asks for the version.\<close>

definition ex_app :: "string list app" where
  "ex_app =
     \<lparr>os_Getenv = (\<lambda>_. []), app_version = ''dev'', app_loader = ex_loader [], app_cache_os = ex_os,
      stderr_error = None\<rparr>"

definition ex_app_state :: "(string list, nat session) app_state" where
  "ex_app_state =
     \<lparr>app_cache = \<lparr>files = [''/root/.cache/rclone''], cache_dir = ''/root/.cache/rclone''\<rparr>,
      app_mount = ex_session, app_log = []\<rparr>"

lemma ex_flags: "parse_flags [''--version''] no_flags = Inr (no_flags\<lparr>showVersion := True\<rparr>)"
  using flags_forms(6)[of "[]" no_flags] by simp

theorem entry_mount_guarded_witness:
  "app_mount (snd (entry_run ex_host (Inr ex_seam) ex_app [''--version''] ex_app_state)) = ex_session"
proof -
  let ?r = "entry_run ex_host (Inr ex_seam) ex_app [''--version''] ex_app_state"
  have "?r = (fst ?r, snd ?r)" "app_log ex_app_state = []" by (simp_all add: ex_app_state_def)
  from entry_mount_guarded[OF this] show ?thesis
    using ex_flags by (auto simp: ex_app_state_def)
qed

end
