(* ===== verification/PostureProbe.thy ===== *)
theory PostureProbe
  imports CacheDir
begin

text \<open>
  \<^verbatim>\<open>cmd/posture-probe/main.go\<close>: the one-shot witness of the hardened posture.  The disk is a map from
  paths to contents; each call may fault (\<open>fault\<close>, by the number of the call), a faulting write may
  leave any part of its bytes, and \<open>history\<close> records the contents after every call.
\<close>

subsection \<open>The disk\<close>

record disk =
  contents :: "string \<rightharpoonup> string"
  calls :: nat
  history :: "(string \<rightharpoonup> string) list"

record disk_os =
  fault :: "nat \<Rightarrow> gerror option"
  written :: "nat \<Rightarrow> nat"
  temp_name :: "nat \<Rightarrow> string \<Rightarrow> string"
  show_err :: "gerror \<Rightarrow> string"

definition after :: "disk \<Rightarrow> (string \<rightharpoonup> string) \<Rightarrow> disk" where
  "after d m = d\<lparr>contents := m, calls := Suc (calls d), history := history d @ [m]\<rparr>"

definition sys :: "disk_os \<Rightarrow> ((string \<rightharpoonup> string) \<Rightarrow> (string \<rightharpoonup> string)) \<Rightarrow> disk \<Rightarrow> gerror option \<times> disk" where
  "sys os act d =
     (case fault os (calls d) of
        Some err \<Rightarrow> (Some err, after d (contents d))
      | None \<Rightarrow> (None, after d (act (contents d))))"

definition create_at :: "string \<Rightarrow> (string \<rightharpoonup> string) \<Rightarrow> (string \<rightharpoonup> string)" where
  "create_at p m = m(p \<mapsto> (case m p of None \<Rightarrow> [] | Some s \<Rightarrow> s))"

definition remove_at :: "string \<Rightarrow> (string \<rightharpoonup> string) \<Rightarrow> (string \<rightharpoonup> string)" where
  "remove_at p m = m(p := None)"

text \<open>A write replaces the content; one that faults leaves a prefix.\<close>

definition write_at :: "disk_os \<Rightarrow> string \<Rightarrow> string \<Rightarrow> disk \<Rightarrow> gerror option \<times> disk" where
  "write_at os p s d =
     (case fault os (calls d) of
        Some err \<Rightarrow> (Some err, after d ((contents d)(p \<mapsto> take (written os (calls d)) s)))
      | None \<Rightarrow> (None, after d ((contents d)(p \<mapsto> s))))"


definition rename_at :: "string \<Rightarrow> string \<Rightarrow> (string \<rightharpoonup> string) \<Rightarrow> (string \<rightharpoonup> string)" where
  "rename_at p q m = m(q := m p, p := None)"

subsection \<open>The arms\<close>








subsection \<open>The verdict\<close>

definition writeVerdict :: "disk_os \<Rightarrow> string \<Rightarrow> string \<Rightarrow> disk \<Rightarrow> gerror option \<times> disk" where
  "writeVerdict os path verdict d =
     (case sys os id d of
        (Some err, d1) \<Rightarrow> (Some err, d1)
      | (None, d1) \<Rightarrow>
          (let tmpName = temp_name os (calls d1) (Dir path) in
           case sys os (create_at tmpName) d1 of
             (Some err, d2) \<Rightarrow> (Some err, d2)
           | (None, d2) \<Rightarrow>
               (case write_at os tmpName verdict d2 of
                  (Some err, d3) \<Rightarrow> (Some err, snd (sys os (remove_at tmpName) (snd (sys os id d3))))
                | (None, d3) \<Rightarrow>
                    (case sys os id d3 of
                       (Some err, d4) \<Rightarrow> (Some err, snd (sys os (remove_at tmpName) d4))
                     | (None, d4) \<Rightarrow> sys os (rename_at tmpName path) d4))))"





subsection \<open>Properties\<close>

text \<open>A call that keeps the content of a path: it appends states that all hold it.\<close>

definition keeps :: "string \<Rightarrow> disk \<Rightarrow> disk \<Rightarrow> bool" where
  "keeps p d d' \<longleftrightarrow>
     contents d' p = contents d p \<and>
     (\<exists>hs. history d' = history d @ hs \<and> (\<forall>m \<in> set hs. m p = contents d p))"

lemma keeps_trans: "keeps p d d' \<Longrightarrow> keeps p d' d'' \<Longrightarrow> keeps p d d''"
  by (auto simp: keeps_def)

lemma keeps_after: "m p = contents d p \<Longrightarrow> keeps p d (after d m)"
  by (auto simp: keeps_def after_def)

lemma keeps_sys: "act (contents d) p = contents d p \<Longrightarrow> keeps p d (snd (sys os act d))"
  by (auto simp: sys_def intro: keeps_after split: option.split)

lemma keeps_write: "q \<noteq> p \<Longrightarrow> keeps p d (snd (write_at os q s d))"
  by (auto simp: write_at_def intro: keeps_after split: option.split)

lemma write_content: "write_at os q s d = (None, d') \<Longrightarrow> contents d' q = Some s"
  by (auto simp: write_at_def after_def split: option.splits)

lemma sys_content: "sys os act d = (None, d') \<Longrightarrow> contents d' = act (contents d)"
  by (auto simp: sys_def after_def split: option.splits)

lemma keeps_sysD: "sys os act d = (r, d') \<Longrightarrow> act (contents d) p = contents d p \<Longrightarrow> keeps p d d'"
  using keeps_sys[of act d p os] by simp

lemma keeps_writeD: "write_at os q s d = (r, d') \<Longrightarrow> q \<noteq> p \<Longrightarrow> keeps p d d'"
  using keeps_write[of q p d os s] by simp

lemma other_path: "q \<noteq> p \<Longrightarrow> create_at q m p = m p" "q \<noteq> p \<Longrightarrow> remove_at q m p = m p"
  by (simp_all add: create_at_def remove_at_def)

text \<open>Either nothing happened to the verdict file, or the last call put the whole verdict there.\<close>

lemma writeVerdict_cases:
  assumes tmp: "\<And>k. temp_name os k (Dir path) \<noteq> path" and eq: "writeVerdict os path v d = (err, d')"
  obtains "err \<noteq> None" "keeps path d d'"
  | d4 m where "err = None" "keeps path d d4" "d' = after d4 m" "m path = Some v"
proof -
  obtain r1 d1 where 1: "sys os id d = (r1, d1)" by fastforce
  let ?t = "temp_name os (calls d1) (Dir path)"
  obtain r2 d2 where 2: "sys os (create_at ?t) d1 = (r2, d2)" by fastforce
  obtain r3 d3 where 3: "write_at os ?t v d2 = (r3, d3)" by fastforce
  obtain r4 d4 where 4: "sys os id d3 = (r4, d4)" by fastforce
  obtain r5 d5 where 5: "sys os (rename_at ?t path) d4 = (r5, d5)" by fastforce
  have k: "keeps path d d1" "keeps path d1 d2" "keeps path d2 d3" "keeps path d3 d4"
    using keeps_sysD[OF 1] keeps_sysD[OF 2] keeps_writeD[OF 3] keeps_sysD[OF 4] tmp by (auto simp: other_path)
  note kt = keeps_trans[OF keeps_trans[OF keeps_trans[OF k(1) k(2)] k(3)] k(4)]
  have rm: "keeps path d4 (snd (sys os (remove_at ?t) d4))"
    "keeps path d3 (snd (sys os (remove_at ?t) (snd (sys os id d3))))"
    using tmp 4 k(4) by (auto intro!: keeps_sys intro: keeps_trans[of path d3 d4] simp: other_path)
  show ?thesis
  proof (cases "r1 = None \<and> r2 = None \<and> r3 = None \<and> r4 = None")
    case False
    then have "err \<noteq> None \<and> keeps path d d'"
      using eq 1 2 3 4 k kt rm
      by (auto simp: writeVerdict_def Let_def split: option.splits intro: keeps_trans)
    then show ?thesis using that(1) by blast
  next
    case True
    then have e: "err = r5" "d' = d5" using eq 1 2 3 4 5 by (simp_all add: writeVerdict_def Let_def)
    show ?thesis
    proof (cases r5)
      case None
      have "contents d3 ?t = Some v" using write_content 3 True by blast
      then have "contents d4 ?t = Some v" using sys_content[of os id d3 d4] 4 True by simp
      then have "rename_at ?t path (contents d4) path = Some v" using tmp[of "calls d1"] by (simp add: rename_at_def)
      moreover have "d5 = after d4 (rename_at ?t path (contents d4))"
        using 5 None by (auto simp: sys_def split: option.splits)
      ultimately show ?thesis using that(2)[of d4] e None kt by blast
    next
      case (Some er)
      then have "d5 = after d4 (contents d4)" using 5 by (auto simp: sys_def split: option.splits)
      then have "keeps path d d5" using kt keeps_trans keeps_after by blast
      then show ?thesis using that(1) e Some by blast
    qed
  qed
qed

text \<open>
  The verdict file is replaced as a whole: after every call the probe makes to write it, the file
  holds what it held before or the complete verdict, and the write reports success exactly when it
  holds the verdict at the end of a successful rename.
\<close>

theorem verdict_atomic:
  assumes "\<And>k. temp_name os k (Dir path) \<noteq> path" "writeVerdict os path v d = (err, d')"
  shows "contents d' path = (if err = None then Some v else contents d path) \<and>
    (\<exists>hs. history d' = history d @ hs \<and> (\<forall>m \<in> set hs. m path \<in> {contents d path, Some v}))"
  using assms
proof (cases rule: writeVerdict_cases)
  case 1
  then show ?thesis by (auto simp: keeps_def)
next
  case (2 d4 m)
  then show ?thesis by (auto simp: keeps_def after_def)
qed

definition ex_disk :: disk where
  "ex_disk = \<lparr>contents = Map.empty, calls = 0, history = []\<rparr>"

text \<open>The image root is read-only; every other call works.\<close>

definition ex_disk_os :: disk_os where
  "ex_disk_os =
     \<lparr>fault = (\<lambda>k. if k = 0 then Some (Sentinel Sys_EROFS) else None), written = (\<lambda>_. 0),
      temp_name = (\<lambda>k dir. dir @ ''/.verdict-''), show_err = (\<lambda>_. [])\<rparr>"

lemma ex_temp: "temp_name ex_disk_os k (Dir ''/v'') \<noteq> ''/v''"
proof -
  have "Dir ''/v'' = ''/''" by code_simp
  then show ?thesis by (simp add: ex_disk_os_def)
qed

theorem verdict_atomic_witness:
  "contents (snd (writeVerdict ex_disk_os ''/v'' ''fine'' (ex_disk\<lparr>calls := 1\<rparr>))) ''/v'' = Some ''fine''"
proof -
  have "writeVerdict ex_disk_os ''/v'' ''fine'' (ex_disk\<lparr>calls := 1\<rparr>) =
      (None, snd (writeVerdict ex_disk_os ''/v'' ''fine'' (ex_disk\<lparr>calls := 1\<rparr>)))"
    by (simp add: writeVerdict_def sys_def write_at_def after_def ex_disk_os_def ex_disk_def Let_def)
  from verdict_atomic[OF ex_temp this] show ?thesis by simp
qed






end
