(* ===== verification/OsVolume.thy ===== *)
theory OsVolume
  imports GoPath "HOL-Library.List_Lexorder" "HOL-Library.Char_ord"
begin

text \<open>
  The calls of package \<^verbatim>\<open>os\<close> that the filestore peer makes, on a tree of files and directories.
  A path is its list of segments from the root of the tree; the entries of a directory are in the
  order in which \<^verbatim>\<open>os.ReadDir\<close> lists them.  Links, permissions and open-file state are not part of
  the model; an error of the host (a full disk, a failed read) is injected by \<open>os_fault\<close>.

  The view of a tree, \<open>view\<close>, maps a path to what is there.  The lemmas at the end say what every
  call does to the view: they are the file store the peer relies on, independent of the tree.
\<close>

subsection \<open>Trees\<close>

datatype vnode = VFile bytes | VDir "(string \<times> vnode) list"

datatype errno = ENOENT | EEXIST | ENOTDIR | EISDIR | ENOTEMPTY | EINVAL | EBUSY | EACCES | EIO | ENOSPC

fun vlookup :: "string list \<Rightarrow> vnode \<Rightarrow> errno + vnode" where
  "vlookup [] v = Inr v"
| "vlookup (s # ss) (VFile b) = Inl ENOTDIR"
| "vlookup (s # ss) (VDir es) = (case map_of es s of None \<Rightarrow> Inl ENOENT | Some v \<Rightarrow> vlookup ss v)"

fun put_entry :: "string \<Rightarrow> vnode \<Rightarrow> (string \<times> vnode) list \<Rightarrow> (string \<times> vnode) list" where
  "put_entry n v [] = [(n, v)]"
| "put_entry n v ((m, w) # es) =
     (if n = m then (n, v) # es
      else if n < m then (n, v) # (m, w) # es
      else (m, w) # put_entry n v es)"

definition del_entry :: "string \<Rightarrow> (string \<times> vnode) list \<Rightarrow> (string \<times> vnode) list" where
  "del_entry n es = filter (\<lambda>e. fst e \<noteq> n) es"

text \<open>Change the node at a path.\<close>

fun vmodify :: "string list \<Rightarrow> (vnode \<Rightarrow> errno + vnode) \<Rightarrow> vnode \<Rightarrow> errno + vnode" where
  "vmodify [] f v = f v"
| "vmodify (s # ss) f (VFile b) = Inl ENOTDIR"
| "vmodify (s # ss) f (VDir es) =
     (case map_of es s of
        None \<Rightarrow> Inl ENOENT
      | Some v \<Rightarrow> map_sum id (\<lambda>v'. VDir (put_entry s v' es)) (vmodify ss f v))"

definition in_dir :: "((string \<times> vnode) list \<Rightarrow> errno + (string \<times> vnode) list) \<Rightarrow> vnode \<Rightarrow> errno + vnode" where
  "in_dir f d = (case d of VFile b \<Rightarrow> Inl ENOTDIR | VDir es \<Rightarrow> map_sum id VDir (f es))"

definition set_file :: "string \<Rightarrow> bytes \<Rightarrow> (string \<times> vnode) list \<Rightarrow> errno + (string \<times> vnode) list" where
  "set_file n b es =
     (case map_of es n of
        Some (VDir _) \<Rightarrow> Inl EISDIR
      | _ \<Rightarrow> Inr (put_entry n (VFile b) es))"

definition unlink_or_rmdir :: "string \<Rightarrow> (string \<times> vnode) list \<Rightarrow> errno + (string \<times> vnode) list" where
  "unlink_or_rmdir n es =
     (case map_of es n of
        None \<Rightarrow> Inl ENOENT
      | Some (VFile _) \<Rightarrow> Inr (del_entry n es)
      | Some (VDir ds) \<Rightarrow> if ds = [] then Inr (del_entry n es) else Inl ENOTEMPTY)"

fun mkdirs :: "string list \<Rightarrow> vnode \<Rightarrow> errno + vnode" where
  "mkdirs ss (VFile b) = Inl ENOTDIR"
| "mkdirs [] (VDir es) = Inr (VDir es)"
| "mkdirs (s # ss) (VDir es) =
     map_sum id (\<lambda>v. VDir (put_entry s v es))
       (mkdirs ss (case map_of es s of None \<Rightarrow> VDir [] | Some v \<Rightarrow> v))"

subsection \<open>Package os\<close>

datatype syscall =
    ScStat "string list"
  | ScMkdirAll "string list"
  | ScOpenWrite "string list"
  | ScOpenRead "string list"
  | ScRead "string list"
  | ScWrite "string list"
  | ScClose "string list"
  | ScSeek "string list"
  | ScReadDir "string list"
  | ScRemove "string list"
  | ScRemoveAll "string list"
  | ScRename "string list" "string list"

record hostos =
  os_fault :: "syscall \<Rightarrow> errno option"
  os_partial :: "string list \<Rightarrow> nat"

definition os_query :: "hostos \<Rightarrow> syscall \<Rightarrow> (vnode \<Rightarrow> errno + 'a) \<Rightarrow> vnode \<Rightarrow> errno + 'a" where
  "os_query os c f v = (case os_fault os c of Some e \<Rightarrow> Inl e | None \<Rightarrow> f v)"

definition os_change :: "hostos \<Rightarrow> syscall \<Rightarrow> (vnode \<Rightarrow> errno + vnode) \<Rightarrow> vnode \<Rightarrow> errno option \<times> vnode" where
  "os_change os c f v =
     (case os_query os c f v of Inl e \<Rightarrow> (Some e, v) | Inr v' \<Rightarrow> (None, v'))"

definition os_Stat :: "hostos \<Rightarrow> string list \<Rightarrow> vnode \<Rightarrow> errno + vnode" where
  "os_Stat os p = os_query os (ScStat p) (vlookup p)"

definition os_Open :: "hostos \<Rightarrow> string list \<Rightarrow> vnode \<Rightarrow> errno + vnode" where
  "os_Open os p = os_query os (ScOpenRead p) (vlookup p)"

definition os_MkdirAll :: "hostos \<Rightarrow> string list \<Rightarrow> vnode \<Rightarrow> errno option \<times> vnode" where
  "os_MkdirAll os p = os_change os (ScMkdirAll p) (mkdirs p)"

text \<open>\<^verbatim>\<open>OpenFile\<close> with \<^verbatim>\<open>O_CREATE|O_WRONLY|O_TRUNC\<close>.\<close>

definition create_file :: "string list \<Rightarrow> vnode \<Rightarrow> errno + vnode" where
  "create_file p v = (if p = [] then Inl EISDIR else vmodify (butlast p) (in_dir (set_file (last p) [])) v)"

definition os_Create :: "hostos \<Rightarrow> string list \<Rightarrow> vnode \<Rightarrow> errno option \<times> vnode" where
  "os_Create os p = os_change os (ScOpenWrite p) (create_file p)"

text \<open>
  Bytes copied into the file opened for writing at \<open>p\<close>; a write that fails leaves the bytes
  written before it.
\<close>

definition write_bytes :: "string list \<Rightarrow> bytes \<Rightarrow> vnode \<Rightarrow> vnode" where
  "write_bytes p b v =
     (case vmodify p (\<lambda>n. case n of VFile _ \<Rightarrow> Inr (VFile b) | VDir _ \<Rightarrow> Inl EISDIR) v of
        Inl e \<Rightarrow> v
      | Inr v' \<Rightarrow> v')"

definition os_Write :: "hostos \<Rightarrow> string list \<Rightarrow> bytes \<Rightarrow> vnode \<Rightarrow> errno option \<times> vnode" where
  "os_Write os p b v =
     (case os_fault os (ScWrite p) of
        Some e \<Rightarrow> (Some e, write_bytes p (take (os_partial os p) b) v)
      | None \<Rightarrow> (None, write_bytes p b v))"

definition os_ReadDir :: "hostos \<Rightarrow> string list \<Rightarrow> vnode \<Rightarrow> errno + (string \<times> vnode) list" where
  "os_ReadDir os p =
     os_query os (ScReadDir p)
       (\<lambda>v. case vlookup p v of Inl e \<Rightarrow> Inl e | Inr (VFile _) \<Rightarrow> Inl ENOTDIR | Inr (VDir es) \<Rightarrow> Inr es)"

definition remove_node :: "string list \<Rightarrow> vnode \<Rightarrow> errno + vnode" where
  "remove_node p v = (if p = [] then Inl EBUSY else vmodify (butlast p) (in_dir (unlink_or_rmdir (last p))) v)"

definition os_Remove :: "hostos \<Rightarrow> string list \<Rightarrow> vnode \<Rightarrow> errno option \<times> vnode" where
  "os_Remove os p = os_change os (ScRemove p) (remove_node p)"

text \<open>\<^verbatim>\<open>RemoveAll\<close>: a missing path is no error; the root itself cannot go.\<close>

definition remove_tree :: "string list \<Rightarrow> vnode \<Rightarrow> errno option \<times> vnode" where
  "remove_tree p v =
     (if p = [] then (Some EBUSY, VDir [])
      else
        (case vmodify (butlast p) (in_dir (\<lambda>es. Inr (del_entry (last p) es))) v of
           Inl e \<Rightarrow> (if e = ENOENT then None else Some e, v)
         | Inr v' \<Rightarrow> (None, v')))"

definition os_RemoveAll :: "hostos \<Rightarrow> string list \<Rightarrow> vnode \<Rightarrow> errno option \<times> vnode" where
  "os_RemoveAll os p v =
     (case os_fault os (ScRemoveAll p) of Some e \<Rightarrow> (Some e, v) | None \<Rightarrow> remove_tree p v)"

text \<open>
  \<^verbatim>\<open>os.Rename\<close>: a directory at the destination is refused before the kernel is asked; the kernel
  refuses a directory moved below itself or over a file.
\<close>

definition rename_node :: "string list \<Rightarrow> string list \<Rightarrow> vnode \<Rightarrow> errno + vnode" where
  "rename_node p q v =
     (case vlookup p v of
        Inl e \<Rightarrow> Inl e
      | Inr nd \<Rightarrow>
          (case vlookup q v of
             Inr (VDir _) \<Rightarrow> Inl EEXIST
           | r \<Rightarrow>
               if p = q then Inr v
               else if p = [] then Inl EBUSY
               else if prefix p q then (case nd of VDir _ \<Rightarrow> Inl EINVAL | VFile _ \<Rightarrow> Inl ENOTDIR)
               else
                 (case vlookup (butlast q) v of
                    Inl e \<Rightarrow> Inl e
                  | Inr (VFile _) \<Rightarrow> Inl ENOTDIR
                  | Inr (VDir _) \<Rightarrow>
                      (case (nd, r) of
                         (VDir _, Inr (VFile _)) \<Rightarrow> Inl ENOTDIR
                       | _ \<Rightarrow>
                           (case vmodify (butlast p) (in_dir (\<lambda>es. Inr (del_entry (last p) es))) v of
                              Inl e \<Rightarrow> Inl e
                            | Inr v1 \<Rightarrow>
                                vmodify (butlast q) (in_dir (\<lambda>es. Inr (put_entry (last q) nd es))) v1)))))"

definition os_Rename :: "hostos \<Rightarrow> string list \<Rightarrow> string list \<Rightarrow> vnode \<Rightarrow> errno option \<times> vnode" where
  "os_Rename os p q = os_change os (ScRename p q) (rename_node p q)"

text \<open>\<^verbatim>\<open>filepath.WalkDir\<close>: the files below a node, in lexical order, by their path from it.\<close>

primrec walk_files :: "vnode \<Rightarrow> string list list" where
  "walk_files (VFile b) = [[]]"
| "walk_files (VDir es) = concat (map (\<lambda>(n, ps). map (\<lambda>p. n # p) ps) (map (map_prod id walk_files) es))"

subsection \<open>The view of a tree\<close>

datatype inode = IFile bytes | IDir

fun inode_of :: "vnode \<Rightarrow> inode" where
  "inode_of (VFile b) = IFile b"
| "inode_of (VDir es) = IDir"

definition view :: "vnode \<Rightarrow> string list \<Rightarrow> inode option" where
  "view v p = (case vlookup p v of Inl e \<Rightarrow> None | Inr n \<Rightarrow> Some (inode_of n))"

lemma map_of_put_entry [simp]: "map_of (put_entry n v es) = (map_of es)(n \<mapsto> v)"
  by (induction n v es rule: put_entry.induct) auto

lemma map_of_del_entry [simp]: "map_of (del_entry n es) = (map_of es)(n := None)"
  by (induction es) (auto simp: del_entry_def)

lemma view_simps [simp]:
  "view v [] = Some (inode_of v)"
  "view (VFile b) (s # ss) = None"
  "view (VDir es) (s # ss) = (case map_of es s of None \<Rightarrow> None | Some v \<Rightarrow> view v ss)"
  by (auto simp: view_def split: option.splits)

lemma vlookup_append:
  "vlookup (p @ q) v = (case vlookup p v of Inl e \<Rightarrow> Inl e | Inr n \<Rightarrow> vlookup q n)"
  by (induction p v rule: vlookup.induct) (auto split: option.splits)

lemma view_append: "view v (p @ q) = (case vlookup p v of Inl e \<Rightarrow> None | Inr n \<Rightarrow> view n q)"
  by (auto simp: view_def vlookup_append split: sum.splits)

lemma view_file_iff: "view v p = Some (IFile b) \<longleftrightarrow> vlookup p v = Inr (VFile b)"
  by (auto simp: view_def split: sum.splits elim!: inode_of.elims)

lemma view_dir_iff: "view v p = Some IDir \<longleftrightarrow> (\<exists>es. vlookup p v = Inr (VDir es))"
  by (auto simp: view_def split: sum.splits elim!: inode_of.elims)

lemma view_parent: "view v (p @ q) = Some i \<Longrightarrow> q \<noteq> [] \<Longrightarrow> view v p = Some IDir"
proof (induction p v rule: vlookup.induct)
  case (1 v)
  then show ?case by (cases v; cases q) auto
qed (auto split: option.splits)

text \<open>What a change below a path does to the view.\<close>

lemma vmodify_view:
  assumes "vmodify p f v = Inr v'"
  obtains d d' where "vlookup p v = Inr d" "f d = Inr d'"
    and "\<forall>q. view v' q = (if prefix p q then view d' (drop (length p) q) else view v q)"
proof -
  from assms have "\<exists>d d'. vlookup p v = Inr d \<and> f d = Inr d' \<and>
      (\<forall>q. view v' q = (if prefix p q then view d' (drop (length p) q) else view v q))"
  proof (induction p f v arbitrary: v' rule: vmodify.induct)
    case (3 s ss f es)
    obtain w w' where w: "map_of es s = Some w" "vmodify ss f w = Inr w'" "v' = VDir (put_entry s w' es)"
      using "3.prems" by (auto simp: map_sum_def split: option.splits sum.splits)
    from "3.IH"[OF w(1,2)] obtain d d' where IH: "vlookup ss w = Inr d" "f d = Inr d'"
      "\<And>q. view w' q = (if prefix ss q then view d' (drop (length ss) q) else view w q)" by blast
    have "view v' q = (if prefix (s # ss) q then view d' (drop (length (s # ss)) q) else view (VDir es) q)" for q
      using IH(3) w by (cases q) auto
    then show ?case using IH(1,2) w(1) by auto
  qed auto
  then show ?thesis using that by blast
qed

lemma vmodify_ok:
  "vlookup p v = Inr d \<Longrightarrow> f d = Inr d' \<Longrightarrow> \<exists>v'. vmodify p f v = Inr v'"
proof (induction p f v rule: vmodify.induct)
  case (3 s ss f es)
  then show ?case by (cases "map_of es s") auto
qed auto

lemma vmodify_error:
  "vlookup p v = Inl e \<Longrightarrow> vmodify p f v = Inl e"
  "vlookup p v = Inr d \<Longrightarrow> f d = Inl e \<Longrightarrow> vmodify p f v = Inl e"
proof -
  show "vlookup p v = Inl e \<Longrightarrow> vmodify p f v = Inl e"
    by (induction p f v rule: vmodify.induct) (auto split: option.splits)
  show "vlookup p v = Inr d \<Longrightarrow> f d = Inl e \<Longrightarrow> vmodify p f v = Inl e"
    by (induction p f v rule: vmodify.induct) (auto split: option.splits)
qed

text \<open>A change of one directory, seen from outside: the entry \<open>n\<close> becomes \<open>new\<close>.\<close>

lemma dir_change_view:
  assumes "vmodify p (in_dir f) v = Inr v'"
    and "\<And>es es'. f es = Inr es' \<Longrightarrow> map_of es' = (map_of es)(n := new)"
  shows "view v p = Some IDir"
    and "view v' r = (if prefix (p @ [n]) r
           then (case new of None \<Rightarrow> None | Some w \<Rightarrow> view w (drop (Suc (length p)) r)) else view v r)"
proof -
  obtain d d' where d: "vlookup p v = Inr d" "in_dir f d = Inr d'"
    and v': "\<forall>q. view v' q = (if prefix p q then view d' (drop (length p) q) else view v q)"
    by (rule vmodify_view[OF assms(1)])
  obtain es es' where es: "d = VDir es" "f es = Inr es'" "d' = VDir es'"
    using d(2) by (auto simp: in_dir_def map_sum_def split: vnode.splits sum.splits)
  note m = assms(2)[OF es(2)]
  show "view v p = Some IDir" using d(1) es(1) by (auto simp: view_dir_iff)
  show "view v' r = (if prefix (p @ [n]) r
           then (case new of None \<Rightarrow> None | Some w \<Rightarrow> view w (drop (Suc (length p)) r)) else view v r)"
  proof (cases "prefix p r")
    case True
    then obtain t where t: "r = p @ t" by (auto simp: prefix_def)
    have "view v r = view d t" using d(1) by (simp add: t view_append)
    then show ?thesis using v' m es True by (cases t) (auto simp: t split: option.splits)
  next
    case False
    then show ?thesis using v' by (auto simp: prefix_def)
  qed
qed

lemma dir_change_ok:
  assumes "view v p = Some IDir" "\<And>es. vlookup p v = Inr (VDir es) \<Longrightarrow> \<exists>es'. f es = Inr es'"
  obtains v' where "vmodify p (in_dir f) v = Inr v'"
proof -
  obtain es where es: "vlookup p v = Inr (VDir es)" using assms(1) by (auto simp: view_dir_iff)
  then obtain es' where "f es = Inr es'" using assms(2) by blast
  then have "in_dir f (VDir es) = Inr (VDir es')" by (simp add: in_dir_def)
  with es vmodify_ok[of p v "VDir es" "in_dir f"] that show ?thesis by blast
qed

lemma entry_view:
  "vlookup p v = Inr (VDir es) \<Longrightarrow> view v (p @ [n]) = map_option inode_of (map_of es n)"
  by (auto simp: view_append split: option.splits)

lemma prefix_snoc_split: "p \<noteq> [] \<Longrightarrow> butlast p @ [last p] = p"
  by simp

lemma file_view_upd:
  assumes "\<And>r. view v' r = (if prefix p r then view (VFile b) (drop (length p) r) else view v r)"
    and "view v p \<noteq> Some IDir"
  shows "view v' = (view v)(p \<mapsto> IFile b)"
proof
  fix r
  show "view v' r = ((view v)(p \<mapsto> IFile b)) r"
  proof (cases "prefix p r")
    case True
    then obtain t where t: "r = p @ t" by (auto simp: prefix_def)
    show ?thesis
    proof (cases t)
      case (Cons n ns)
      then have "view v r = None" using view_parent[of v p t] assms(2) t by (cases "view v r") auto
      then show ?thesis using assms(1)[of r] t Cons by simp
    qed (use assms(1)[of r] t in simp)
  qed (use assms(1)[of r] in auto)
qed

subsection \<open>The file store the calls implement\<close>

lemma create_file_view:
  assumes "create_file p v = Inr v'"
  shows "view v' = (view v)(p \<mapsto> IFile [])"
    and "p \<noteq> []" "view v (butlast p) = Some IDir" "view v p \<noteq> Some IDir"
proof -
  show p: "p \<noteq> []" using assms by (auto simp: create_file_def)
  with assms have m: "vmodify (butlast p) (in_dir (set_file (last p) [])) v = Inr v'"
    by (simp add: create_file_def)
  have f: "map_of es' = (map_of es)(last p := Some (VFile []))" if "set_file (last p) [] es = Inr es'" for es es'
    using that by (auto simp: set_file_def split: option.splits vnode.splits)
  note ch = dir_change_view[OF m f]
  show parent: "view v (butlast p) = Some IDir" by (rule ch(1))
  obtain es where es: "vlookup (butlast p) v = Inr (VDir es)" using parent by (auto simp: view_dir_iff)
  have "\<exists>es'. set_file (last p) [] es = Inr es'"
    using vmodify_error(2)[OF es, of "in_dir (set_file (last p) [])"] m
    by (cases "set_file (last p) [] es") (auto simp: in_dir_def)
  then have "map_option inode_of (map_of es (last p)) \<noteq> Some IDir"
    by (auto simp: set_file_def split: option.splits vnode.splits elim!: inode_of.elims)
  then show nd: "view v p \<noteq> Some IDir" using entry_view[OF es, of "last p"] p by simp
  have "view v' r = (if prefix p r then view (VFile []) (drop (length p) r) else view v r)" for r
    using ch(2)[of r] p by simp
  then show "view v' = (view v)(p \<mapsto> IFile [])" by (rule file_view_upd[OF _ nd])
qed

lemma create_file_ok:
  assumes "p \<noteq> []" "view v (butlast p) = Some IDir" "view v p \<noteq> Some IDir"
  obtains v' where "create_file p v = Inr v'"
proof -
  have "\<exists>es'. set_file (last p) [] es = Inr es'" if "vlookup (butlast p) v = Inr (VDir es)" for es
    using entry_view[OF that, of "last p"] assms(1,3)
    by (auto simp: set_file_def split: option.splits vnode.splits)
  then show ?thesis
    using dir_change_ok[OF assms(2)] that assms(1) by (metis create_file_def)
qed

lemma write_bytes_view:
  assumes "view v p = Some (IFile b0)"
  shows "view (write_bytes p b v) = (view v)(p \<mapsto> IFile b)"
proof -
  let ?f = "\<lambda>n. case n of VFile _ \<Rightarrow> Inr (VFile b) | VDir _ \<Rightarrow> Inl EISDIR"
  have l: "vlookup p v = Inr (VFile b0)" using assms by (simp add: view_file_iff)
  then obtain v' where v': "vmodify p ?f v = Inr v'" using vmodify_ok[of p v "VFile b0" ?f] by auto
  obtain d d' where d: "vlookup p v = Inr d" "?f d = Inr d'"
    and vw: "\<forall>q. view v' q = (if prefix p q then view d' (drop (length p) q) else view v q)"
    by (rule vmodify_view[OF v'])
  have "d' = VFile b" using d l by auto
  then have "view v' = (view v)(p \<mapsto> IFile b)"
    using vw assms by (intro file_view_upd) auto
  then show ?thesis by (simp add: write_bytes_def v')
qed

lemma mkdirs_view:
  "mkdirs p v = Inr v' \<Longrightarrow> view v' q = (if prefix q p then Some IDir else view v q)"
proof (induction p v arbitrary: v' q rule: mkdirs.induct)
  case (2 es)
  then show ?case by (cases q) auto
next
  case (3 s ss es)
  let ?w = "case map_of es s of None \<Rightarrow> VDir [] | Some v \<Rightarrow> v"
  obtain w' where w': "mkdirs ss ?w = Inr w'" "v' = VDir (put_entry s w' es)"
    using "3.prems" by (auto simp: map_sum_def split: sum.splits)
  show ?case
  proof (cases q)
    case (Cons n ns)
    show ?thesis
    proof (cases "n = s")
      case True
      then show ?thesis
        using "3.IH"[OF w'(1), of ns] w'(2) Cons by (cases "map_of es s"; cases ns) auto
    qed (use w' Cons in auto)
  qed (use w' in simp)
qed auto

lemma mkdirs_ok:
  "(\<And>q b. prefix q p \<Longrightarrow> view v q \<noteq> Some (IFile b)) \<Longrightarrow> \<exists>v'. mkdirs p v = Inr v'"
proof (induction p v rule: mkdirs.induct)
  case (1 ss b)
  then show ?case using "1.prems"[of "[]" b] by simp
next
  case (3 s ss es)
  let ?w = "case map_of es s of None \<Rightarrow> VDir [] | Some v \<Rightarrow> v"
  have "view ?w q \<noteq> Some (IFile b)" if "prefix q ss" for q b
    using "3.prems"[of "s # q" b] that by (cases "map_of es s"; cases q) auto
  then show ?case using "3.IH" by fastforce
qed auto

lemma mkdirs_error:
  assumes "mkdirs p v = Inl e"
  shows "e = ENOTDIR" "\<exists>q b. prefix q p \<and> view v q = Some (IFile b)"
proof -
  show "e = ENOTDIR"
    using assms by (induction p v rule: mkdirs.induct) (auto simp: map_sum_def split: sum.splits)
  show "\<exists>q b. prefix q p \<and> view v q = Some (IFile b)"
    using mkdirs_ok[of p v] assms by auto
qed

lemma remove_node_view:
  assumes "remove_node p v = Inr v'"
  shows "view v' = (view v)(p := None)" "view v p \<noteq> None" "p \<noteq> []"
proof -
  show ne: "p \<noteq> []" using assms by (auto simp: remove_node_def)
  then obtain d n where p: "p = d @ [n]" by (cases p rule: rev_cases) auto
  have m: "vmodify d (in_dir (unlink_or_rmdir n)) v = Inr v'"
    using assms by (simp add: remove_node_def p)
  have f: "map_of es' = (map_of es)(n := None)" if "unlink_or_rmdir n es = Inr es'" for es es'
    using that by (auto simp: unlink_or_rmdir_def split: option.splits vnode.splits if_splits)
  note ch = dir_change_view[OF m f]
  obtain es where es: "vlookup d v = Inr (VDir es)" using ch(1) by (auto simp: view_dir_iff)
  have "\<exists>es'. unlink_or_rmdir n es = Inr es'"
    using vmodify_error(2)[OF es, of "in_dir (unlink_or_rmdir n)"] m
    by (cases "unlink_or_rmdir n es") (auto simp: in_dir_def)
  then have e: "map_of es n = Some (VDir []) \<or> (\<exists>b. map_of es n = Some (VFile b))"
    by (auto simp: unlink_or_rmdir_def split: option.splits vnode.splits if_splits)
  then show "view v p \<noteq> None" using entry_view[OF es, of n] p by auto
  have below: "view v (p @ m # t) = None" for m t
    using e es by (auto simp: view_append vlookup_append p)
  have at: "view v' r = (if prefix p r then None else view v r)" for r
    using ch(2)[of r] p by simp
  show "view v' = (view v)(p := None)"
  proof
    fix r
    show "view v' r = ((view v)(p := None)) r"
    proof (cases "prefix p r")
      case True
      then obtain t where t: "r = p @ t" by (auto simp: prefix_def)
      then show ?thesis using at[of r] below by (cases t) auto
    qed (use at[of r] in auto)
  qed
qed

lemma remove_file_ok:
  assumes "view v p = Some (IFile b)" "p \<noteq> []"
  obtains v' where "remove_node p v = Inr v'"
proof -
  obtain d n where p: "p = d @ [n]" using assms(2) by (cases p rule: rev_cases) auto
  have parent: "view v d = Some IDir" using view_parent[of v d "[n]"] assms p by simp
  have "\<exists>es'. unlink_or_rmdir n es = Inr es'" if "vlookup d v = Inr (VDir es)" for es
    using entry_view[OF that, of n] assms p
    by (cases "map_of es n") (auto simp: unlink_or_rmdir_def split: vnode.splits)
  then obtain v' where "vmodify d (in_dir (unlink_or_rmdir n)) v = Inr v'"
    using dir_change_ok[OF parent, of "unlink_or_rmdir n"] by blast
  then show ?thesis using that by (simp add: remove_node_def p)
qed

lemma del_view:
  assumes "vmodify (butlast p) (in_dir (\<lambda>es. Inr (del_entry (last p) es))) v = Inr v'" "p \<noteq> []"
  shows "view v (butlast p) = Some IDir" "view v' r = (if prefix p r then None else view v r)"
  using dir_change_view[OF assms(1), of "last p" None] assms(2) by simp_all

lemma remove_tree_view:
  assumes "remove_tree p v = (None, v')"
  shows "view v' r = (if prefix p r then None else view v r)"
proof -
  obtain d n where p: "p = d @ [n]" using assms by (cases p rule: rev_cases) (auto simp: remove_tree_def)
  let ?f = "\<lambda>es. Inr (del_entry n es)"
  show ?thesis
  proof (cases "vmodify d (in_dir ?f) v")
    case (Inl e)
    then have v': "v' = v" using assms by (auto simp: remove_tree_def p split: if_splits)
    have "view v d \<noteq> Some IDir" using dir_change_ok[of v d ?f] Inl by auto
    then have "view v (d @ n # t) = None" for t
      using view_parent[of v d "n # t"] by (cases "view v (d @ n # t)") auto
    then show ?thesis using v' p by (auto simp: prefix_def)
  next
    case (Inr v1)
    then have "v' = v1" using assms by (auto simp: remove_tree_def p split: if_splits)
    then show ?thesis using del_view(2)[of p v v1 r] Inr p by simp
  qed
qed

lemma rename_nodeE:
  assumes "rename_node p q v = Inr v'" "p \<noteq> q"
  obtains nd v1 where "vlookup p v = Inr nd" "view v q \<noteq> Some IDir" "\<not> prefix p q"
    "vmodify (butlast p) (in_dir (\<lambda>es. Inr (del_entry (last p) es))) v = Inr v1"
    "vmodify (butlast q) (in_dir (\<lambda>es. Inr (put_entry (last q) nd es))) v1 = Inr v'"
  using assms by (auto simp: rename_node_def view_dir_iff split: sum.splits vnode.splits if_splits)

lemma rename_node_view:
  assumes "rename_node p q v = Inr v'" "p \<noteq> q"
  shows "view v' r = (if prefix q r then view v (p @ drop (length q) r)
                      else if prefix p r then None else view v r)"
    and "view v p \<noteq> None" "view v q \<noteq> Some IDir" "\<not> prefix p q" "q \<noteq> []"
proof -
  obtain nd v1 where nd: "vlookup p v = Inr nd" and qd: "view v q \<noteq> Some IDir" and pq: "\<not> prefix p q"
    and v1: "vmodify (butlast p) (in_dir (\<lambda>es. Inr (del_entry (last p) es))) v = Inr v1"
    and v': "vmodify (butlast q) (in_dir (\<lambda>es. Inr (put_entry (last q) nd es))) v1 = Inr v'"
    using assms by (rule rename_nodeE)
  show pn: "view v p \<noteq> None" using nd by (simp add: view_def)
  show "view v q \<noteq> Some IDir" "\<not> prefix p q" by (rule qd, rule pq)
  have p: "p \<noteq> []" using pq by auto
  show q: "q \<noteq> []" using view_parent[of v "[]" p] pn p qd by auto
  have "view v' r = (if prefix q r then view nd (drop (length q) r) else view v1 r)"
    using dir_change_view(2)[OF v', of "last q" "Some nd" r] q by simp
  moreover have "view nd (drop (length q) r) = view v (p @ drop (length q) r)"
    using nd by (simp add: view_append)
  ultimately show "view v' r = (if prefix q r then view v (p @ drop (length q) r)
                      else if prefix p r then None else view v r)"
    using del_view(2)[OF v1 p, of r] by simp
qed

lemma rename_ok:
  assumes "view v p = Some i" "\<not> prefix p q" "view v (butlast q) = Some IDir"
    and "view v q = None \<or> (\<exists>b c. i = IFile b \<and> view v q = Some (IFile c))"
  obtains v' where "rename_node p q v = Inr v'"
proof -
  let ?del = "\<lambda>es. Inr (del_entry (last p) es)"
  obtain nd where nd: "vlookup p v = Inr nd" "i = inode_of nd"
    using assms(1) by (auto simp: view_def split: sum.splits)
  obtain ds where ds: "vlookup (butlast q) v = Inr (VDir ds)" using assms(3) by (auto simp: view_dir_iff)
  have p: "p \<noteq> []" "p \<noteq> q" using assms(2) by auto
  have "view v (butlast p) = Some IDir" using view_parent[of v "butlast p" "[last p]"] assms(1) p by simp
  then obtain v1 where v1: "vmodify (butlast p) (in_dir ?del) v = Inr v1"
    using dir_change_ok[of v "butlast p" ?del] by blast
  have "\<not> prefix p (butlast q)" using assms(2) prefixeq_butlast prefix_order.order_trans by blast
  then have "view v1 (butlast q) = Some IDir" using del_view(2)[OF v1 p(1)] assms(3) by simp
  then obtain v' where v': "vmodify (butlast q) (in_dir (\<lambda>es. Inr (put_entry (last q) nd es))) v1 = Inr v'"
    using dir_change_ok[of v1 "butlast q" "\<lambda>es. Inr (put_entry (last q) nd es)"] by blast
  have "rename_node p q v = Inr v'"
    using assms(4) nd ds p assms(2) v1 v'
    by (cases "vlookup q v"; cases nd) (auto simp: rename_node_def view_def split: vnode.splits)
  then show ?thesis by (rule that)
qed

subsection \<open>Well-formed trees\<close>

text \<open>The entries of every directory are in strictly increasing order of their names.\<close>

primrec vwf :: "vnode \<Rightarrow> bool" where
  "vwf (VFile b) \<longleftrightarrow> True"
| "vwf (VDir es) \<longleftrightarrow> sorted_wrt (<) (map fst es) \<and> list_all snd (map (map_prod id vwf) es)"

lemma vwf_VDir: "vwf (VDir es) \<longleftrightarrow> sorted_wrt (<) (map fst es) \<and> (\<forall>(n, w) \<in> set es. vwf w)"
  by (auto simp: list_all_iff)

declare vwf.simps(2) [simp del]

lemma set_put_entry: "set (put_entry n v es) \<subseteq> insert (n, v) (set es)"
  by (induction n v es rule: put_entry.induct) auto

lemma sorted_put_entry: "sorted_wrt (<) (map fst es) \<Longrightarrow> sorted_wrt (<) (map fst (put_entry n v es))"
proof (induction n v es rule: put_entry.induct)
  case (2 n v m w es)
  have new: "m < fst x" if "m < n" "\<forall>x \<in> set es. m < fst x" "x \<in> set (put_entry n v es)" for x
    using set_put_entry[of n v es] that by auto
  have "n \<noteq> m \<Longrightarrow> \<not> n < m \<Longrightarrow> m < n" by simp
  then show ?case using 2 new by (auto simp del: not_less dest: order.strict_trans)
qed simp

lemma vwf_put_entry: "vwf (VDir es) \<Longrightarrow> vwf w \<Longrightarrow> vwf (VDir (put_entry n w es))"
  using set_put_entry[of n w es] sorted_put_entry[of es n w] unfolding vwf_VDir by blast

lemma vwf_del_entry: "vwf (VDir es) \<Longrightarrow> vwf (VDir (del_entry n es))"
  by (auto simp: vwf_VDir del_entry_def sorted_wrt_map sorted_wrt_filter)

lemma vwf_entry: "vwf (VDir es) \<Longrightarrow> map_of es n = Some w \<Longrightarrow> vwf w"
  using map_of_SomeD[of es n w] unfolding vwf_VDir by blast

lemma vwf_lookup: "vwf v \<Longrightarrow> vlookup p v = Inr d \<Longrightarrow> vwf d"
  by (induction p v rule: vlookup.induct) (auto split: option.splits dest: vwf_entry)

lemma vwf_vmodify:
  assumes "vwf v" "vmodify p f v = Inr v'" "\<And>d d'. vwf d \<Longrightarrow> f d = Inr d' \<Longrightarrow> vwf d'"
  shows "vwf v'"
  using assms
proof (induction p f v arbitrary: v' rule: vmodify.induct)
  case (3 s ss f es)
  obtain w w' where w: "map_of es s = Some w" "vmodify ss f w = Inr w'" "v' = VDir (put_entry s w' es)"
    using "3.prems"(2) by (auto simp: map_sum_def split: option.splits sum.splits)
  have "vwf w'" by (rule "3.IH"[OF w(1) vwf_entry[OF "3.prems"(1) w(1)] w(2) "3.prems"(3)])
  then show ?case unfolding w(3) by (rule vwf_put_entry[OF "3.prems"(1)])
qed auto

lemma vwf_in_dir:
  assumes "vwf d" "in_dir f d = Inr d'" "\<And>es es'. vwf (VDir es) \<Longrightarrow> f es = Inr es' \<Longrightarrow> vwf (VDir es')"
  shows "vwf d'"
  using assms by (auto simp: in_dir_def map_sum_def split: vnode.splits sum.splits)

lemma vwf_dir_change:
  assumes "vwf v" "vmodify p (in_dir f) v = Inr v'"
    and "\<And>es es'. vwf (VDir es) \<Longrightarrow> f es = Inr es' \<Longrightarrow> vwf (VDir es')"
  shows "vwf v'"
  using assms(1,2) by (rule vwf_vmodify) (rule vwf_in_dir[OF _ _ assms(3)])

lemma vwf_mkdirs: "vwf v \<Longrightarrow> mkdirs p v = Inr v' \<Longrightarrow> vwf v'"
proof (induction p v arbitrary: v' rule: mkdirs.induct)
  case (3 s ss es)
  let ?w = "case map_of es s of None \<Rightarrow> VDir [] | Some v \<Rightarrow> v"
  obtain w' where w': "mkdirs ss ?w = Inr w'" "v' = VDir (put_entry s w' es)"
    using "3.prems" by (auto simp: map_sum_def split: sum.splits)
  have "vwf ?w" using vwf_entry[OF "3.prems"(1)] by (cases "map_of es s") (auto simp: vwf_VDir)
  then have "vwf w'" using "3.IH" w'(1) by blast
  then show ?case unfolding w'(2) by (rule vwf_put_entry[OF "3.prems"(1)])
qed auto

lemma vwf_calls:
  assumes "vwf v"
  shows "create_file p v = Inr v' \<Longrightarrow> vwf v'"
    and "vwf (write_bytes p b v)"
    and "remove_node p v = Inr v' \<Longrightarrow> vwf v'"
    and "remove_tree p v = (e, v') \<Longrightarrow> vwf v'"
    and "rename_node p q v = Inr v' \<Longrightarrow> vwf v'"
proof -
  have set: "vwf (VDir es) \<Longrightarrow> set_file n c es = Inr es' \<Longrightarrow> vwf (VDir es')" for n c es es'
    using vwf_put_entry[of es "VFile c" n]
    by (auto simp: set_file_def split: option.splits vnode.splits)
  have unl: "vwf (VDir es) \<Longrightarrow> unlink_or_rmdir n es = Inr es' \<Longrightarrow> vwf (VDir es')" for n es es'
    using vwf_del_entry[of es n]
    by (auto simp: unlink_or_rmdir_def split: option.splits vnode.splits if_splits)
  have del: "vwf u \<Longrightarrow> vmodify r (in_dir (\<lambda>es. Inr (del_entry n es))) u = Inr u' \<Longrightarrow> vwf u'" for r n u u'
    by (erule vwf_dir_change) (auto intro: vwf_del_entry)
  have put: "vwf w \<Longrightarrow> vwf u \<Longrightarrow> vmodify r (in_dir (\<lambda>es. Inr (put_entry n w es))) u = Inr u' \<Longrightarrow> vwf u'" for r n w u u'
    by (erule vwf_dir_change) (auto intro: vwf_put_entry)
  show "vwf v'" if "create_file p v = Inr v'"
  proof -
    have "vmodify (butlast p) (in_dir (set_file (last p) [])) v = Inr v'"
      using that by (simp add: create_file_def split: if_splits)
    then show ?thesis using vwf_dir_change[OF assms] set by blast
  qed
  show "vwf (write_bytes p b v)"
  proof (cases "vmodify p (\<lambda>n. case n of VFile _ \<Rightarrow> Inr (VFile b) | VDir _ \<Rightarrow> Inl EISDIR) v")
    case (Inr u)
    then have "vwf u" by (rule vwf_vmodify[OF assms]) (auto split: vnode.splits)
    then show ?thesis using Inr by (simp add: write_bytes_def)
  qed (simp add: write_bytes_def assms)
  show "vwf v'" if "remove_node p v = Inr v'"
  proof -
    have "vmodify (butlast p) (in_dir (unlink_or_rmdir (last p))) v = Inr v'"
      using that by (simp add: remove_node_def split: if_splits)
    then show ?thesis using vwf_dir_change[OF assms] unl by blast
  qed
  show "vwf v'" if "remove_tree p v = (e, v')"
    using that del[OF assms, of "butlast p" "last p"] assms
    by (auto simp: remove_tree_def vwf_VDir split: if_splits sum.splits)
  show "vwf v'" if r: "rename_node p q v = Inr v'"
  proof (cases "p = q")
    case True
    then have "v' = v" using r by (auto simp: rename_node_def split: sum.splits vnode.splits)
    then show ?thesis using assms by simp
  next
    case False
    from r False obtain nd v1 where "vlookup p v = Inr nd"
      and v1: "vmodify (butlast p) (in_dir (\<lambda>es. Inr (del_entry (last p) es))) v = Inr v1"
      and v2: "vmodify (butlast q) (in_dir (\<lambda>es. Inr (put_entry (last q) nd es))) v1 = Inr v'"
      by (rule rename_nodeE)
    then show ?thesis using put[OF vwf_lookup[OF assms] del[OF assms v1] v2] by blast
  qed
qed

text \<open>In a well-formed tree the walk finds each file once, at the path of the view.\<close>

lemma walk_files_view: "vwf v \<Longrightarrow> p \<in> set (walk_files v) \<longleftrightarrow> (\<exists>b. view v p = Some (IFile b))"
proof (induction v arbitrary: p)
  case (VFile b)
  then show ?case by (cases p) auto
next
  case (VDir es)
  have d: "distinct (map fst es)" using VDir.prems by (simp add: vwf_VDir strict_sorted_iff)
  have IH: "q \<in> set (walk_files w) \<longleftrightarrow> (\<exists>b. view w q = Some (IFile b))" if "(n, w) \<in> set es" for n w q
    using VDir.IH[of "(n, w)" w q] that VDir.prems by (auto simp: vwf_VDir snds.simps)
  show ?case
  proof (cases p)
    case (Cons n q)
    have "p \<in> set (walk_files (VDir es)) \<longleftrightarrow> (\<exists>w. (n, w) \<in> set es \<and> q \<in> set (walk_files w))"
      using Cons by force
    also have "\<dots> \<longleftrightarrow> (\<exists>b. view (VDir es) p = Some (IFile b))"
      using IH Cons by (cases "map_of es n") (auto simp flip: map_of_eq_Some_iff[OF d])
    finally show ?thesis .
  qed auto
qed

end
