(* ===== verification/FileTree.thy ===== *)
theory FileTree
  imports OsVolume
begin

text \<open>
  The abstract file tree: a map from paths to files and directories, and the operations a remote
  file store performs on it.  It is the specification the filestore peer and the backend refine.
\<close>

type_synonym tree = "string list \<Rightarrow> inode option"

text \<open>No file stands where a directory on the way to the path is needed.\<close>

fun no_file :: "inode option \<Rightarrow> bool" where
  "no_file (Some (IFile b)) = False"
| "no_file _ = True"

definition parents_free :: "tree \<Rightarrow> string list \<Rightarrow> bool" where
  "parents_free T us \<longleftrightarrow> list_all (\<lambda>n. no_file (T (take n us))) [0..<length us]"

lemma no_file_iff: "no_file x \<longleftrightarrow> (\<forall>b. x \<noteq> Some (IFile b))"
  by (cases x rule: no_file.cases) auto

lemma strict_prefix_take: "strict_prefix q us \<longleftrightarrow> (\<exists>n < length us. q = take n us)"
proof
  assume q: "strict_prefix q us"
  then have "q = take (length q) us" by (auto simp: strict_prefix_def prefix_def)
  then show "\<exists>n < length us. q = take n us" using prefix_length_less[OF q] by blast
qed (auto simp: strict_prefix_def take_is_prefix dest: arg_cong[of _ _ length])

lemma parents_free_iff: "parents_free T us \<longleftrightarrow> (\<forall>q b. strict_prefix q us \<longrightarrow> T q \<noteq> Some (IFile b))"
proof -
  have "parents_free T us \<longleftrightarrow> (\<forall>n < length us. \<forall>b. T (take n us) \<noteq> Some (IFile b))"
    by (simp add: parents_free_def no_file_iff list_all_iff Ball_def)
  then show ?thesis by (metis strict_prefix_take)
qed

definition with_parents :: "tree \<Rightarrow> string list \<Rightarrow> tree" where
  "with_parents T us q = (if strict_prefix q us then Some IDir else T q)"

text \<open>A file put at a path, its missing parents made; a directory made, and one removed with what is below it.\<close>

abbreviation put_tree :: "tree \<Rightarrow> string list \<Rightarrow> bytes \<Rightarrow> tree" where
  "put_tree T us b \<equiv> (with_parents T us)(us \<mapsto> IFile b)"

abbreviation mkdir_tree :: "tree \<Rightarrow> string list \<Rightarrow> tree" where
  "mkdir_tree T us \<equiv> (\<lambda>q. if prefix q us then Some IDir else T q)"

abbreviation rmdir_tree :: "tree \<Rightarrow> string list \<Rightarrow> tree" where
  "rmdir_tree T us \<equiv> (\<lambda>q. if prefix us q then None else T q)"

text \<open>A directory moved with everything below it.\<close>

definition move_tree :: "tree \<Rightarrow> string list \<Rightarrow> string list \<Rightarrow> tree" where
  "move_tree T us ws q =
     (if prefix ws q then T (us @ drop (length ws) q) else if prefix us q then None else with_parents T ws q)"

text \<open>No other file has the handle of the file.\<close>

definition handle_unique :: "(string list \<Rightarrow> string) \<Rightarrow> tree \<Rightarrow> string list \<Rightarrow> bool" where
  "handle_unique uuid T us \<longleftrightarrow> (\<forall>us' b. T us' = Some (IFile b) \<longrightarrow> uuid us' = uuid us \<longrightarrow> us' = us)"

lemma good_prefix: "list_all good_seg us \<Longrightarrow> prefix q us \<Longrightarrow> list_all good_seg q"
  by (auto simp: prefix_def)

lemma good_strict_prefix: "list_all good_seg us \<Longrightarrow> strict_prefix q us \<Longrightarrow> list_all good_seg q"
  by (auto simp: strict_prefix_def good_prefix)

lemma parents_not_file:
  "parents_free T ws \<Longrightarrow> T us = Some (IFile b) \<Longrightarrow> \<not> strict_prefix us ws"
  by (auto simp: parents_free_iff)

lemma with_parents_keep: "\<not> strict_prefix us ws \<Longrightarrow> with_parents T ws us = T us"
  by (simp add: with_parents_def)

lemma with_parents_names:
  "\<forall>q. T q \<noteq> None \<longrightarrow> list_all good_seg q \<Longrightarrow> list_all good_seg ws \<Longrightarrow> with_parents T ws q \<noteq> None \<Longrightarrow> list_all good_seg q"
  by (auto simp: with_parents_def good_strict_prefix split: if_splits)

lemma with_parents_root: "T [] = Some IDir \<Longrightarrow> with_parents T ws [] = Some IDir"
  by (simp add: with_parents_def)

end
