(* ===== verification/RemoteTree.thy ===== *)
theory RemoteTree
  imports OcuObject FileTree
begin

text \<open>
  The backend over a broker that keeps a file tree.  \<open>remote_tree\<close> is what such a broker promises
  through the client interface: every call does one operation of \<open>FileTree\<close>.  From it follow the
  methods of the file system as operations on that tree, for single calls and for sequences of them.
\<close>

subsection \<open>The contract of a broker with a tree\<close>

text \<open>A call that answers \<open>r\<close> and leaves the tree \<open>T'\<close>.\<close>

definition leaves :: "('w \<Rightarrow> bool) \<Rightarrow> ('w \<Rightarrow> tree) \<Rightarrow> ('w \<Rightarrow> 'r \<times> 'w) \<Rightarrow> 'w \<Rightarrow> 'r \<Rightarrow> tree \<Rightarrow> bool" where
  "leaves I tr act w r T' \<longleftrightarrow> (\<exists>w'. act w = (r, w') \<and> I w' \<and> tr w' = T')"

lemma leavesI: "act w = (r, w') \<Longrightarrow> I w' \<Longrightarrow> tr w' = T' \<Longrightarrow> leaves I tr act w r T'"
  by (auto simp: leaves_def)

lemma leavesE:
  assumes "leaves I tr act w r T'"
  obtains w' where "act w = (r, w')" "I w'" "tr w' = T'"
  using assms by (auto simp: leaves_def)

text \<open>A listing entry for the child \<open>n\<close> of a directory.\<close>

definition entry_for :: "(string list \<Rightarrow> string) \<Rightarrow> tree \<Rightarrow> string list \<Rightarrow> string \<Rightarrow> ListDirEntry \<Rightarrow> bool" where
  "entry_for uuid T us n entry \<longleftrightarrow>
     (case T (us @ [n]) of
        None \<Rightarrow> False
      | Some (IFile b) \<Rightarrow>
          (\<exists>ff. e_File entry = Some ff \<and> ff_Path ff = slash_path (us @ [n]) \<and> ff_Size ff = int (length b) \<and>
                ff_UUID ff = uuid (us @ [n]))
      | Some IDir \<Rightarrow> e_File entry = None \<and> (\<exists>d. e_Directory entry = Some d \<and> d_Path d = slash_path (us @ [n])))"

text \<open>
  \<open>ready\<close> is the state in which the broker serves the client, \<open>tree_of\<close> its tree; \<open>name_fits\<close>,
  \<open>up_fits\<close>, \<open>down_fits\<close> and \<open>list_fits\<close> are the limits within which it answers.
\<close>

locale remote_tree =
  fixes bc :: "('w, 's) brokerClient"
    and ready :: "'w \<Rightarrow> bool"
    and tree_of :: "'w \<Rightarrow> tree"
    and uuid :: "string list \<Rightarrow> string"
    and name_fits :: "string list \<Rightarrow> bool"
    and up_fits :: "bytes \<Rightarrow> bool"
    and down_fits :: "bytes \<Rightarrow> bool"
    and list_fits :: "'w \<Rightarrow> string list \<Rightarrow> bool"
  assumes names: "ready w \<Longrightarrow> tree_of w us \<noteq> None \<Longrightarrow> list_all good_seg us"
    and uuid_ne: "ready w \<Longrightarrow> uuid us \<noteq> []"
    and make: "ready w \<Longrightarrow> name_fits us \<Longrightarrow> parents_free (tree_of w) us \<Longrightarrow> no_file (tree_of w us) \<Longrightarrow>
      leaves ready tree_of (bc_MakeDirectory bc (slash_path us)) w (Inr ()) (mkdir_tree (tree_of w) us)"
    and remove_dir: "ready w \<Longrightarrow> name_fits us \<Longrightarrow> us \<noteq> [] \<Longrightarrow> parents_free (tree_of w) us \<Longrightarrow>
      leaves ready tree_of (bc_RemoveDirectory bc (slash_path us)) w (Inr ()) (rmdir_tree (tree_of w) us)"
    and remove_file: "ready w \<Longrightarrow> name_fits us \<Longrightarrow> tree_of w us = Some (IFile b) \<Longrightarrow>
      leaves ready tree_of (bc_RemoveFile bc (slash_path us)) w (Inr ()) ((tree_of w)(us := None))"
    and remove_missing: "ready w \<Longrightarrow> name_fits us \<Longrightarrow> parents_free (tree_of w) us \<Longrightarrow> tree_of w us = None \<Longrightarrow>
      \<exists>err. errors_is err ErrNotFound \<and> \<not> errors_is err ErrPermissionDenied \<and>
        leaves ready tree_of (bc_RemoveFile bc (slash_path us)) w (Inl err) (tree_of w)"
    and copy_file: "ready w \<Longrightarrow> name_fits us \<Longrightarrow> name_fits ws \<Longrightarrow> tree_of w us = Some (IFile b) \<Longrightarrow>
      tree_of w ws \<noteq> Some IDir \<Longrightarrow> parents_free (tree_of w) ws \<Longrightarrow>
      leaves ready tree_of (bc_CopyFile bc (slash_path us) (slash_path ws)) w (Inr ())
        (put_tree (tree_of w) ws (if us = ws then [] else b))"
    and move_file: "ready w \<Longrightarrow> name_fits us \<Longrightarrow> name_fits ws \<Longrightarrow> us \<noteq> ws \<Longrightarrow> tree_of w us = Some (IFile b) \<Longrightarrow>
      tree_of w ws \<noteq> Some IDir \<Longrightarrow> parents_free (tree_of w) ws \<Longrightarrow>
      leaves ready tree_of (bc_MoveFile bc (slash_path us) (slash_path ws)) w (Inr ())
        ((with_parents (tree_of w) ws)(us := None, ws \<mapsto> IFile b))"
    and move_dir: "ready w \<Longrightarrow> name_fits us \<Longrightarrow> name_fits ws \<Longrightarrow> us \<noteq> [] \<Longrightarrow> \<not> prefix us ws \<Longrightarrow>
      tree_of w us = Some IDir \<Longrightarrow> tree_of w ws = None \<Longrightarrow> parents_free (tree_of w) ws \<Longrightarrow>
      leaves ready tree_of (bc_MoveDirectory bc (slash_path us) (slash_path ws)) w (Inr ()) (move_tree (tree_of w) us ws)"
    and upload: "ready w \<Longrightarrow> name_fits us \<Longrightarrow> us \<noteq> [] \<Longrightarrow> tree_of w us \<noteq> Some IDir \<Longrightarrow> parents_free (tree_of w) us \<Longrightarrow>
      fin inp = EOF \<Longrightarrow> up_fits (body_content inp) \<Longrightarrow>
      leaves ready tree_of (bc_Upload bc (slash_path us) inp (int (length (body_content inp))) True) w None
        (put_tree (tree_of w) us (body_content inp))"
    and meta_keeps: "ready w \<Longrightarrow> name_fits us \<Longrightarrow>
      \<exists>r. leaves ready tree_of (bc_ReadMetadata bc (slash_path us)) w r (tree_of w)"
    and meta_file: "ready w \<Longrightarrow> name_fits us \<Longrightarrow> tree_of w us = Some (IFile b) \<Longrightarrow> is_int64 (int (length b)) \<Longrightarrow>
      \<exists>resp. bc_ReadMetadata bc (slash_path us) w = (Inr resp, snd (bc_ReadMetadata bc (slash_path us) w)) \<and>
        classifyReadMetadata resp = metaArmFile \<and>
        f_UUID (m_File resp) = uuid us \<and> f_Size (m_File resp) = int (length b)"
    and meta_dir: "ready w \<Longrightarrow> name_fits us \<Longrightarrow> tree_of w us = Some IDir \<Longrightarrow>
      \<exists>resp. bc_ReadMetadata bc (slash_path us) w = (Inr resp, snd (bc_ReadMetadata bc (slash_path us) w)) \<and>
        classifyReadMetadata resp = metaArmDirectory"
    and meta_missing: "ready w \<Longrightarrow> name_fits us \<Longrightarrow> parents_free (tree_of w) us \<Longrightarrow> tree_of w us = None \<Longrightarrow>
      \<exists>err. bc_ReadMetadata bc (slash_path us) w = (Inl err, snd (bc_ReadMetadata bc (slash_path us) w)) \<and>
        errors_is err ErrNotFound"
    and download: "ready w \<Longrightarrow> tree_of w us = Some (IFile b) \<Longrightarrow> handle_unique uuid (tree_of w) us \<Longrightarrow> down_fits b \<Longrightarrow>
      \<exists>rd. (\<forall>k > 0. drain reader_Read k rd [] = Some (b, EOF)) \<and>
        leaves ready tree_of (bc_Download bc (uuid us)) w (Inr rd) (tree_of w)"
    and download_range: "ready w \<Longrightarrow> tree_of w us = Some (IFile b) \<Longrightarrow> handle_unique uuid (tree_of w) us \<Longrightarrow>
      0 \<le> off \<Longrightarrow> 0 < len \<Longrightarrow> off < 2 ^ 63 \<Longrightarrow> len < 2 ^ 63 \<Longrightarrow> min off (int (length b)) + len < 2 ^ 63 \<Longrightarrow>
      \<exists>rd. (\<forall>k > 0. drain reader_Read k rd [] = Some (take (nat len) (drop (nat off) b), EOF)) \<and>
        leaves ready tree_of (bc_DownloadRange bc (uuid us) off len) w (Inr rd) (tree_of w)"
    and listing: "ready w \<Longrightarrow> name_fits us \<Longrightarrow> tree_of w us = Some IDir \<Longrightarrow> list_fits w us \<Longrightarrow>
      \<exists>ns es. sorted_wrt (<) ns \<and> set ns = {n. tree_of w (us @ [n]) \<noteq> None} \<and>
        list_all2 (entry_for uuid (tree_of w) us) ns es \<and>
        leaves ready tree_of (bc_ListDirectoryAll bc (slash_path us)) w (Inr es) (tree_of w)"

subsection \<open>Methods as operations on the tree\<close>

text \<open>The path of a remote, as segments of the wire.\<close>

abbreviation wire_segs :: "'w Fs \<Rightarrow> string \<Rightarrow> string list" where
  "wire_segs f remote \<equiv> path_segs (absPath f remote)"

lemma canonical_segs: "canonical p \<Longrightarrow> slash_path (path_segs p) = p"
  by (erule canonicalE) simp

lemma slash_wire_segs [simp]: "slash_path (wire_segs f remote) = absPath f remote"
  by (rule canonical_segs) simp

lemma cleanPath_slash_path: "list_all good_seg us \<Longrightarrow> cleanPath (slash_path us) = slash_path us"
proof -
  assume "list_all good_seg us"
  moreover have "cleanPath (slash # q) = Clean (slash # q)" for q
    by (simp add: cleanPath_def Clean_rooted clean_segs_skip_Nil)
  ultimately show ?thesis using Clean_slash_path[of us] by (simp add: slash_path_def)
qed

text \<open>An object of this file system.\<close>

definition own_object :: "'w Fs \<Rightarrow> Object \<Rightarrow> bool" where
  "own_object f ob \<longleftrightarrow> o_fs ob = fs_addr f \<and> canonical (o_path ob)"

abbreviation object_segs :: "Object \<Rightarrow> string list" where
  "object_segs ob \<equiv> path_segs (o_path ob)"

text \<open>
  The object of a file: its handle is still to be read, or it is the file's and the size it carries
  is current.
\<close>

definition current_object :: "(string list \<Rightarrow> string) \<Rightarrow> Object \<Rightarrow> bytes \<Rightarrow> bool" where
  "current_object uuid ob b \<longleftrightarrow> o_uuid ob = [] \<or> o_uuid ob = uuid (object_segs ob) \<and> o_size ob = int (length b)"

text \<open>The remote under which a name of the wire is listed.\<close>

definition child_name :: "'w Fs \<Rightarrow> string \<Rightarrow> string \<Rightarrow> string" where
  "child_name f dir n =
     (let name = ToStandardPath (fs_enc f) n in if dir = [] then name else Join [dir, name])"

text \<open>The entry rclone gets for a child of a directory.\<close>

definition dir_entry_for ::
  "(string list \<Rightarrow> string) \<Rightarrow> 'w Fs \<Rightarrow> tree \<Rightarrow> string \<Rightarrow> string \<Rightarrow> dir_entry \<Rightarrow> bool" where
  "dir_entry_for uuid f T dir n x \<longleftrightarrow>
     (case T (wire_segs f dir @ [n]) of
        None \<Rightarrow> False
      | Some (IFile b) \<Rightarrow>
          (\<exists>ob. x = EntryObject ob \<and> o_remote ob = child_name f dir n \<and> own_object f ob \<and>
                o_path ob = slash_path (wire_segs f dir @ [n]) \<and> o_uuid ob = uuid (wire_segs f dir @ [n]) \<and>
                o_size ob = int (length b))
      | Some IDir \<Rightarrow> (\<exists>t. x = EntryDir (child_name f dir n) t))"

text \<open>The calls that change the tree, and what each asks of the tree and makes of it.\<close>

datatype backend_op =
    DoPut string body
  | DoUpdate Object body
  | DoMkdir string
  | DoRmdir string
  | DoRemove Object
  | DoCopy Object string
  | DoMove Object string
  | DoDirMove string string

abbreviation sized :: "string \<Rightarrow> body \<Rightarrow> ObjectInfo" where
  "sized remote inp \<equiv> \<lparr>src_Remote = remote, src_Size = int (length (body_content inp))\<rparr>"

fun run_op :: "time_Parse \<Rightarrow> 'w Fs \<Rightarrow> backend_op \<Rightarrow> 'w \<Rightarrow> gerror option \<times> 'w" where
  "run_op tp f (DoPut remote inp) w =
     (case Put f inp (sized remote inp) w of (Inl e, w') \<Rightarrow> (Some e, w') | (Inr _, w') \<Rightarrow> (None, w'))"
| "run_op tp f (DoUpdate ob inp) w = (case Update f ob inp (sized (o_remote ob) inp) w of ((e, _), w') \<Rightarrow> (e, w'))"
| "run_op tp f (DoMkdir dir) w = Mkdir f dir w"
| "run_op tp f (DoRmdir dir) w = Rmdir f dir w"
| "run_op tp f (DoRemove ob) w = Remove f ob w"
| "run_op tp f (DoCopy ob dst) w =
     (case Copy tp f (OcufsObject ob) dst w of ((Inl e, _), w') \<Rightarrow> (Some e, w') | ((Inr _, _), w') \<Rightarrow> (None, w'))"
| "run_op tp f (DoMove ob dst) w =
     (case Move tp f (OcufsObject ob) dst w of ((Inl e, _), w') \<Rightarrow> (Some e, w') | ((Inr _, _), w') \<Rightarrow> (None, w'))"
| "run_op tp f (DoDirMove s d) w = DirMove f (OcufsFs (fs_addr f)) s d w"

text \<open>A sequence of them, up to the first error.\<close>

fun run_ops :: "time_Parse \<Rightarrow> 'w Fs \<Rightarrow> backend_op list \<Rightarrow> 'w \<Rightarrow> gerror option \<times> 'w" where
  "run_ops tp f [] w = (None, w)"
| "run_ops tp f (x # xs) w = (case run_op tp f x w of (Some e, w') \<Rightarrow> (Some e, w') | (None, w') \<Rightarrow> run_ops tp f xs w')"

definition spec_put :: "string list \<Rightarrow> bytes \<Rightarrow> tree \<Rightarrow> tree option" where
  "spec_put us b T =
     (if us \<noteq> [] \<and> T us \<noteq> Some IDir \<and> parents_free T us then Some (put_tree T us b) else None)"

definition spec_transfer :: "bool \<Rightarrow> string list \<Rightarrow> string list \<Rightarrow> tree \<Rightarrow> tree option" where
  "spec_transfer mv us ws T =
     (case T us of
        Some (IFile b) \<Rightarrow>
          if T ws = Some IDir \<or> \<not> parents_free T ws then None
          else if mv then
            (if us = ws then None else Some ((with_parents T ws)(us := None, ws \<mapsto> IFile b)))
          else Some (put_tree T ws (if us = ws then [] else b))
      | _ \<Rightarrow> None)"

fun spec_op :: "'w Fs \<Rightarrow> backend_op \<Rightarrow> tree \<Rightarrow> tree option" where
  "spec_op f (DoPut remote inp) T = spec_put (wire_segs f remote) (body_content inp) T"
| "spec_op f (DoUpdate ob inp) T = spec_put (object_segs ob) (body_content inp) T"
| "spec_op f (DoMkdir dir) T =
     (if parents_free T (wire_segs f dir) \<and> no_file (T (wire_segs f dir))
      then Some (mkdir_tree T (wire_segs f dir)) else None)"
| "spec_op f (DoRmdir dir) T =
     (if wire_segs f dir \<noteq> [] \<and> parents_free T (wire_segs f dir)
      then Some (rmdir_tree T (wire_segs f dir)) else None)"
| "spec_op f (DoRemove ob) T =
     (case T (object_segs ob) of Some (IFile b) \<Rightarrow> Some (T(object_segs ob := None)) | _ \<Rightarrow> None)"
| "spec_op f (DoCopy ob dst) T = spec_transfer False (object_segs ob) (wire_segs f dst) T"
| "spec_op f (DoMove ob dst) T = spec_transfer True (object_segs ob) (wire_segs f dst) T"
| "spec_op f (DoDirMove s d) T =
     (if wire_segs f s \<noteq> [] \<and> \<not> prefix (wire_segs f s) (wire_segs f d) \<and> T (wire_segs f s) = Some IDir \<and>
         T (wire_segs f d) = None \<and> parents_free T (wire_segs f d)
      then Some (move_tree T (wire_segs f s) (wire_segs f d)) else None)"

fun spec_ops :: "'w Fs \<Rightarrow> backend_op list \<Rightarrow> tree \<Rightarrow> tree option" where
  "spec_ops f [] T = Some T"
| "spec_ops f (x # xs) T = Option.bind (spec_op f x T) (spec_ops f xs)"

text \<open>The names and the data a call carries are within the limits, and its objects are this file system's.\<close>

fun op_fits :: "'w Fs \<Rightarrow> (string list \<Rightarrow> bool) \<Rightarrow> (bytes \<Rightarrow> bool) \<Rightarrow> backend_op \<Rightarrow> bool" where
  "op_fits f nm up (DoPut remote inp) \<longleftrightarrow> nm (wire_segs f remote) \<and> fin inp = EOF \<and> up (body_content inp)"
| "op_fits f nm up (DoUpdate ob inp) \<longleftrightarrow>
     own_object f ob \<and> nm (object_segs ob) \<and> fin inp = EOF \<and> up (body_content inp)"
| "op_fits f nm up (DoMkdir dir) \<longleftrightarrow> nm (wire_segs f dir)"
| "op_fits f nm up (DoRmdir dir) \<longleftrightarrow> nm (wire_segs f dir)"
| "op_fits f nm up (DoRemove ob) \<longleftrightarrow> own_object f ob \<and> nm (object_segs ob)"
| "op_fits f nm up (DoCopy ob dst) \<longleftrightarrow> own_object f ob \<and> nm (object_segs ob) \<and> nm (wire_segs f dst)"
| "op_fits f nm up (DoMove ob dst) \<longleftrightarrow> own_object f ob \<and> nm (object_segs ob) \<and> nm (wire_segs f dst)"
| "op_fits f nm up (DoDirMove s d) \<longleftrightarrow> nm (wire_segs f s) \<and> nm (wire_segs f d)"

locale remote_fs = remote_tree "fs_client f" ready tree_of uuid name_fits up_fits down_fits list_fits +
  fs_backend f evolves
  for f :: "'w Fs" and ready tree_of uuid name_fits up_fits down_fits list_fits evolves
begin

lemma upload_at:
  assumes "ready w" "name_fits (path_segs p)" "path_segs p \<noteq> []" "tree_of w (path_segs p) \<noteq> Some IDir"
    and "parents_free (tree_of w) (path_segs p)" "fin inp = EOF" "up_fits (body_content inp)" "canonical p"
  shows "leaves ready tree_of (bc_Upload (fs_client f) p inp (int (length (body_content inp))) True) w None
        (put_tree (tree_of w) (path_segs p) (body_content inp))"
  using upload[OF assms(1-7)] canonical_segs[OF assms(8)] by simp

lemma Put_tree:
  assumes "ready w" "\<not> fs_readOnly f" "name_fits (wire_segs f remote)" "wire_segs f remote \<noteq> []"
    and "tree_of w (wire_segs f remote) \<noteq> Some IDir" "parents_free (tree_of w) (wire_segs f remote)"
    and "fin inp = EOF" "up_fits (body_content inp)"
  shows "leaves ready tree_of (Put f inp \<lparr>src_Remote = remote, src_Size = int (length (body_content inp))\<rparr>) w
    (Inr (ack_object f (absPath f remote) remote (int (length (body_content inp)))))
    (put_tree (tree_of w) (wire_segs f remote) (body_content inp))"
  using upload_at[OF assms(1,3-8) canonical_absPath] assms(2) by (auto simp: leaves_def Put_def)

lemma Update_tree:
  assumes "ready w" "\<not> fs_readOnly f" "name_fits (object_segs ob)" "object_segs ob \<noteq> []"
    and "tree_of w (object_segs ob) \<noteq> Some IDir" "parents_free (tree_of w) (object_segs ob)"
    and "fin inp = EOF" "up_fits (body_content inp)" "own_object f ob"
  shows "leaves ready tree_of (Update f ob inp \<lparr>src_Remote = remote, src_Size = int (length (body_content inp))\<rparr>) w
    (None, ob\<lparr>o_uuid := [], o_size := int (length (body_content inp))\<rparr>)
    (put_tree (tree_of w) (object_segs ob) (body_content inp))"
proof -
  have "canonical (o_path ob)" using assms(9) by (simp add: own_object_def)
  from upload_at[OF assms(1,3-8) this] show ?thesis
    using assms(2) by (auto simp: leaves_def Update_def)
qed

lemma Mkdir_tree:
  assumes "ready w" "\<not> fs_readOnly f" "name_fits (wire_segs f dir)" "parents_free (tree_of w) (wire_segs f dir)"
    and "no_file (tree_of w (wire_segs f dir))"
  shows "leaves ready tree_of (Mkdir f dir) w None (mkdir_tree (tree_of w) (wire_segs f dir))"
  using make[OF assms(1,3-5)] assms(2) by (auto simp: leaves_def Mkdir_def Let_def)

lemma Rmdir_tree:
  assumes "ready w" "\<not> fs_readOnly f" "name_fits (wire_segs f dir)" "wire_segs f dir \<noteq> []"
    and "parents_free (tree_of w) (wire_segs f dir)"
  shows "leaves ready tree_of (Rmdir f dir) w None (rmdir_tree (tree_of w) (wire_segs f dir))"
  using remove_dir[OF assms(1,3-5)] assms(2) by (auto simp: leaves_def Rmdir_def Let_def)

lemma Remove_tree:
  assumes "ready w" "\<not> fs_readOnly f" "name_fits (object_segs ob)" "own_object f ob"
    and "tree_of w (object_segs ob) = Some (IFile b)"
  shows "leaves ready tree_of (Remove f ob) w None ((tree_of w)(object_segs ob := None))"
  using remove_file[OF assms(1,3,5)] assms(2,4)
  by (auto simp: leaves_def Remove_def own_object_def canonical_segs)

lemma DirMove_tree:
  assumes "ready w" "\<not> fs_readOnly f" "name_fits (wire_segs f s)" "name_fits (wire_segs f d)"
    and "wire_segs f s \<noteq> []" "\<not> prefix (wire_segs f s) (wire_segs f d)"
    and "tree_of w (wire_segs f s) = Some IDir" "tree_of w (wire_segs f d) = None" "parents_free (tree_of w) (wire_segs f d)"
  shows "leaves ready tree_of (DirMove f (OcufsFs (fs_addr f)) s d) w None
    (move_tree (tree_of w) (wire_segs f s) (wire_segs f d))"
  using move_dir[OF assms(1,3-9)] assms(2) by (auto simp: leaves_def DirMove_def Let_def)

text \<open>Looking a file up: what the lookup says is what the tree holds.\<close>

lemma NewObject_file:
  assumes "ready w" "name_fits (wire_segs f remote)" "tree_of w (wire_segs f remote) = Some (IFile b)"
    and "is_int64 (int (length b))"
  shows "\<exists>ob. own_object f ob \<and> o_path ob = absPath f remote \<and> o_remote ob = remote \<and>
    o_uuid ob = uuid (wire_segs f remote) \<and> o_size ob = int (length b) \<and>
    leaves ready tree_of (NewObject tp f remote) w (Inr ob) (tree_of w)"
  using meta_file[OF assms] meta_keeps[OF assms(1,2)]
  by (auto simp: NewObject_def Let_def own_object_def leaves_def)

lemma NewObject_dir:
  assumes "ready w" "name_fits (wire_segs f remote)" "tree_of w (wire_segs f remote) = Some IDir"
  shows "leaves ready tree_of (NewObject tp f remote) w (Inl (Sentinel Fs_ErrorIsDir)) (tree_of w)"
  using meta_dir[OF assms] meta_keeps[OF assms(1,2)] by (auto simp: NewObject_def Let_def leaves_def)

lemma NewObject_missing:
  assumes "ready w" "name_fits (wire_segs f remote)" "parents_free (tree_of w) (wire_segs f remote)"
    and "tree_of w (wire_segs f remote) = None"
  shows "leaves ready tree_of (NewObject tp f remote) w (Inl (Sentinel Fs_ErrorObjectNotFound)) (tree_of w)"
  using meta_missing[OF assms] meta_keeps[OF assms(1,2)] by (auto simp: NewObject_def Let_def leaves_def)

lemma Remove_missing:
  assumes "ready w" "\<not> fs_readOnly f" "name_fits (object_segs ob)" "own_object f ob"
    and "parents_free (tree_of w) (object_segs ob)" "tree_of w (object_segs ob) = None"
  shows "\<exists>err. errors_is err Fs_ErrorObjectNotFound \<and> leaves ready tree_of (Remove f ob) w (Some err) (tree_of w)"
  using remove_missing[OF assms(1,3,5,6)] assms(2,4)
  by (auto simp: leaves_def Remove_def own_object_def canonical_segs wrap_mapped_def mapBrokerError_def)

subsection \<open>Server-side transfers\<close>

lemma Size_keeps:
  assumes "ready w" "name_fits (object_segs ob)" "own_object f ob"
  shows "\<exists>r. leaves ready tree_of (Size tp f ob) w r (tree_of w)"
proof -
  have "\<exists>r. leaves ready tree_of (bc_ReadMetadata (fs_client f) (o_path ob)) w r (tree_of w)"
    using meta_keeps[OF assms(1,2)] assms(3) by (simp add: own_object_def canonical_segs)
  then show ?thesis
    using assms(1) by (cases rule: resolve_cases[of tp f ob w]) (auto simp: leaves_def Size_def)
qed

lemma transfer_tree:
  assumes "\<not> fs_readOnly f" "own_object f ob" "name_fits (object_segs ob)"
    and "leaves ready tree_of (call_op (o_path ob) (absPath f dst)) w (Inr ()) T"
  shows "\<exists>sz ob'. leaves ready tree_of (transferFile tp f (OcufsObject ob) dst nm cant call_op) w
    (Inr (ack_object f (absPath f dst) dst sz), OcufsObject ob') T"
proof -
  obtain w1 where w1: "call_op (o_path ob) (absPath f dst) w = (Inr (), w1)" "ready w1" "tree_of w1 = T"
    using assms(4) by (rule leavesE)
  obtain sz ob' w2 where "Size tp f ob w1 = ((sz, ob'), w2)" "ready w2" "tree_of w2 = T"
    using Size_keeps[OF w1(2) assms(3,2), of tp] w1(3) by (auto simp: leaves_def)
  then show ?thesis
    using w1(1) assms(1,2) by (auto simp: leaves_def transferFile_def own_object_def)
qed

lemma Copy_tree:
  assumes "ready w" "\<not> fs_readOnly f" "own_object f ob" "name_fits (object_segs ob)" "name_fits (wire_segs f dst)"
    and "tree_of w (object_segs ob) = Some (IFile b)" "tree_of w (wire_segs f dst) \<noteq> Some IDir"
    and "parents_free (tree_of w) (wire_segs f dst)"
  shows "\<exists>sz ob'. leaves ready tree_of (Copy tp f (OcufsObject ob) dst) w
    (Inr (ack_object f (absPath f dst) dst sz), OcufsObject ob')
    (put_tree (tree_of w) (wire_segs f dst) (if object_segs ob = wire_segs f dst then [] else b))"
  using transfer_tree[OF assms(2-4), of "bc_CopyFile (fs_client f)" dst] copy_file[OF assms(1,4-8)] assms(3)
  by (simp add: Copy_def[abs_def] own_object_def canonical_segs)

lemma Move_tree:
  assumes "ready w" "\<not> fs_readOnly f" "own_object f ob" "name_fits (object_segs ob)" "name_fits (wire_segs f dst)"
    and "object_segs ob \<noteq> wire_segs f dst" "tree_of w (object_segs ob) = Some (IFile b)"
    and "tree_of w (wire_segs f dst) \<noteq> Some IDir" "parents_free (tree_of w) (wire_segs f dst)"
  shows "\<exists>sz ob'. leaves ready tree_of (Move tp f (OcufsObject ob) dst) w
    (Inr (ack_object f (absPath f dst) dst sz), OcufsObject ob')
    ((with_parents (tree_of w) (wire_segs f dst))(object_segs ob := None, wire_segs f dst \<mapsto> IFile b))"
  using transfer_tree[OF assms(2-4), of "bc_MoveFile (fs_client f)" dst] move_file[OF assms(1,4-9)] assms(3)
  by (simp add: Move_def[abs_def] own_object_def canonical_segs)

subsection \<open>Reading\<close>

lemma resolve_file:
  assumes "ready w" "own_object f ob" "name_fits (object_segs ob)" "tree_of w (object_segs ob) = Some (IFile b)"
    and "is_int64 (int (length b))" "current_object uuid ob b"
  shows "\<exists>ob'. o_uuid ob' = uuid (object_segs ob) \<and> o_size ob' = int (length b) \<and>
    leaves ready tree_of (resolve tp f ob) w (None, ob') (tree_of w)"
proof (cases "o_uuid ob = []")
  case True
  have "slash_path (object_segs ob) = o_path ob" using assms(2) by (simp add: own_object_def canonical_segs)
  then show ?thesis
    using meta_file[OF assms(1,3-5)] meta_keeps[OF assms(1,3)] True
    by (auto simp: resolve_def leaves_def install_metadata_def)
next
  case False
  then show ?thesis using assms(1,6) by (auto simp: resolve_def leaves_def current_object_def)
qed

lemma Open_whole:
  assumes "ready w" "own_object f ob" "name_fits (object_segs ob)" "tree_of w (object_segs ob) = Some (IFile b)"
    and "is_int64 (int (length b))" "current_object uuid ob b" "handle_unique uuid (tree_of w) (object_segs ob)" "down_fits b"
  shows "\<exists>rd ob'. (\<forall>k > 0. drain reader_Read k rd [] = Some (b, EOF)) \<and>
    leaves ready tree_of (Open tp dec f ob []) w (Inr rd, ob') (tree_of w)"
proof -
  obtain ob' w1 where r: "resolve tp f ob w = ((None, ob'), w1)" "ready w1" "tree_of w1 = tree_of w"
    "o_uuid ob' = uuid (object_segs ob)"
    using resolve_file[OF assms(1-6), of tp] by (auto simp: leaves_def)
  then show ?thesis
    using download[of w1 "object_segs ob" b] assms(4,7,8) uuid_ne[OF assms(1), of "object_segs ob"]
    by (auto simp: Open_def leaves_def)
qed

lemma Open_option:
  assumes "ready w" "own_object f ob" "name_fits (object_segs ob)" "tree_of w (object_segs ob) = Some (IFile b)"
    and "is_int64 (int (length b))" "current_object uuid ob b" "handle_unique uuid (tree_of w) (object_segs ob)"
    and "decode_laws dec" "option_ok opt (length b)" "option_small opt"
  shows "\<exists>rd ob'. (\<forall>k > 0. drain reader_Read k rd [] = Some (option_bytes opt b, EOF)) \<and>
    leaves ready tree_of (Open tp dec f ob [opt]) w (Inr rd, ob') (tree_of w)"
proof -
  obtain ob' w1 where r: "resolve tp f ob w = ((None, ob'), w1)" "ready w1" "tree_of w1 = tree_of w"
    "o_uuid ob' = uuid (object_segs ob)" "o_size ob' = int (length b)"
    using resolve_file[OF assms(1-6), of tp] by (auto simp: leaves_def)
  obtain off len where win: "open_window dec (int (length b)) [opt] None = Inr (Some (off, len))" "0 \<le> off" "0 \<le> len"
    "take (nat len) (drop (nat off) b) = option_bytes opt b"
    "off < 2 ^ 63" "len < 2 ^ 63" "min off (int (length b)) + len < 2 ^ 63"
    using option_window[OF assms(8,9,5)] assms(10) by blast
  have ne: "uuid (object_segs ob) \<noteq> []" using uuid_ne[OF assms(1)] .
  have "\<exists>rd. (\<forall>k > 0. drain reader_Read k rd [] = Some (option_bytes opt b, EOF)) \<and>
    leaves ready tree_of (bc_DownloadRange (fs_client f) (uuid (object_segs ob)) off len) w1 (Inr rd) (tree_of w)"
  proof (cases "len = 0")
    case True
    then have "option_bytes opt b = []" using win(4) by simp
    moreover have "drain reader_Read k NoBody [] = Some ([], EOF)" if "0 < k" for k
      using that by (simp add: drain.simps)
    ultimately show ?thesis using True r(2,3) range_empty[OF win(2)] by (auto simp: leaves_def)
  next
    case False
    then show ?thesis
      using download_range[OF r(2), of "object_segs ob" b off len] r(3) assms(4,7) win(2-7) by simp
  qed
  then show ?thesis using r(1,4,5) win(1) ne by (auto simp: Open_def leaves_def)
qed

subsection \<open>Listing\<close>

lemma child_entry_for:
  assumes "ready w" "entry_for uuid (tree_of w) (wire_segs f dir) n entry"
  shows "case tree_of w (wire_segs f dir @ [n]) of
      None \<Rightarrow> False
    | Some (IFile b) \<Rightarrow> (\<exists>ob. child_entry tp f dir entry = [EntryObject ob] \<and> o_remote ob = child_name f dir n \<and>
        own_object f ob \<and> o_path ob = slash_path (wire_segs f dir @ [n]) \<and> o_uuid ob = uuid (wire_segs f dir @ [n]) \<and>
        o_size ob = int (length b))
    | Some IDir \<Rightarrow> (\<exists>t. child_entry tp f dir entry = [EntryDir (child_name f dir n) t])"
proof -
  let ?us = "wire_segs f dir"
  have g: "list_all good_seg (?us @ [n])"
    using assms names[of w "?us @ [n]"] by (auto simp: entry_for_def split: option.splits)
  have c: "cleanPath (slash_path (?us @ [n])) = slash_path (?us @ [n])" using cleanPath_slash_path[OF g] .
  show ?thesis
    using assms(2) c g
    by (auto simp: entry_for_def child_entry_def child_remote_def entry_path_def objectFromFile_def child_name_def
        own_object_def Let_def split: option.splits inode.splits)
qed

lemma List_tree:
  assumes "ready w" "name_fits (wire_segs f dir)" "tree_of w (wire_segs f dir) = Some IDir" "list_fits w (wire_segs f dir)"
  shows "\<exists>ns xs. sorted_wrt (<) ns \<and> set ns = {n. tree_of w (wire_segs f dir @ [n]) \<noteq> None} \<and>
    list_all2 (dir_entry_for uuid f (tree_of w) dir) ns xs \<and>
    leaves ready tree_of (List tp f dir) w (Inr xs) (tree_of w)"
proof -
  obtain ns es w' where l: "sorted_wrt (<) ns" "set ns = {n. tree_of w (wire_segs f dir @ [n]) \<noteq> None}"
    "list_all2 (entry_for uuid (tree_of w) (wire_segs f dir)) ns es"
    "bc_ListDirectoryAll (fs_client f) (absPath f dir) w = (Inr es, w')" "ready w'" "tree_of w' = tree_of w"
    using listing[OF assms] by (auto simp: leaves_def)
  from l(3) have "list_all2 (dir_entry_for uuid f (tree_of w) dir) ns (concat (map (child_entry tp f dir) es))"
  proof (induction rule: list_all2_induct)
    case (Cons n ns e es)
    obtain x where "child_entry tp f dir e = [x]" "dir_entry_for uuid f (tree_of w) dir n x"
      using child_entry_for[OF assms(1) Cons(1), of tp]
      by (auto simp: dir_entry_for_def split: option.splits inode.splits)
    then show ?case using Cons(3) by simp
  qed simp
  then show ?thesis using l List_ok[OF l(4), of tp] by (auto simp: leaves_def)
qed

subsection \<open>Sequences of calls\<close>

lemma spec_transfer_cases:
  assumes "spec_transfer mv us ws T = Some T'"
  obtains b where "T us = Some (IFile b)" "T ws \<noteq> Some IDir" "parents_free T ws"
    "mv \<longrightarrow> us \<noteq> ws \<and> T' = (with_parents T ws)(us := None, ws \<mapsto> IFile b)"
    "\<not> mv \<longrightarrow> T' = put_tree T ws (if us = ws then [] else b)"
  using assms by (auto simp: spec_transfer_def split: option.splits inode.splits if_splits)

lemma run_op_refines:
  assumes "ready w" "\<not> fs_readOnly f" "op_fits f name_fits up_fits x" "spec_op f x (tree_of w) = Some T'"
  shows "leaves ready tree_of (run_op tp f x) w None T'"
proof (cases x)
  case (DoPut remote inp)
  then show ?thesis
    using Put_tree[OF assms(1,2), of remote inp] assms(3,4) by (auto simp: spec_put_def leaves_def split: if_splits)
next
  case (DoUpdate ob inp)
  then show ?thesis
    using Update_tree[OF assms(1,2), of ob inp "o_remote ob"] assms(3,4)
    by (auto simp: spec_put_def leaves_def split: if_splits)
next
  case (DoMkdir dir)
  then show ?thesis
    using Mkdir_tree[OF assms(1,2), of dir] assms(3,4) by (auto simp: leaves_def split: if_splits)
next
  case (DoRmdir dir)
  then show ?thesis
    using Rmdir_tree[OF assms(1,2), of dir] assms(3,4) by (auto simp: leaves_def split: if_splits)
next
  case (DoRemove ob)
  then show ?thesis
    using Remove_tree[OF assms(1,2), of ob] assms(3,4) by (auto simp: leaves_def split: option.splits inode.splits)
next
  case (DoCopy ob dst)
  then have o: "own_object f ob" "name_fits (object_segs ob)" "name_fits (wire_segs f dst)"
    and "spec_transfer False (object_segs ob) (wire_segs f dst) (tree_of w) = Some T'" using assms(3,4) by simp_all
  from this(4) show ?thesis
    by (rule spec_transfer_cases) (use Copy_tree[OF assms(1,2) o, of _ tp] DoCopy in \<open>fastforce simp: leaves_def\<close>)
next
  case (DoMove ob dst)
  then have o: "own_object f ob" "name_fits (object_segs ob)" "name_fits (wire_segs f dst)"
    and "spec_transfer True (object_segs ob) (wire_segs f dst) (tree_of w) = Some T'" using assms(3,4) by simp_all
  from this(4) show ?thesis
    by (rule spec_transfer_cases) (use Move_tree[OF assms(1,2) o, of _ tp] DoMove in \<open>fastforce simp: leaves_def\<close>)
next
  case (DoDirMove s d)
  then show ?thesis
    using DirMove_tree[OF assms(1,2), of s d] assms(3,4) by (auto simp: leaves_def split: if_splits)
qed

lemma run_ops_refines:
  assumes "ready w" "\<not> fs_readOnly f" "list_all (op_fits f name_fits up_fits) xs" "spec_ops f xs (tree_of w) = Some T'"
  shows "leaves ready tree_of (run_ops tp f xs) w None T'"
  using assms
proof (induction xs arbitrary: w)
  case (Cons x xs)
  then obtain T1 where T1: "spec_op f x (tree_of w) = Some T1" "spec_ops f xs T1 = Some T'"
    by (auto simp: bind_eq_Some_conv)
  obtain w1 where w1: "run_op tp f x w = (None, w1)" "ready w1" "tree_of w1 = T1"
    by (rule leavesE[OF run_op_refines[OF Cons(2,3) _ T1(1), of tp]]) (use Cons(4) in simp_all)
  then show ?case using Cons.IH[OF w1(2) Cons(3)] Cons(4) T1(2) by (simp add: leaves_def)
qed (simp add: leaves_def)

end

end
