(* ===== verification/HttpPeer.thy ===== *)
theory HttpPeer
  imports JsonText GoErrors
begin

text \<open>
  The HTTP side of the harness peers: a request as a handler of \<^verbatim>\<open>net/http\<close> sees it, the reply it
  writes, and \<^verbatim>\<open>test/harness/internal/httpjson\<close>, the two JSON writers the peers share.  Package
  \<^verbatim>\<open>strings\<close> contributes \<^verbatim>\<open>TrimSpace\<close>.
\<close>

datatype form_part = FormValuePart string bytes | FormFilePart string string bytes

text \<open>
  A body is raw bytes, a multipart form that \<^verbatim>\<open>ParseMultipartForm\<close> accepts, or a body that breaks off
  while it is read.
\<close>

datatype rq_body = RawBody bytes | MultipartBody "form_part list" | BrokenBody

record http_request =
  rq_Method :: string
  rq_Path :: string
  rq_Auth :: string
  rq_Body :: rq_body

text \<open>\<open>rp_Length\<close> is an explicit Content-Length header.\<close>

record reply =
  rp_Status :: int
  rp_RetryAfter :: string
  rp_Length :: "int option"
  rp_Body :: bytes

definition newline :: bytes where
  "newline = [CHR 0x0A]"

definition json_reply :: "int \<Rightarrow> json \<Rightarrow> reply" where
  "json_reply status j =
     \<lparr>rp_Status = status, rp_RetryAfter = [], rp_Length = None, rp_Body = json_text j @ newline\<rparr>"

definition httpjson_Error :: "int \<Rightarrow> string \<Rightarrow> reply" where
  "httpjson_Error status msg = json_reply status (JObj [(''error'', JStr msg)])"

definition httpjson_OK :: "json \<Rightarrow> reply" where
  "httpjson_OK j = json_reply 200 j"

text \<open>The bytes of a request body; a multipart body is framed by its boundary.\<close>

definition raw_bytes :: "rq_body \<Rightarrow> bytes option" where
  "raw_bytes b =
     (case b of RawBody r \<Rightarrow> Some r | MultipartBody ps \<Rightarrow> Some ''--boundary'' | BrokenBody \<Rightarrow> None)"

subsection \<open>TrimSpace\<close>

definition unicode_spaces :: "bytes list" where
  "unicode_spaces =
     [[CHR 0x09], [CHR 0x0A], [CHR 0x0B], [CHR 0x0C], [CHR 0x0D], [CHR 0x20],
      [CHR 0xC2, CHR 0x85], [CHR 0xC2, CHR 0xA0], [CHR 0xE1, CHR 0x9A, CHR 0x80],
      [CHR 0xE2, CHR 0x80, CHR 0x80], [CHR 0xE2, CHR 0x80, CHR 0x81],
      [CHR 0xE2, CHR 0x80, CHR 0x82], [CHR 0xE2, CHR 0x80, CHR 0x83],
      [CHR 0xE2, CHR 0x80, CHR 0x84], [CHR 0xE2, CHR 0x80, CHR 0x85],
      [CHR 0xE2, CHR 0x80, CHR 0x86], [CHR 0xE2, CHR 0x80, CHR 0x87],
      [CHR 0xE2, CHR 0x80, CHR 0x88], [CHR 0xE2, CHR 0x80, CHR 0x89],
      [CHR 0xE2, CHR 0x80, CHR 0x8A], [CHR 0xE2, CHR 0x80, CHR 0xA8],
      [CHR 0xE2, CHR 0x80, CHR 0xA9], [CHR 0xE2, CHR 0x80, CHR 0xAF],
      [CHR 0xE2, CHR 0x81, CHR 0x9F], [CHR 0xE3, CHR 0x80, CHR 0x80]]"

function trim_front :: "bytes list \<Rightarrow> bytes \<Rightarrow> bytes" where
  "trim_front sps s =
     (case find (\<lambda>p. p \<noteq> [] \<and> HasPrefix s p) sps of
        None \<Rightarrow> s
      | Some p \<Rightarrow> trim_front sps (drop (length p) s))"
  by pat_completeness auto
termination
proof (relation "measure (\<lambda>(sps, s). length s)", goal_cases)
  case (2 sps s p)
  then have "p \<noteq> []" "HasPrefix s p" by (auto simp: find_Some_iff)
  then show ?case by (auto simp: HasPrefix_iff_prefix prefix_def)
qed simp

declare trim_front.simps [simp del]

definition TrimSpace :: "string \<Rightarrow> string" where
  "TrimSpace s = rev (trim_front (map rev unicode_spaces) (rev (trim_front unicode_spaces s)))"

text \<open>A string that neither starts nor ends with a space byte is its own trimming.\<close>

lemma unicode_space_bytes:
  assumes "p \<in> set unicode_spaces"
  shows "hd p \<in> {CHR 0x09, CHR 0x0A, CHR 0x0B, CHR 0x0C, CHR 0x0D, CHR 0x20, CHR 0xC2, CHR 0xE1, CHR 0xE2, CHR 0xE3}"
    and "byte (last p) \<le> 0x20 \<or> 0x80 \<le> byte (last p)"
proof -
  have a: "\<forall>p \<in> set unicode_spaces. hd p \<in> {CHR 0x09, CHR 0x0A, CHR 0x0B, CHR 0x0C, CHR 0x0D, CHR 0x20, CHR 0xC2, CHR 0xE1, CHR 0xE2, CHR 0xE3} \<and>
      (byte (last p) \<le> 0x20 \<or> 0x80 \<le> byte (last p))"
    by (simp add: unicode_spaces_def)
  show "hd p \<in> {CHR 0x09, CHR 0x0A, CHR 0x0B, CHR 0x0C, CHR 0x0D, CHR 0x20, CHR 0xC2, CHR 0xE1, CHR 0xE2, CHR 0xE3}"
    and "byte (last p) \<le> 0x20 \<or> 0x80 \<le> byte (last p)"
    using a assms by auto
qed

definition plain_ascii :: "char \<Rightarrow> bool" where
  "plain_ascii c \<longleftrightarrow> 0x20 < byte c \<and> byte c < 0x80"

lemma TrimSpace_plain:
  assumes "s \<noteq> []" "plain_ascii (hd s)" "plain_ascii (last s)"
  shows "TrimSpace s = s"
proof -
  have "find (\<lambda>p. p \<noteq> [] \<and> HasPrefix s p) unicode_spaces = None"
    unfolding find_None_iff
  proof
    assume "\<exists>p. p \<in> set unicode_spaces \<and> p \<noteq> [] \<and> HasPrefix s p"
    then obtain p where p: "p \<in> set unicode_spaces" "p \<noteq> []" "prefix p s"
      by (auto simp: HasPrefix_iff_prefix)
    then have "hd s = hd p" by (auto simp: prefix_def)
    then show False using unicode_space_bytes(1)[OF p(1)] assms(2) by (auto simp: plain_ascii_def)
  qed
  then have front: "trim_front unicode_spaces s = s" by (simp add: trim_front.simps)
  have "find (\<lambda>p. p \<noteq> [] \<and> HasPrefix (rev s) p) (map rev unicode_spaces) = None"
    unfolding find_None_iff
  proof
    assume "\<exists>p. p \<in> set (map rev unicode_spaces) \<and> p \<noteq> [] \<and> HasPrefix (rev s) p"
    then obtain p t where p: "p \<in> set unicode_spaces" "p \<noteq> []" "rev s = rev p @ t"
      by (auto simp: HasPrefix_iff_prefix prefix_def)
    then have "s = rev t @ p" by (metis rev_append rev_rev_ident)
    then have "last s = last p" using p(2) by simp
    then show False using unicode_space_bytes(2)[OF p(1)] assms(3) by (auto simp: plain_ascii_def)
  qed
  then have "trim_front (map rev unicode_spaces) (rev s) = rev s" by (simp add: trim_front.simps)
  then show ?thesis by (simp add: TrimSpace_def front)
qed

end
