(* ===== verification/Float64.thy ===== *)
theory Float64
  imports Complex_Main "HOL-Library.Log_Nat" Prelude
begin

text \<open>
  The float64 arithmetic of Go, on the rationals that floats denote: the exact result is rounded to
  the nearest float, ties to even.  Infinities are left out, so a result beyond the largest float
  keeps its value.  \<open>Seconds\<close> is the conversion of package \<^verbatim>\<open>time\<close>.
\<close>

definition round_even :: "rat \<Rightarrow> int" where
  "round_even x =
     (let n = \<lfloor>x\<rfloor>; d = x - of_int n in
      if d < 1 / 2 \<or> d = 1 / 2 \<and> even n then n else n + 1)"

text \<open>The binary exponent of a positive rational.\<close>

definition rat_log2 :: "rat \<Rightarrow> int" where
  "rat_log2 x =
     (case quotient_of x of (p, q) \<Rightarrow>
        (let k = int (floorlog 2 (nat p)) - int (floorlog 2 (nat q)) in
         if (2 :: rat) powi k \<le> x then k else k - 1))"

definition f64_exp :: "rat \<Rightarrow> int" where
  "f64_exp x = (if x = 0 then -1074 else max (-1074) (rat_log2 \<bar>x\<bar> - 52))"

definition f64_round :: "rat \<Rightarrow> rat" where
  "f64_round x = (let u = 2 powi f64_exp x in of_int (round_even (x / u)) * u)"

definition max_duration :: int where
  "max_duration = 2 ^ 63 - 1"

definition time_Sub :: "int \<Rightarrow> int \<Rightarrow> int" where
  "time_Sub a b = max (- (2 ^ 63)) (min max_duration (a - b))"

text \<open>Division of Go rounds towards zero.\<close>

definition Duration_Seconds :: "int \<Rightarrow> rat" where
  "Duration_Seconds d =
     (let sec = sgn d * (\<bar>d\<bar> div 1000000000); nsec = sgn d * (\<bar>d\<bar> mod 1000000000) in
      f64_round (f64_round (of_int sec) + f64_round (f64_round (of_int nsec) / 1000000000)))"

subsection \<open>Rounding\<close>

lemma round_even_mono: "x \<le> y \<Longrightarrow> round_even x \<le> round_even y"
proof -
  assume le: "x \<le> y"
  then have fl: "\<lfloor>x\<rfloor> \<le> \<lfloor>y\<rfloor>" by (rule floor_mono)
  show ?thesis
  proof (cases "\<lfloor>x\<rfloor> = \<lfloor>y\<rfloor>")
    case True
    then show ?thesis using le by (auto simp: round_even_def Let_def)
  next
    case False
    then have "\<lfloor>x\<rfloor> + 1 \<le> \<lfloor>y\<rfloor>" using fl by simp
    moreover have "round_even x \<le> \<lfloor>x\<rfloor> + 1" "\<lfloor>y\<rfloor> \<le> round_even y" by (simp_all add: round_even_def Let_def)
    ultimately show ?thesis by linarith
  qed
qed

lemma round_even_int [simp]: "round_even (of_int n) = n"
  by (simp add: round_even_def)

lemma rat_log2_bounds:
  assumes "0 < x"
  shows "2 powi rat_log2 x \<le> x" "x < 2 powi (rat_log2 x + 1)"
proof -
  obtain p q where pq: "quotient_of x = (p, q)" by (cases "quotient_of x")
  then have q: "0 < q" "x = of_int p / of_int q" by (simp_all add: quotient_of_denom_pos quotient_of_div)
  then have p: "0 < p" using assms by (simp add: zero_less_divide_iff)
  let ?a = "floorlog 2 (nat p)" and ?b = "floorlog 2 (nat q)"
  let ?k = "int ?a - int ?b"
  have bounds: "(2 :: rat) powi (int (floorlog 2 (nat n)) - 1) \<le> of_int n \<and> of_int n < (2 :: rat) powi int (floorlog 2 (nat n))"
    if "0 < n" for n :: int
  proof -
    have b: "2 ^ (floorlog 2 (nat n) - 1) \<le> nat n" "nat n < 2 ^ floorlog 2 (nat n)"
      using floorlog_bounds[of "nat n" 2] that by auto
    have pos: "0 < floorlog 2 (nat n)" using that by (simp add: floorlog_def)
    from b have "(2 :: rat) ^ (floorlog 2 (nat n) - 1) \<le> of_nat (nat n)" "of_nat (nat n) < (2 :: rat) ^ floorlog 2 (nat n)"
      by (metis of_nat_le_iff of_nat_numeral of_nat_power, metis of_nat_less_iff of_nat_numeral of_nat_power)
    moreover have "(of_nat (nat n) :: rat) = of_int n" using that by simp
    moreover have "(2 :: rat) powi (int (floorlog 2 (nat n)) - 1) = 2 ^ (floorlog 2 (nat n) - 1)"
      using pos by (metis One_nat_def Suc_leI int_ops(2) of_nat_diff power_int_of_nat)
    ultimately show ?thesis by simp
  qed
  have up: "x < 2 powi (?k + 1)"
  proof -
    have "x < 2 powi int ?a / 2 powi (int ?b - 1)"
      unfolding q(2) using bounds[OF p] bounds[OF q(1)] q(1) p
      by (intro frac_less) (auto)
    also have "\<dots> = 2 powi (int ?a - (int ?b - 1))" by (subst (2) power_int_diff) simp_all
    also have "int ?a - (int ?b - 1) = ?k + 1" by simp
    finally show ?thesis .
  qed
  have lo: "2 powi (?k - 1) < x"
  proof -
    have "?k - 1 = (int ?a - 1) - int ?b" by simp
    then have "(2 :: rat) powi (?k - 1) = 2 powi (int ?a - 1) / 2 powi int ?b"
      by (metis power_int_diff zero_neq_numeral)
    also have "\<dots> < x"
      unfolding q(2) using bounds[OF p] bounds[OF q(1)] q(1) p
      by (intro frac_less2) auto
    finally show ?thesis .
  qed
  show "2 powi rat_log2 x \<le> x" "x < 2 powi (rat_log2 x + 1)"
    using up lo by (auto simp: rat_log2_def pq Let_def)
qed

lemma powi_2_mono: "k \<le> l \<Longrightarrow> (2 :: rat) powi k \<le> 2 powi l"
  by (simp add: power_int_increasing)

lemma powi_2_less_cancel: "(2 :: rat) powi k < 2 powi l \<Longrightarrow> k < l"
  using powi_2_mono[of l k] by force

lemma powi_2_split: "k \<le> l \<Longrightarrow> (2 :: rat) powi l = of_int (2 ^ nat (l - k)) * 2 powi k"
proof -
  assume "k \<le> l"
  then have "l = int (nat (l - k)) + k" by simp
  then have "(2 :: rat) powi l = 2 powi int (nat (l - k)) * 2 powi k"
    by (metis power_int_add zero_neq_numeral)
  then show ?thesis by (simp only: power_int_of_nat) simp
qed

lemma round_even_minus: "round_even (- x) = - round_even x"
proof (cases "x \<in> \<int>")
  case True
  then obtain n where "x = of_int n" by (auto elim: Ints_cases)
  then show ?thesis using round_even_int[of "- n"] by simp
next
  case False
  define n d where "n = \<lfloor>x\<rfloor>" and "d = x - of_int n"
  have "x \<noteq> of_int n" using False by auto
  then have fl: "\<lfloor>- x\<rfloor> = - n - 1" unfolding n_def by linarith
  have d: "- x - of_int (- n - 1) = 1 - d" by (simp add: d_def)
  have "round_even x = (if d < 1 / 2 \<or> d = 1 / 2 \<and> even n then n else n + 1)"
    unfolding round_even_def Let_def n_def d_def ..
  moreover have "round_even (- x) = (if 1 - d < 1 / 2 \<or> 1 - d = 1 / 2 \<and> even (- n - 1) then - n - 1 else - n - 1 + 1)"
    unfolding round_even_def Let_def fl d ..
  moreover consider "d < 1 / 2" | "d = 1 / 2" | "d > 1 / 2" by linarith
  ultimately show ?thesis by cases (simp_all, linarith?)
qed

lemma f64_exp_minus [simp]: "f64_exp (- x) = f64_exp x"
  by (simp add: f64_exp_def)

lemma f64_round_minus: "f64_round (- x) = - f64_round x"
  by (simp add: f64_round_def Let_def round_even_minus)

lemma f64_exp_min: "- 1074 \<le> f64_exp x"
  by (simp add: f64_exp_def)

lemma f64_exp_upper: "\<bar>x\<bar> < 2 ^ 53 * 2 powi f64_exp x"
proof (cases "x = 0")
  case False
  have "\<bar>x\<bar> < 2 powi (rat_log2 \<bar>x\<bar> + 1)" using rat_log2_bounds(2)[of "\<bar>x\<bar>"] False by simp
  also have "\<dots> \<le> 2 powi (53 + f64_exp x)" by (rule powi_2_mono) (simp add: f64_exp_def False)
  also have "\<dots> = 2 ^ 53 * 2 powi f64_exp x" by (simp add: power_int_add)
  finally show ?thesis .
qed (simp add: f64_exp_def)

lemma f64_exp_lower: "- 1074 < f64_exp x \<Longrightarrow> 2 ^ 52 * 2 powi f64_exp x \<le> \<bar>x\<bar>"
proof -
  assume a: "- 1074 < f64_exp x"
  then have x: "x \<noteq> 0" "f64_exp x = rat_log2 \<bar>x\<bar> - 52" by (auto simp: f64_exp_def max_def split: if_splits)
  have "(2 :: rat) ^ 52 * 2 powi f64_exp x = 2 powi (52 + f64_exp x)" by (simp add: power_int_add)
  also have "\<dots> = 2 powi rat_log2 \<bar>x\<bar>" by (simp add: x)
  also have "\<dots> \<le> \<bar>x\<bar>" using rat_log2_bounds(1)[of "\<bar>x\<bar>"] x(1) by simp
  finally show ?thesis .
qed

lemma f64_exp_mono: "\<bar>x\<bar> \<le> \<bar>y\<bar> \<Longrightarrow> f64_exp x \<le> f64_exp y"
proof (rule ccontr)
  assume a: "\<bar>x\<bar> \<le> \<bar>y\<bar>" "\<not> f64_exp x \<le> f64_exp y"
  then have "- 1074 < f64_exp x" using f64_exp_min[of y] by linarith
  then have "2 ^ 52 * 2 powi f64_exp x \<le> \<bar>x\<bar>" by (rule f64_exp_lower)
  moreover have "(2 :: rat) ^ 53 * 2 powi f64_exp y \<le> 2 ^ 52 * 2 powi f64_exp x"
    using powi_2_mono[of "f64_exp y + 1" "f64_exp x"] a(2) by (simp add: power_int_add)
  ultimately show False using f64_exp_upper[of y] a(1) by linarith
qed

text \<open>A number with at most 53 significant bits, and no bit below the smallest float, is a float.\<close>

lemma f64_round_exact:
  assumes "\<bar>m\<bar> \<le> 2 ^ 53" "- 1074 \<le> k"
  shows "f64_round (of_int m * 2 powi k) = of_int m * 2 powi k"
proof -
  let ?x = "of_int m * 2 powi k :: rat" and ?e = "f64_exp (of_int m * 2 powi k)"
  have "\<exists>n. ?x = of_int n * 2 powi ?e"
  proof (cases "?e \<le> k")
    case True
    then have "?x = of_int (m * 2 ^ nat (k - ?e)) * 2 powi ?e" using powi_2_split[OF True] by simp
    then show ?thesis by blast
  next
    case False
    define j where "j = nat (?e - k)"
    have j: "1 \<le> j" and e: "2 powi ?e = of_int (2 ^ j) * (2 :: rat) powi k"
      using False powi_2_split[of k ?e] by (simp_all add: j_def)
    have "2 ^ 52 * 2 powi ?e \<le> \<bar>?x\<bar>" using False assms(2) by (intro f64_exp_lower) linarith
    then have "of_int (2 ^ 52 * 2 ^ j) * (2 :: rat) powi k \<le> of_int \<bar>m\<bar> * 2 powi k"
      by (simp add: e abs_mult)
    then have "2 ^ 52 * 2 ^ j \<le> \<bar>m\<bar>" by (simp only: mult_le_cancel_right of_int_le_iff) simp
    moreover have "(2 :: int) ^ 1 \<le> 2 ^ j" using j by (intro power_increasing) simp_all
    ultimately have m: "\<bar>m\<bar> = 9007199254740992" "(2 :: int) ^ j = 2" using assms(1) by simp_all
    obtain s where s: "m = s * 9007199254740992" using m(1) mult_sgn_abs[of m] by metis
    have "of_int m * 2 powi k = of_int (s * 2 ^ 52) * (of_int (2 ^ j) * (2 :: rat) powi k)"
      unfolding m(2) by (simp add: s)
    then have "?x = of_int (s * 2 ^ 52) * 2 powi ?e" by (subst e)
    then show ?thesis by blast
  qed
  then obtain n where n: "?x = of_int n * 2 powi ?e" ..
  then have "?x / 2 powi ?e = of_int n" by (subst nonzero_divide_eq_eq) (simp, rule n)
  then show ?thesis by (simp only: f64_round_def Let_def round_even_int n[symmetric])
qed

lemma f64_round_exact_int: "\<bar>m\<bar> \<le> 2 ^ 53 \<Longrightarrow> f64_round (of_int m) = of_int m"
  using f64_round_exact[of m 0] by simp

lemma f64_round_0 [simp]: "f64_round 0 = 0"
  using f64_round_exact_int[of 0] by simp

lemma f64_round_1 [simp]: "f64_round 1 = 1"
  using f64_round_exact_int[of 1] by simp

lemma f64_round_idem [simp]: "f64_round (f64_round x) = f64_round x"
proof -
  let ?u = "2 powi f64_exp x :: rat"
  have "x < 2 ^ 53 * ?u" "- (2 ^ 53 * ?u) < x" using f64_exp_upper[of x] by linarith+
  then have "x / ?u \<le> of_int (2 ^ 53)" "of_int (- (2 ^ 53)) \<le> x / ?u"
    by (simp_all add: divide_le_eq le_divide_eq)
  then have "round_even (x / ?u) \<le> 2 ^ 53" "- (2 ^ 53) \<le> round_even (x / ?u)"
    by (metis round_even_int round_even_mono)+
  then have "\<bar>round_even (x / ?u)\<bar> \<le> 2 ^ 53" by linarith
  then show ?thesis using f64_round_exact[OF _ f64_exp_min] by (simp add: f64_round_def[of x] Let_def)
qed

lemma f64_round_mono_pos:
  assumes "0 \<le> x" "x \<le> y"
  shows "f64_round x \<le> f64_round y"
proof (cases "f64_exp x = f64_exp y")
  case True
  have "round_even (x / 2 powi f64_exp y) \<le> round_even (y / 2 powi f64_exp y)"
    using assms(2) by (intro round_even_mono divide_right_mono) simp_all
  then show ?thesis by (simp add: f64_round_def Let_def True)
next
  case False
  then have e: "f64_exp x < f64_exp y" using f64_exp_mono[of x y] assms by simp
  define j where "j = nat (f64_exp y - f64_exp x)"
  let ?u = "2 powi f64_exp x :: rat"
  have v: "2 powi f64_exp y = of_int (2 ^ j) * ?u" and "1 \<le> j"
    using e powi_2_split[of "f64_exp x" "f64_exp y"] by (simp_all add: j_def)
  then have j: "(2 :: int) ^ 53 \<le> 2 ^ 52 * 2 ^ j" using power_increasing[of 1 j "2 :: int"] by simp
  have "x < 2 ^ 53 * ?u" using f64_exp_upper[of x] assms(1) by simp
  then have "x / ?u \<le> of_int (2 ^ 53)" by (simp add: divide_le_eq)
  then have "round_even (x / ?u) \<le> 2 ^ 53" by (metis round_even_int round_even_mono)
  then have "of_int (round_even (x / ?u)) * ?u \<le> of_int (2 ^ 52 * 2 ^ j) * ?u"
    using j by (intro mult_right_mono) (simp_all only: of_int_le_iff, simp_all)
  then have lo: "f64_round x \<le> of_int (2 ^ 52) * 2 powi f64_exp y" by (simp add: f64_round_def Let_def v)
  have "2 ^ 52 * 2 powi f64_exp y \<le> y" using f64_exp_lower[of y] e f64_exp_min[of x] assms by simp
  then have "of_int (2 ^ 52) \<le> y / 2 powi f64_exp y" by (simp add: le_divide_eq)
  then have "2 ^ 52 \<le> round_even (y / 2 powi f64_exp y)" by (metis round_even_int round_even_mono)
  then have hi: "of_int (2 ^ 52) * 2 powi f64_exp y \<le> f64_round y"
    unfolding f64_round_def Let_def by (intro mult_right_mono) (simp_all only: of_int_le_iff, simp_all)
  show ?thesis using lo hi by (rule order_trans)
qed

lemma f64_round_mono: "x \<le> y \<Longrightarrow> f64_round x \<le> f64_round y"
proof -
  assume le: "x \<le> y"
  consider "0 \<le> x" | "x \<le> 0" "0 \<le> y" | "y \<le> 0" by linarith
  then show ?thesis
  proof cases
    case 2
    have "0 \<le> f64_round y" "0 \<le> f64_round (- x)" using f64_round_mono_pos[of 0] 2 f64_round_0 by force+
    then show ?thesis by (simp add: f64_round_minus)
  next
    case 3
    then show ?thesis using f64_round_mono_pos[of "- y" "- x"] le by (simp add: f64_round_minus)
  qed (rule f64_round_mono_pos[OF _ le])
qed

subsection \<open>Seconds\<close>

lemma Duration_Seconds_whole: "\<bar>k\<bar> \<le> 2 ^ 53 \<Longrightarrow> Duration_Seconds (k * 1000000000) = of_int k"
  by (simp add: Duration_Seconds_def Let_def sgn_mult abs_mult mult.assoc f64_round_exact_int mult_sgn_abs)

lemma Duration_Seconds_0 [simp]: "Duration_Seconds 0 = 0"
  using Duration_Seconds_whole[of 0] by simp

lemma Duration_Seconds_minus: "Duration_Seconds (- d) = - Duration_Seconds d"
proof -
  have "sgn (- d) = - sgn d" by (simp add: sgn_if)
  then show ?thesis unfolding Duration_Seconds_def Let_def abs_minus_cancel
    by (simp only: of_int_minus mult_minus_left f64_round_minus minus_divide_left[symmetric] minus_add_distrib[symmetric])
qed

lemma Duration_Seconds_mono_pos:
  assumes "0 \<le> d" "d \<le> e" "e \<le> 2 ^ 63"
  shows "Duration_Seconds d \<le> Duration_Seconds e"
proof -
  let ?ns = "\<lambda>d :: int. f64_round (f64_round (of_int (d mod 1000000000)) / 1000000000)"
  have split: "Duration_Seconds d = f64_round (of_int (d div 1000000000) + ?ns d)" if "0 \<le> d" "d \<le> 2 ^ 63" for d
  proof -
    have "\<bar>d div 1000000000\<bar> \<le> 2 ^ 53" using that by simp
    then show ?thesis using that by (cases "d = 0") (simp_all add: Duration_Seconds_def Let_def f64_round_exact_int)
  qed
  have ns: "0 \<le> ?ns d" "?ns d \<le> 1" for d
    using f64_round_mono[of 0 "f64_round (of_int (d mod 1000000000)) / 1000000000"]
      f64_round_mono[of "f64_round (of_int (d mod 1000000000)) / 1000000000" 1]
      f64_round_mono[of 0 "of_int (d mod 1000000000)"]
      f64_round_mono[of "of_int (d mod 1000000000)" "of_int 1000000000"]
      f64_round_exact_int[of 1000000000]
    by simp_all
  have "of_int (d div 1000000000) + ?ns d \<le> of_int (e div 1000000000) + ?ns e"
  proof (cases "d div 1000000000 = e div 1000000000")
    case True
    then have "d mod 1000000000 \<le> e mod 1000000000" using assms(2) by (metis add_le_cancel_left mult_div_mod_eq)
    then have "?ns d \<le> ?ns e" by (intro f64_round_mono divide_right_mono) simp_all
    then show ?thesis using True by simp
  next
    case False
    then have "d div 1000000000 + 1 \<le> e div 1000000000" using zdiv_mono1[OF assms(2), of 1000000000] by simp
    then have "(of_int (d div 1000000000) :: rat) + 1 \<le> of_int (e div 1000000000)" by (metis of_int_1 of_int_add of_int_le_iff)
    then show ?thesis using ns[of d] ns[of e] by linarith
  qed
  then show ?thesis using assms by (simp only: split) (rule f64_round_mono)
qed

lemma Duration_Seconds_mono:
  assumes "d \<le> e" "- (2 ^ 63) \<le> d" "e < 2 ^ 63"
  shows "Duration_Seconds d \<le> Duration_Seconds e"
proof -
  have nonneg: "0 \<le> Duration_Seconds d" if "0 \<le> d" "d \<le> 2 ^ 63" for d
    using Duration_Seconds_mono_pos[of 0 d] that by simp
  consider "0 \<le> d" | "d \<le> 0" "0 \<le> e" | "e \<le> 0" by linarith
  then show ?thesis
  proof cases
    case 2
    then show ?thesis using nonneg[of e] nonneg[of "- d"] assms by (simp add: Duration_Seconds_minus)
  next
    case 3
    then show ?thesis using Duration_Seconds_mono_pos[of "- e" "- d"] assms by (simp add: Duration_Seconds_minus)
  qed (use Duration_Seconds_mono_pos assms in simp)
qed

end
