(* ===== verification/TokenBucket.thy ===== *)
theory TokenBucket
  imports Float64
begin

text \<open>
  \<^verbatim>\<open>test/harness/filestore/throttle.go\<close>: the token bucket of the per-operation ceiling.  Rates and
  tokens are float64.
\<close>

record tokenBucket =
  tb_rate :: rat
  tb_burst :: rat
  tb_tokens :: rat
  tb_last :: int

definition newTokenBucket :: "rat \<Rightarrow> rat \<Rightarrow> int \<Rightarrow> tokenBucket" where
  "newTokenBucket rate burst now =
     \<lparr>tb_rate = rate, tb_burst = burst, tb_tokens = burst, tb_last = now\<rparr>"

definition refill :: "int \<Rightarrow> tokenBucket \<Rightarrow> tokenBucket" where
  "refill now b =
     (let elapsed = Duration_Seconds (time_Sub now (tb_last b)) in
      if elapsed > 0 then
        (let tokens = f64_round (tb_tokens b + f64_round (elapsed * tb_rate b)) in
         b\<lparr>tb_tokens := (if tokens > tb_burst b then tb_burst b else tokens), tb_last := now\<rparr>)
      else b)"

definition allow :: "int \<Rightarrow> tokenBucket \<Rightarrow> bool \<times> tokenBucket" where
  "allow now b =
     (let b1 = refill now b in
      if tb_tokens b1 \<ge> 1 then (True, b1\<lparr>tb_tokens := f64_round (tb_tokens b1 - 1)\<rparr>)
      else (False, b1))"

text \<open>A sequence of charges, at the times given.\<close>

fun charges :: "int list \<Rightarrow> tokenBucket \<Rightarrow> bool list \<times> tokenBucket" where
  "charges [] b = ([], b)"
| "charges (t # ts) b =
     (case allow t b of (ok, b1) \<Rightarrow> (case charges ts b1 of (oks, b2) \<Rightarrow> (ok # oks, b2)))"

text \<open>The tokens stay between nothing and the capacity.\<close>

definition bucket_ok :: "tokenBucket \<Rightarrow> bool" where
  "bucket_ok b \<longleftrightarrow>
     0 \<le> tb_tokens b \<and> tb_tokens b \<le> tb_burst b \<and> 0 \<le> tb_rate b \<and>
     f64_round (tb_tokens b) = tb_tokens b \<and> f64_round (tb_burst b) = tb_burst b"

lemma refill_keeps [simp]:
  "tb_burst (refill now b) = tb_burst b" "tb_rate (refill now b) = tb_rate b"
  by (simp_all add: refill_def Let_def)

lemma refill_ok:
  assumes "bucket_ok b"
  shows "bucket_ok (refill now b)" "tb_tokens b \<le> tb_tokens (refill now b)"
proof -
  let ?e = "Duration_Seconds (time_Sub now (tb_last b))"
  have b: "0 \<le> tb_tokens b" "tb_tokens b \<le> tb_burst b" "0 \<le> tb_rate b"
    "f64_round (tb_tokens b) = tb_tokens b" "f64_round (tb_burst b) = tb_burst b"
    using assms(1) by (auto simp: bucket_ok_def)
  have grow: "tb_tokens b \<le> f64_round (tb_tokens b + f64_round (?e * tb_rate b))" if "?e > 0"
  proof -
    have "0 \<le> f64_round (?e * tb_rate b)" using f64_round_mono[of 0 "?e * tb_rate b"] that b(3) by simp
    then show ?thesis using f64_round_mono[of "tb_tokens b" "tb_tokens b + f64_round (?e * tb_rate b)"] b(4) by simp
  qed
  show "tb_tokens b \<le> tb_tokens (refill now b)" using grow b(2) by (simp add: refill_def Let_def)
  show "bucket_ok (refill now b)"
    using grow b by (auto simp: bucket_ok_def refill_def Let_def)
qed

lemma allow_ok:
  assumes "bucket_ok b" "allow now b = (ok, b')"
  shows "bucket_ok b'" "tb_burst b' = tb_burst b" "tb_rate b' = tb_rate b"
proof -
  note r = refill_ok(1)[OF assms(1), of now]
  let ?t = "tb_tokens (refill now b)"
  have "f64_round (?t - 1) \<le> ?t" using f64_round_mono[of "?t - 1" ?t] r by (simp add: bucket_ok_def)
  moreover have "1 \<le> ?t \<Longrightarrow> 0 \<le> f64_round (?t - 1)" using f64_round_mono[of 0 "?t - 1"] by simp
  ultimately show "bucket_ok b'"
    using assms(2) r by (auto simp: allow_def Let_def bucket_ok_def split: if_splits)
  show "tb_burst b' = tb_burst b" "tb_rate b' = tb_rate b"
    using assms(2) by (auto simp: allow_def Let_def split: if_splits)
qed

text \<open>While the clock stands still, exactly the tokens that are there are admitted.\<close>

lemma charges_still:
  assumes "tb_tokens b = of_nat k" "k \<le> 2 ^ 53" "t \<le> tb_last b"
  shows "fst (charges (replicate n t) b) = replicate (min n k) True @ replicate (n - k) False"
  using assms
proof (induction n arbitrary: b k)
  case (Suc n)
  have "Duration_Seconds (time_Sub t (tb_last b)) \<le> 0" using Duration_Seconds_mono[of "time_Sub t (tb_last b)" 0] Suc.prems(3) by (simp add: time_Sub_def max_duration_def)
  then have r: "refill t b = b" by (simp add: refill_def Let_def)
  show ?case
  proof (cases k)
    case 0
    then have "allow t b = (False, b)" using Suc.prems(1) by (simp add: allow_def r)
    then show ?thesis using Suc.IH[of b 0] Suc.prems 0 by (simp add: case_prod_beta)
  next
    case (Suc k')
    have "f64_round (of_nat k') = of_nat k'"
      using f64_round_exact_int[of "int k'"] Suc.prems(2) Suc by (simp add: of_nat_le_iff[symmetric] del: of_nat_le_iff)
    then have "allow t b = (True, b\<lparr>tb_tokens := of_nat k'\<rparr>)"
      using Suc.prems(1) Suc by (simp add: allow_def r)
    then show ?thesis
      using Suc.IH[of "b\<lparr>tb_tokens := of_nat k'\<rparr>" k'] Suc.prems Suc by (simp add: case_prod_beta)
  qed
qed simp

text \<open>A caller that backs off long enough for one token is admitted.\<close>

lemma allow_recovers:
  assumes "bucket_ok b" "1 \<le> tb_burst b"
    and "1 \<le> Duration_Seconds (time_Sub now (tb_last b)) * tb_rate b" "0 < Duration_Seconds (time_Sub now (tb_last b))"
  shows "fst (allow now b)"
proof -
  let ?r = "f64_round (Duration_Seconds (time_Sub now (tb_last b)) * tb_rate b)"
  have "1 \<le> ?r" using f64_round_mono[OF assms(3)] by simp
  then have "1 \<le> tb_tokens b + ?r" using assms(1) by (simp add: bucket_ok_def)
  then have "1 \<le> f64_round (tb_tokens b + ?r)" using f64_round_mono[of 1] by fastforce
  then show ?thesis using assms(2,4) by (simp add: allow_def refill_def Let_def)
qed

end
