(* ===== verification/Filestore.thy ===== *)
theory Filestore
  imports HttpPeer OsVolume TokenBucket
begin

text \<open>
  \<^verbatim>\<open>test/harness/filestore\<close>: the REST filestore peer that the mount is run against.  A request is
  authenticated, authorised against the scope it names, charged to the per-operation ceiling and
  dispatched; the handlers work on a directory tree of the host.

  \<open>fsHost\<close> is what the peer's process gets from its host: SHA-256, the times and modes the kernel
  reports, the faults of its system calls, the clock.  These are functions of the number of the
  request, so that they may change from one request to the next.
\<close>

subsection \<open>The host\<close>

record fsHost =
  fh_sha256 :: "bytes \<Rightarrow> bytes"
  fh_mtime :: "nat \<Rightarrow> string list \<Rightarrow> string"
  fh_mode :: "nat \<Rightarrow> string list \<Rightarrow> string"
  fh_dirSize :: "nat \<Rightarrow> string list \<Rightarrow> int"
  fh_os :: "nat \<Rightarrow> hostos"
  fh_error :: "nat \<Rightarrow> string list \<Rightarrow> errno \<Rightarrow> string"
  fh_cwd :: string
  fh_getwd :: "gerror option"
  fh_now :: "nat \<Rightarrow> int"

subsection \<open>Operations, scopes and the server (filestore.go)\<close>

definition fsRestBase :: string where
  "fsRestBase = ''/v1/filestore/fs/''"

definition opCreateFile :: string where "opCreateFile = ''createFile''"
definition opReadFile :: string where "opReadFile = ''readFile''"
definition opReadMetadata :: string where "opReadMetadata = ''readMetadata''"
definition opListDirectory :: string where "opListDirectory = ''listDirectory''"
definition opCopyFile :: string where "opCopyFile = ''copyFile''"
definition opMoveFile :: string where "opMoveFile = ''moveFile''"
definition opRemoveFile :: string where "opRemoveFile = ''removeFile''"
definition opMakeDirectory :: string where "opMakeDirectory = ''makeDirectory''"
definition opMoveDirectory :: string where "opMoveDirectory = ''moveDirectory''"
definition opRemoveDirectory :: string where "opRemoveDirectory = ''removeDirectory''"
definition opFileUpload :: string where "opFileUpload = ''fileUpload''"
definition opFileDownload :: string where "opFileDownload = ''fileDownload''"

lemmas fs_op_defs =
  opCreateFile_def opReadFile_def opReadMetadata_def opListDirectory_def opCopyFile_def opMoveFile_def
  opRemoveFile_def opMakeDirectory_def opMoveDirectory_def opRemoveDirectory_def opFileUpload_def
  opFileDownload_def

definition writeIntentOps :: "string list" where
  "writeIntentOps =
     [opCreateFile, opCopyFile, opMoveFile, opRemoveFile, opMakeDirectory, opMoveDirectory,
      opRemoveDirectory, opFileUpload]"

record Scope =
  sc_FilesystemID :: string
  sc_Root :: string
  sc_ReadOnly :: bool

text \<open>A validator resolves an Authorization header, at the time of a request.\<close>

type_synonym CredentialValidator = "nat \<Rightarrow> string \<Rightarrow> string result"

definition errNoCredential :: gerror where
  "errNoCredential = msgf ''filestore: missing or unknown credential'' []"

definition bearer_prefix :: string where
  "bearer_prefix = ''Bearer ''"

definition StaticCredentialValidator :: "(string \<Rightarrow> string option) \<Rightarrow> CredentialValidator" where
  "StaticCredentialValidator credentials t authzHeader =
     (if \<not> HasPrefix authzHeader bearer_prefix then Inl errNoCredential
      else
        (let cred = TrimSpace (TrimPrefix authzHeader bearer_prefix) in
         if cred = [] then Inl errNoCredential
         else (case credentials cred of None \<Rightarrow> Inl errNoCredential | Some fsID \<Rightarrow> Inr fsID)))"

record PerOpThrottle =
  th_FilesystemID :: string
  th_Rate :: rat
  th_Burst :: rat

record ServerOptions =
  so_Scopes :: "Scope list"
  so_Credentials :: "CredentialValidator option"
  so_ThrottleEvery :: int
  so_PerOpThrottle :: "PerOpThrottle option"

record Server =
  s_scopes :: "string \<Rightarrow> Scope option"
  s_credentials :: CredentialValidator
  s_throttleEvery :: int
  s_writeCount :: int
  s_perOpScope :: string
  s_perOpBucket :: "tokenBucket option"

definition NewServer :: "ServerOptions \<Rightarrow> int \<Rightarrow> Server result" where
  "NewServer opts now =
     (case so_Credentials opts of
        None \<Rightarrow> Inl (msgf ''filestore.NewServer: a CredentialValidator is required'' [])
      | Some credentials \<Rightarrow>
          (let s = \<lparr>s_scopes = fold (\<lambda>sc m. m(sc_FilesystemID sc \<mapsto> sc)) (so_Scopes opts) Map.empty,
                    s_credentials = credentials, s_throttleEvery = so_ThrottleEvery opts,
                    s_writeCount = 0, s_perOpScope = [], s_perOpBucket = None\<rparr> in
           case so_PerOpThrottle opts of
             Some t \<Rightarrow>
               if th_FilesystemID t \<noteq> [] then
                 Inr (s\<lparr>s_perOpScope := th_FilesystemID t,
                        s_perOpBucket := Some (newTokenBucket (th_Rate t) (th_Burst t) now)\<rparr>)
               else Inr s
           | None \<Rightarrow> Inr s))"

definition DefaultE2EScopes :: "string \<Rightarrow> string \<Rightarrow> string \<Rightarrow> string \<Rightarrow> Scope list" where
  "DefaultE2EScopes uploadsDir outputsDir uploadsFSID outputsFSID =
     [\<lparr>sc_FilesystemID = uploadsFSID, sc_Root = uploadsDir, sc_ReadOnly = True\<rparr>,
      \<lparr>sc_FilesystemID = outputsFSID, sc_Root = outputsDir, sc_ReadOnly = False\<rparr>]"

record commonBody =
  cb_FilesystemID :: string
  cb_raw :: bytes

definition maxRequestBytes :: nat where
  "maxRequestBytes = 1048576"

definition readAllLimited :: "rq_body \<Rightarrow> bytes option" where
  "readAllLimited b = map_option (take maxRequestBytes) (raw_bytes b)"

text \<open>
  The decoders of the request bodies.  The authorization metadata is decoded, so that a body of the
  wrong shape is refused, and then not looked at.
\<close>

definition dec_authorizationMetadata :: "(string \<times> bool) decoder" where
  "dec_authorizationMetadata = dec_struct False
     [field ''intent'' dec_string fst apfst, field ''downloadable'' dec_bool snd apsnd]"

record commonFields =
  cf_FilesystemID :: string
  cf_Meta :: "string \<times> bool"

definition dec_commonBody :: "commonFields decoder" where
  "dec_commonBody = dec_struct False
     [field ''filesystem_id'' dec_string cf_FilesystemID cf_FilesystemID_update,
      field ''authorization_metadata'' dec_authorizationMetadata cf_Meta cf_Meta_update]"

text \<open>\<^verbatim>\<open>json.Unmarshal\<close> into a struct.\<close>

definition unmarshal_into :: "'a decoder \<Rightarrow> 'a \<Rightarrow> bytes \<Rightarrow> 'a option" where
  "unmarshal_into d zero raw = Option.bind (json_Unmarshal raw) (\<lambda>j. d j zero)"

definition decodeCommon :: "rq_body \<Rightarrow> commonBody option" where
  "decodeCommon b =
     (case readAllLimited b of
        None \<Rightarrow> None
      | Some raw \<Rightarrow>
          map_option (\<lambda>c. \<lparr>cb_FilesystemID = cf_FilesystemID c, cb_raw = raw\<rparr>)
            (unmarshal_into dec_commonBody \<lparr>cf_FilesystemID = [], cf_Meta = ([], False)\<rparr> raw))"

definition authorize :: "Server \<Rightarrow> string \<Rightarrow> string \<Rightarrow> string \<Rightarrow> (int \<times> string) + Scope" where
  "authorize s opName subjectFSID requestedFSID =
     (if requestedFSID = [] then Inl (400, ''filesystem_id is required'')
      else if subjectFSID \<noteq> requestedFSID then
        Inl (403, ''credential is not bound to the requested filesystem_id'')
      else
        (case s_scopes s requestedFSID of
           None \<Rightarrow> Inl (403, ''unknown filesystem_id'')
         | Some scope \<Rightarrow>
             if sc_ReadOnly scope \<and> opName \<in> set writeIntentOps
             then Inl (403, ''scope is read-only; write refused'')
             else Inr scope))"

definition chargePerOp :: "fsHost \<Rightarrow> nat \<Rightarrow> string \<Rightarrow> Server \<Rightarrow> bool \<times> Server" where
  "chargePerOp h t requestedFSID s =
     (case s_perOpBucket s of
        None \<Rightarrow> (True, s)
      | Some b \<Rightarrow>
          if requestedFSID \<noteq> s_perOpScope s then (True, s)
          else (case allow (fh_now h t) b of (ok, b') \<Rightarrow> (ok, s\<lparr>s_perOpBucket := Some b'\<rparr>)))"

subsection \<open>Paths and handles (volume.go)\<close>

definition filepath_Abs :: "fsHost \<Rightarrow> string \<Rightarrow> string result" where
  "filepath_Abs h p =
     (if HasPrefix p ''/'' then Inr (Clean p)
      else (case fh_getwd h of Some e \<Rightarrow> Inl e | None \<Rightarrow> Inr (Join [fh_cwd h, p])))"

text \<open>The directory a path names: a relative one starts at the working directory.\<close>

definition host_dir :: "fsHost \<Rightarrow> string \<Rightarrow> string list" where
  "host_dir h p = path_segs (if HasPrefix p ''/'' then Clean p else Join [fh_cwd h, p])"

definition resolveUnder :: "fsHost \<Rightarrow> string \<Rightarrow> string \<Rightarrow> string result" where
  "resolveUnder h rootDir rel =
     (let clean = Clean (slash # TrimPrefix rel ''/'');
          absp = Join [rootDir, clean] in
      case filepath_Abs h rootDir of
        Inl err \<Rightarrow> Inl err
      | Inr rootAbs \<Rightarrow>
          (case filepath_Abs h absp of
             Inl err \<Rightarrow> Inl err
           | Inr absAbs \<Rightarrow>
               if absAbs \<noteq> rootAbs \<and> \<not> HasPrefix absAbs (rootAbs @ ''/'') then
                 Inl (msgf ''filestore: path %q escapes the scope volume'' [FStr rel])
               else Inr absAbs))"

definition hex_EncodeToString :: "bytes \<Rightarrow> string" where
  "hex_EncodeToString bs = concat (map (\<lambda>c. [hex_digit (byte c div 16), hex_digit (byte c mod 16)]) bs)"

definition uuidForRelPath :: "fsHost \<Rightarrow> string \<Rightarrow> string \<Rightarrow> string" where
  "uuidForRelPath h fsID rel =
     (let clean = Clean (slash # TrimPrefix rel ''/'') in
      hex_EncodeToString (take 16 (fh_sha256 h (fsID @ CHR 0x00 # clean))))"

text \<open>The path of a file relative to the directory the walk started from.\<close>

definition filepath_Rel :: "string list \<Rightarrow> string" where
  "filepath_Rel p = (if p = [] then ''.'' else join_slash p)"

text \<open>
  The scan for a handle.  The contents of a directory that cannot be read are skipped; a root that
  cannot be found has no files.
\<close>

definition relPathForUUID :: "fsHost \<Rightarrow> nat \<Rightarrow> Scope \<Rightarrow> string \<Rightarrow> vnode \<Rightarrow> string option" where
  "relPathForUUID h t scope uuid v =
     (let base = host_dir h (sc_Root scope); os = fh_os h t in
      case os_Stat os base v of
        Inl err \<Rightarrow> None
      | Inr nd \<Rightarrow>
          map_option filepath_Rel
            (find (\<lambda>p. list_all (\<lambda>n. os_fault os (ScReadDir (base @ take n p)) = None) [0..<length p] \<and>
                       uuidForRelPath h (sc_FilesystemID scope) (filepath_Rel p) = uuid)
               (walk_files nd)))"

definition node_size :: "fsHost \<Rightarrow> nat \<Rightarrow> string list \<Rightarrow> vnode \<Rightarrow> int" where
  "node_size h t p nd = (case nd of VFile b \<Rightarrow> int (length b) | VDir es \<Rightarrow> fh_dirSize h t p)"

record wireFile =
  wf_Path :: string
  wf_Size :: int
  wf_Mtime :: string
  wf_Mode :: string
  wf_MIME :: string
  wf_UUID :: string

record wireDir =
  wd_Path :: string
  wd_Mode :: string
  wd_Mtime :: string

text \<open>The metadata of a file, from \<^verbatim>\<open>Stat\<close>; the wire struct carries the path of the request.\<close>

definition fileMeta :: "fsHost \<Rightarrow> nat \<Rightarrow> Scope \<Rightarrow> string \<Rightarrow> string list \<Rightarrow> vnode \<Rightarrow> errno + wireFile" where
  "fileMeta h t scope rel absp v =
     (case os_Stat (fh_os h t) absp v of
        Inl e \<Rightarrow> Inl e
      | Inr nd \<Rightarrow>
          Inr \<lparr>wf_Path = rel, wf_Size = node_size h t absp nd, wf_Mtime = fh_mtime h t absp,
               wf_Mode = fh_mode h t absp, wf_MIME = [], wf_UUID = uuidForRelPath h (sc_FilesystemID scope) rel\<rparr>)"

subsection \<open>Response bodies (ops.go)\<close>

definition omit_string :: "string \<Rightarrow> string \<Rightarrow> (string \<times> json) list" where
  "omit_string k s = (if s = [] then [] else [(k, JStr s)])"

definition omit_int :: "string \<Rightarrow> int \<Rightarrow> (string \<times> json) list" where
  "omit_int k n = (if n = 0 then [] else [(k, JInt n)])"

definition json_wireFile :: "wireFile \<Rightarrow> json" where
  "json_wireFile f =
     JObj (omit_string ''path'' (wf_Path f) @ omit_int ''size'' (wf_Size f) @
           omit_string ''mtime'' (wf_Mtime f) @ omit_string ''mode'' (wf_Mode f) @
           omit_string ''mime'' (wf_MIME f) @ omit_string ''uuid'' (wf_UUID f))"

definition json_wireDir :: "wireDir \<Rightarrow> json" where
  "json_wireDir d =
     JObj (omit_string ''path'' (wd_Path d) @ omit_string ''mode'' (wd_Mode d) @
           omit_string ''mtime'' (wd_Mtime d))"

datatype listDirEntry = FileEntry wireFile | DirEntry wireDir

primrec json_entry :: "listDirEntry \<Rightarrow> json" where
  "json_entry (FileEntry f) = JObj [(''file'', json_wireFile f)]"
| "json_entry (DirEntry d) = JObj [(''directory'', json_wireDir d)]"

definition writeMetaError :: "errno \<Rightarrow> reply" where
  "writeMetaError e =
     (if e = ENOENT then httpjson_Error 404 ''not found''
      else if e = EEXIST \<or> e = ENOTEMPTY then httpjson_Error 409 ''already exists''
      else httpjson_Error 500 ''operation failed'')"

subsection \<open>The handlers (ops.go)\<close>

definition pathFromBody :: "commonBody \<Rightarrow> string option" where
  "pathFromBody body = unmarshal_into (dec_struct False [field ''path'' dec_string id id]) [] (cb_raw body)"

text \<open>Every handler of a path starts by decoding the path and confining it to the scope.\<close>

definition with_path ::
  "fsHost \<Rightarrow> Scope \<Rightarrow> commonBody \<Rightarrow> vnode \<Rightarrow> (string \<Rightarrow> string list \<Rightarrow> reply \<times> vnode) \<Rightarrow> reply \<times> vnode" where
  "with_path h scope body v k =
     (case pathFromBody body of
        None \<Rightarrow> (httpjson_Error 400 ''malformed body'', v)
      | Some rel \<Rightarrow>
          (case resolveUnder h (sc_Root scope) rel of
             Inl err \<Rightarrow> (httpjson_Error 400 ''path escapes scope'', v)
           | Inr absp \<Rightarrow> k rel (path_segs absp)))"

definition file_reply :: "fsHost \<Rightarrow> nat \<Rightarrow> Scope \<Rightarrow> string \<Rightarrow> string list \<Rightarrow> vnode \<Rightarrow> reply" where
  "file_reply h t scope rel absp v =
     (case fileMeta h t scope rel absp v of
        Inl e \<Rightarrow> writeMetaError e
      | Inr f \<Rightarrow> httpjson_OK (JObj [(''file'', json_wireFile f)]))"

definition handleCreateFile :: "fsHost \<Rightarrow> nat \<Rightarrow> Scope \<Rightarrow> commonBody \<Rightarrow> vnode \<Rightarrow> reply \<times> vnode" where
  "handleCreateFile h t scope body v =
     with_path h scope body v (\<lambda>rel absp.
       case os_MkdirAll (fh_os h t) (butlast absp) v of
         (Some e, v1) \<Rightarrow> (httpjson_Error 500 (''mkdir parent failed: '' @ fh_error h t (butlast absp) e), v1)
       | (None, v1) \<Rightarrow>
           (case os_Create (fh_os h t) absp v1 of
              (Some e, v2) \<Rightarrow> (writeMetaError e, v2)
            | (None, v2) \<Rightarrow> (file_reply h t scope rel absp v2, v2)))"

definition handleReadFile :: "fsHost \<Rightarrow> nat \<Rightarrow> Scope \<Rightarrow> commonBody \<Rightarrow> vnode \<Rightarrow> reply \<times> vnode" where
  "handleReadFile h t scope body v =
     with_path h scope body v (\<lambda>rel absp. (file_reply h t scope rel absp v, v))"

definition node_entry :: "fsHost \<Rightarrow> nat \<Rightarrow> Scope \<Rightarrow> string \<Rightarrow> string list \<Rightarrow> vnode \<Rightarrow> listDirEntry" where
  "node_entry h t scope rel absp nd =
     (case nd of
        VDir es \<Rightarrow> DirEntry \<lparr>wd_Path = rel, wd_Mode = fh_mode h t absp, wd_Mtime = fh_mtime h t absp\<rparr>
      | VFile b \<Rightarrow>
          FileEntry \<lparr>wf_Path = rel, wf_Size = int (length b), wf_Mtime = fh_mtime h t absp,
                     wf_Mode = fh_mode h t absp, wf_MIME = [],
                     wf_UUID = uuidForRelPath h (sc_FilesystemID scope) rel\<rparr>)"

definition handleReadMetadata :: "fsHost \<Rightarrow> nat \<Rightarrow> Scope \<Rightarrow> commonBody \<Rightarrow> vnode \<Rightarrow> reply \<times> vnode" where
  "handleReadMetadata h t scope body v =
     with_path h scope body v (\<lambda>rel absp.
       (case os_Stat (fh_os h t) absp v of
          Inl e \<Rightarrow> writeMetaError e
        | Inr nd \<Rightarrow> httpjson_OK (json_entry (node_entry h t scope rel absp nd)), v))"

text \<open>An entry whose metadata cannot be read is left out of a listing.\<close>

definition list_entries ::
  "fsHost \<Rightarrow> nat \<Rightarrow> Scope \<Rightarrow> string \<Rightarrow> string list \<Rightarrow> (string \<times> vnode) list \<Rightarrow> listDirEntry list" where
  "list_entries h t scope rel absp es =
     concat (map (\<lambda>(n, nd).
       case os_fault (fh_os h t) (ScStat (absp @ [n])) of
         Some e \<Rightarrow> []
       | None \<Rightarrow> [node_entry h t scope (Join [rel, n]) (absp @ [n]) nd]) es)"

text \<open>A listing of nothing is a nil slice, which is written as null.\<close>

definition json_entries :: "listDirEntry list \<Rightarrow> json" where
  "json_entries es = (if es = [] then JNull else JArr (map json_entry es))"

definition handleListDirectory :: "fsHost \<Rightarrow> nat \<Rightarrow> Scope \<Rightarrow> commonBody \<Rightarrow> vnode \<Rightarrow> reply \<times> vnode" where
  "handleListDirectory h t scope body v =
     with_path h scope body v (\<lambda>rel absp.
       (case os_ReadDir (fh_os h t) absp v of
          Inl e \<Rightarrow> writeMetaError e
        | Inr es \<Rightarrow> httpjson_OK (JObj [(''entries'', json_entries (list_entries h t scope rel absp es))]), v))"

text \<open>The outcome of a call that changes the tree: an empty object, or the mapped error.\<close>

definition ack_reply :: "errno option \<times> vnode \<Rightarrow> reply \<times> vnode" where
  "ack_reply r = (case r of (None, v) \<Rightarrow> (httpjson_OK (JObj []), v) | (Some e, v) \<Rightarrow> (writeMetaError e, v))"

definition handleMakeDirectory :: "fsHost \<Rightarrow> nat \<Rightarrow> Scope \<Rightarrow> commonBody \<Rightarrow> vnode \<Rightarrow> reply \<times> vnode" where
  "handleMakeDirectory h t scope body v =
     with_path h scope body v (\<lambda>rel absp. ack_reply (os_MkdirAll (fh_os h t) absp v))"

definition handleRemoveDirectory :: "fsHost \<Rightarrow> nat \<Rightarrow> Scope \<Rightarrow> commonBody \<Rightarrow> vnode \<Rightarrow> reply \<times> vnode" where
  "handleRemoveDirectory h t scope body v =
     with_path h scope body v (\<lambda>rel absp. ack_reply (os_RemoveAll (fh_os h t) absp v))"

definition handleRemoveFile :: "fsHost \<Rightarrow> nat \<Rightarrow> Scope \<Rightarrow> commonBody \<Rightarrow> vnode \<Rightarrow> reply \<times> vnode" where
  "handleRemoveFile h t scope body v =
     with_path h scope body v (\<lambda>rel absp. ack_reply (os_Remove (fh_os h t) absp v))"

record srcDstBody =
  sd_Source :: string
  sd_Destination :: string
  sd_OverwriteExisting :: bool

definition srcDstFromBody :: "commonBody \<Rightarrow> srcDstBody option" where
  "srcDstFromBody body =
     unmarshal_into
       (dec_struct False
          [field ''source'' dec_string sd_Source sd_Source_update,
           field ''destination'' dec_string sd_Destination sd_Destination_update,
           field ''overwrite_existing'' dec_bool sd_OverwriteExisting sd_OverwriteExisting_update])
       \<lparr>sd_Source = [], sd_Destination = [], sd_OverwriteExisting = False\<rparr> (cb_raw body)"

definition resolveSrcDst :: "fsHost \<Rightarrow> Scope \<Rightarrow> srcDstBody \<Rightarrow> (int \<times> string) + string \<times> string" where
  "resolveSrcDst h scope sd =
     (case resolveUnder h (sc_Root scope) (sd_Source sd) of
        Inl err \<Rightarrow> Inl (400, ''source escapes scope'')
      | Inr srcAbs \<Rightarrow>
          (case resolveUnder h (sc_Root scope) (sd_Destination sd) of
             Inl err \<Rightarrow> Inl (400, ''destination escapes scope'')
           | Inr dstAbs \<Rightarrow> Inr (srcAbs, dstAbs)))"

definition applySrcDstOp ::
  "fsHost \<Rightarrow> nat \<Rightarrow> Scope \<Rightarrow> commonBody \<Rightarrow>
   (string list \<Rightarrow> string list \<Rightarrow> vnode \<Rightarrow> errno option \<times> vnode) \<Rightarrow> vnode \<Rightarrow> reply \<times> vnode" where
  "applySrcDstOp h t scope body f v =
     (case srcDstFromBody body of
        None \<Rightarrow> (httpjson_Error 400 ''malformed body'', v)
      | Some sd \<Rightarrow>
          (case resolveSrcDst h scope sd of
             Inl (status, msg) \<Rightarrow> (httpjson_Error status msg, v)
           | Inr (srcAbs, dstAbs) \<Rightarrow>
               (let p = path_segs srcAbs; q = path_segs dstAbs in
                if \<not> sd_OverwriteExisting sd \<and> \<not> isl (os_Stat (fh_os h t) q v) then
                  (httpjson_Error 409 ''destination exists'', v)
                else
                  (case os_MkdirAll (fh_os h t) (butlast q) v of
                     (Some e, v1) \<Rightarrow> (httpjson_Error 500 (''mkdir parent failed: '' @ fh_error h t (butlast q) e), v1)
                   | (None, v1) \<Rightarrow> ack_reply (f p q v1)))))"

definition copyFileContents ::
  "hostos \<Rightarrow> string list \<Rightarrow> string list \<Rightarrow> vnode \<Rightarrow> errno option \<times> vnode" where
  "copyFileContents os p q v =
     (case os_Open os p v of
        Inl e \<Rightarrow> (Some e, v)
      | Inr nd \<Rightarrow>
          (case os_Create os q v of
             (Some e, v1) \<Rightarrow> (Some e, v1)
           | (None, v1) \<Rightarrow>
               (case os_query os (ScRead p) (vlookup p) v1 of
                  Inl e \<Rightarrow> (Some e, v1)
                | Inr (VDir es) \<Rightarrow> (Some EISDIR, v1)
                | Inr (VFile b) \<Rightarrow>
                    (case os_Write os q b v1 of
                       (Some e, v2) \<Rightarrow> (Some e, v2)
                     | (None, v2) \<Rightarrow> (os_fault os (ScClose q), v2)))))"

definition handleCopyFile :: "fsHost \<Rightarrow> nat \<Rightarrow> Scope \<Rightarrow> commonBody \<Rightarrow> vnode \<Rightarrow> reply \<times> vnode" where
  "handleCopyFile h t scope body v = applySrcDstOp h t scope body (copyFileContents (fh_os h t)) v"

definition handleMoveFile :: "fsHost \<Rightarrow> nat \<Rightarrow> Scope \<Rightarrow> commonBody \<Rightarrow> vnode \<Rightarrow> reply \<times> vnode" where
  "handleMoveFile h t scope body v = applySrcDstOp h t scope body (os_Rename (fh_os h t)) v"

definition handleMoveDirectory :: "fsHost \<Rightarrow> nat \<Rightarrow> Scope \<Rightarrow> commonBody \<Rightarrow> vnode \<Rightarrow> reply \<times> vnode" where
  "handleMoveDirectory h t scope body v = applySrcDstOp h t scope body (os_Rename (fh_os h t)) v"

subsection \<open>Transfers (transfer.go)\<close>

record uploadParams =
  up_FilesystemID :: string
  up_Path :: string
  up_DeclaredSizeBytes :: int
  up_OverwriteExisting :: bool
  up_Meta :: "string \<times> bool"

definition dec_uploadParams :: "uploadParams decoder" where
  "dec_uploadParams = dec_struct False
     [field ''filesystem_id'' dec_string up_FilesystemID up_FilesystemID_update,
      field ''path'' dec_string up_Path up_Path_update,
      field ''declared_size_bytes'' dec_int64 up_DeclaredSizeBytes up_DeclaredSizeBytes_update,
      field ''overwrite_existing'' dec_bool up_OverwriteExisting up_OverwriteExisting_update,
      field ''authorization_metadata'' dec_authorizationMetadata up_Meta up_Meta_update]"

definition zero_uploadParams :: uploadParams where
  "zero_uploadParams =
     \<lparr>up_FilesystemID = [], up_Path = [], up_DeclaredSizeBytes = 0, up_OverwriteExisting = False,
      up_Meta = ([], False)\<rparr>"

record rangeWindow =
  rw_Offset :: int
  rw_Length :: int

record downloadBody =
  db_UUID :: string
  db_Range :: "rangeWindow option"
  db_FilesystemID :: string
  db_Meta :: "string \<times> bool"

definition dec_rangeWindow :: "rangeWindow decoder" where
  "dec_rangeWindow = dec_struct False
     [field ''offset'' dec_int64 rw_Offset rw_Offset_update,
      field ''length'' dec_int64 rw_Length rw_Length_update]"

definition dec_downloadBody :: "downloadBody decoder" where
  "dec_downloadBody = dec_struct False
     [field ''filesystem_id'' dec_string db_FilesystemID db_FilesystemID_update,
      field ''uuid'' dec_string db_UUID db_UUID_update,
      field ''range'' (dec_ptr dec_rangeWindow \<lparr>rw_Offset = 0, rw_Length = 0\<rparr>) db_Range db_Range_update,
      field ''authorization_metadata'' dec_authorizationMetadata db_Meta db_Meta_update]"

definition zero_downloadBody :: downloadBody where
  "zero_downloadBody = \<lparr>db_UUID = [], db_Range = None, db_FilesystemID = [], db_Meta = ([], False)\<rparr>"

definition maxUploadBytes :: nat where
  "maxUploadBytes = 1073741824"

text \<open>\<^verbatim>\<open>FormValue\<close> and \<^verbatim>\<open>FormFile\<close>: the first part of the name.\<close>

fun form_value :: "string \<Rightarrow> form_part list \<Rightarrow> bytes" where
  "form_value k [] = []"
| "form_value k (FormValuePart n b # ps) = (if n = k then b else form_value k ps)"
| "form_value k (FormFilePart n fn b # ps) = form_value k ps"

fun form_file :: "string \<Rightarrow> form_part list \<Rightarrow> bytes option" where
  "form_file k [] = None"
| "form_file k (FormValuePart n b # ps) = form_file k ps"
| "form_file k (FormFilePart n fn b # ps) = (if n = k then Some b else form_file k ps)"

definition throttled :: "Server \<Rightarrow> bool \<times> Server" where
  "throttled s =
     (if s_throttleEvery s \<le> 0 then (False, s)
      else
        (let n = wrap64 (s_writeCount s + 1) in
         (n mod s_throttleEvery s = 0, s\<lparr>s_writeCount := n\<rparr>)))"

text \<open>The part of an upload behind all checks: write the file, and keep it only if its size is right.\<close>

definition store_upload ::
  "fsHost \<Rightarrow> nat \<Rightarrow> Scope \<Rightarrow> uploadParams \<Rightarrow> string list \<Rightarrow> bytes \<Rightarrow> vnode \<Rightarrow> reply \<times> vnode" where
  "store_upload h t scope params absp part v =
     (let os = fh_os h t in
      if \<not> up_OverwriteExisting params \<and> \<not> isl (os_Stat os absp v) then
        (httpjson_Error 409 ''destination exists'', v)
      else
        (case os_MkdirAll os (butlast absp) v of
           (Some e, v1) \<Rightarrow> (httpjson_Error 500 ''mkdir parent failed'', v1)
         | (None, v1) \<Rightarrow>
             (case os_Create os absp v1 of
                (Some e, v2) \<Rightarrow> (writeMetaError e, v2)
              | (None, v2) \<Rightarrow>
                  (let bs = take maxUploadBytes part in
                   case os_Write os absp bs v2 of
                     (Some e, v3) \<Rightarrow> (httpjson_Error 500 ''write failed'', v3)
                   | (None, v3) \<Rightarrow>
                       if os_fault os (ScClose absp) \<noteq> None then (httpjson_Error 500 ''close failed'', v3)
                       else if int (length bs) \<noteq> up_DeclaredSizeBytes params then
                         (httpjson_Error 422 ''streamed size does not match declared size'',
                          snd (os_Remove os absp v3))
                       else (file_reply h t scope (up_Path params) absp v3, v3)))))"

definition throttleRefusalStatus :: int where
  "throttleRefusalStatus = 418"

definition handleFileUpload ::
  "fsHost \<Rightarrow> nat \<Rightarrow> http_request \<Rightarrow> Server \<times> vnode \<Rightarrow> reply \<times> Server \<times> vnode" where
  "handleFileUpload h t r st =
     (case st of (s, v) \<Rightarrow>
        (case s_credentials s t (rq_Auth r) of
           Inl err \<Rightarrow> (httpjson_Error 401 ''missing or unknown credential'', s, v)
         | Inr subjectFSID \<Rightarrow>
             (case rq_Body r of
                MultipartBody ps \<Rightarrow>
                  (let rawParams = form_value ''params'' ps in
                   if rawParams = [] then (httpjson_Error 400 ''missing params field'', s, v)
                   else
                     (case unmarshal_into dec_uploadParams zero_uploadParams rawParams of
                        None \<Rightarrow> (httpjson_Error 400 ''malformed params field'', s, v)
                      | Some params \<Rightarrow>
                          (case authorize s opFileUpload subjectFSID (up_FilesystemID params) of
                             Inl (status, msg) \<Rightarrow> (httpjson_Error status msg, s, v)
                           | Inr scope \<Rightarrow>
                               (case chargePerOp h t (up_FilesystemID params) s of
                                  (False, s1) \<Rightarrow>
                                    (httpjson_Error throttleRefusalStatus
                                       ''per-op ceiling exceeded; back off and retry'', s1, v)
                                | (True, s1) \<Rightarrow>
                                    (case throttled s1 of
                                       (True, s2) \<Rightarrow>
                                         ((httpjson_Error 429 ''throttled; retry after backoff'')
                                            \<lparr>rp_RetryAfter := ''1''\<rparr>, s2, v)
                                     | (False, s2) \<Rightarrow>
                                         (case resolveUnder h (sc_Root scope) (up_Path params) of
                                            Inl err \<Rightarrow> (httpjson_Error 400 ''path escapes scope'', s2, v)
                                          | Inr absp \<Rightarrow>
                                              (case form_file ''file'' ps of
                                                 None \<Rightarrow> (httpjson_Error 400 ''missing file part'', s2, v)
                                               | Some part \<Rightarrow>
                                                   (case store_upload h t scope params (path_segs absp) part v of
                                                      (rp, v') \<Rightarrow> (rp, s2, v')))))))))
              | _ \<Rightarrow> (httpjson_Error 400 ''malformed multipart body'', s, v))))"

text \<open>The window of a download: where it starts and how long it is, or why it is refused.\<close>

definition download_window :: "rangeWindow option \<Rightarrow> int \<Rightarrow> string + int \<times> int" where
  "download_window rng sz =
     (case rng of
        None \<Rightarrow> Inr (0, sz)
      | Some rw \<Rightarrow>
          if rw_Offset rw < 0 \<or> rw_Length rw < 0 then Inl ''negative range''
          else
            (let start = (if rw_Offset rw > sz then sz else rw_Offset rw);
                 fin = wrap64 (start + rw_Length rw) in
             if fin < start then Inl ''range overflows''
             else Inr (start, (if fin > sz then sz else fin) - start)))"

text \<open>The bytes \<^verbatim>\<open>CopyN\<close> gets from the file; a read that fails ends them early.\<close>

definition read_window :: "hostos \<Rightarrow> string list \<Rightarrow> vnode \<Rightarrow> nat \<Rightarrow> nat \<Rightarrow> bytes" where
  "read_window os p nd start len =
     (case nd of
        VDir es \<Rightarrow> []
      | VFile b \<Rightarrow>
          (let w = take len (drop start b) in
           if os_fault os (ScRead p) = None then w else take (os_partial os p) w))"

definition handleFileDownload :: "fsHost \<Rightarrow> nat \<Rightarrow> Scope \<Rightarrow> commonBody \<Rightarrow> vnode \<Rightarrow> reply \<times> vnode" where
  "handleFileDownload h t scope body v =
     (let os = fh_os h t in
      case unmarshal_into dec_downloadBody zero_downloadBody (cb_raw body) of
        None \<Rightarrow> (httpjson_Error 400 ''malformed body'', v)
      | Some db \<Rightarrow>
          if db_UUID db = [] then (httpjson_Error 400 ''uuid is required'', v)
          else
            (case relPathForUUID h t scope (db_UUID db) v of
               None \<Rightarrow> (httpjson_Error 404 ''not found'', v)
             | Some rel \<Rightarrow>
                 (case resolveUnder h (sc_Root scope) rel of
                    Inl err \<Rightarrow> (httpjson_Error 400 ''path escapes scope'', v)
                  | Inr absPath \<Rightarrow>
                      (let absp = path_segs absPath in
                       case os_Open os absp v of
                         Inl e \<Rightarrow> (writeMetaError e, v)
                       | Inr nd \<Rightarrow>
                           (case os_Stat os absp v of
                              Inl e \<Rightarrow> (writeMetaError e, v)
                            | Inr _ \<Rightarrow>
                                (case download_window (db_Range db) (node_size h t absp nd) of
                                   Inl msg \<Rightarrow> (httpjson_Error 400 msg, v)
                                 | Inr (start, len) \<Rightarrow>
                                     (case (if start > 0 then os_fault os (ScSeek absp) else None) of
                                        Some e \<Rightarrow> (writeMetaError e, v)
                                      | None \<Rightarrow>
                                          (\<lparr>rp_Status = 200, rp_RetryAfter = [], rp_Length = Some len,
                                            rp_Body = read_window os absp nd (nat start) (nat len)\<rparr>, v))))))))"

subsection \<open>Dispatch (filestore.go)\<close>

definition dispatch :: "fsHost \<Rightarrow> nat \<Rightarrow> string \<Rightarrow> Scope \<Rightarrow> commonBody \<Rightarrow> vnode \<Rightarrow> reply \<times> vnode" where
  "dispatch h t opName scope body v =
     (if opName = opCreateFile then handleCreateFile h t scope body v
      else if opName = opReadFile then handleReadFile h t scope body v
      else if opName = opReadMetadata then handleReadMetadata h t scope body v
      else if opName = opListDirectory then handleListDirectory h t scope body v
      else if opName = opCopyFile then handleCopyFile h t scope body v
      else if opName = opMoveFile then handleMoveFile h t scope body v
      else if opName = opRemoveFile then handleRemoveFile h t scope body v
      else if opName = opMakeDirectory then handleMakeDirectory h t scope body v
      else if opName = opMoveDirectory then handleMoveDirectory h t scope body v
      else if opName = opRemoveDirectory then handleRemoveDirectory h t scope body v
      else if opName = opFileDownload then handleFileDownload h t scope body v
      else (httpjson_Error 404 ''unimplemented operation'', v))"

definition route :: "fsHost \<Rightarrow> nat \<Rightarrow> http_request \<Rightarrow> Server \<times> vnode \<Rightarrow> reply \<times> Server \<times> vnode" where
  "route h t r st =
     (case st of (s, v) \<Rightarrow>
        if rq_Method r \<noteq> ''POST'' then (httpjson_Error 405 ''only POST is supported'', s, v)
        else
          (let opName = TrimPrefix (rq_Path r) fsRestBase in
           if opName = opFileUpload then handleFileUpload h t r (s, v)
           else
             (case s_credentials s t (rq_Auth r) of
                Inl err \<Rightarrow> (httpjson_Error 401 ''missing or unknown credential'', s, v)
              | Inr subjectFSID \<Rightarrow>
                  (case decodeCommon (rq_Body r) of
                     None \<Rightarrow> (httpjson_Error 400 ''malformed request body'', s, v)
                   | Some body \<Rightarrow>
                       (case authorize s opName subjectFSID (cb_FilesystemID body) of
                          Inl (status, msg) \<Rightarrow> (httpjson_Error status msg, s, v)
                        | Inr scope \<Rightarrow>
                            (case chargePerOp h t (cb_FilesystemID body) s of
                               (False, s1) \<Rightarrow>
                                 (httpjson_Error throttleRefusalStatus
                                    ''per-op ceiling exceeded; back off and retry'', s1, v)
                             | (True, s1) \<Rightarrow>
                                 (case dispatch h t opName scope body v of (rp, v') \<Rightarrow> (rp, s1, v'))))))))"

end
