(* ===== verification/Filestore_Correct.thy ===== *)
theory Filestore_Correct
  imports Filestore
begin

text \<open>
  What the filestore peer promises: a path never leaves its scope, a request changes nothing without
  a credential for the scope it writes to, and what each operation does to the tree.
\<close>

subsection \<open>Paths stay under the root of the scope\<close>

text \<open>The working directory of a process is an absolute path.\<close>

definition cwd_rooted :: "fsHost \<Rightarrow> bool" where
  "cwd_rooted h \<longleftrightarrow> HasPrefix (fh_cwd h) ''/''"

definition rel_segs :: "string \<Rightarrow> string list" where
  "rel_segs rel = clean_segs True (split_slash (TrimPrefix rel ''/''))"

lemma rel_segs_good: "list_all good_seg (rel_segs rel)"
  by (simp add: rel_segs_def clean_segs_good split_slash_segments)

lemma Clean_rel: "Clean (slash # TrimPrefix rel ''/'') = slash_path (rel_segs rel)"
  by (simp add: Clean_rooted rel_segs_def)

lemma Clean_abs: "HasPrefix p ''/'' \<Longrightarrow> canonical (Clean p)"
  by (auto elim!: HasPrefixE)

lemma Join_cwd:
  assumes "HasPrefix c ''/''"
  shows "canonical (Join [c, p])"
proof -
  obtain c' where "c = slash # c'" using assms by (auto elim!: HasPrefixE)
  then show ?thesis by (cases "p = []") (simp_all add: Join_def)
qed

lemma Abs_canonical:
  assumes "cwd_rooted h" "filepath_Abs h p = Inr a"
  shows "canonical a" "path_segs a = host_dir h p"
proof -
  have "a = (if HasPrefix p ''/'' then Clean p else Join [fh_cwd h, p])"
    using assms(2) by (simp add: filepath_Abs_def split: if_splits option.splits)
  then show "canonical a" "path_segs a = host_dir h p"
    using assms(1) Clean_abs Join_cwd by (simp_all add: cwd_rooted_def host_dir_def)
qed

lemma host_dir_good:
  assumes "cwd_rooted h"
  shows "list_all good_seg (host_dir h p)"
proof -
  have "canonical (if HasPrefix p ''/'' then Clean p else Join [fh_cwd h, p])"
    using assms Clean_abs Join_cwd by (simp add: cwd_rooted_def)
  then show ?thesis unfolding host_dir_def by (elim canonicalE) simp
qed

text \<open>Whatever path a request names, the file it resolves to is under the root.\<close>

lemma resolveUnder_under:
  assumes "cwd_rooted h" "resolveUnder h dir rel = Inr p"
  obtains us where "list_all good_seg us" "path_segs p = host_dir h dir @ us"
proof -
  obtain ra where ra: "filepath_Abs h dir = Inr ra"
    and p: "filepath_Abs h (Join [dir, slash_path (rel_segs rel)]) = Inr p"
    and under: "p = ra \<or> HasPrefix p (ra @ ''/'')"
    using assms(2) by (auto simp: resolveUnder_def Clean_rel Let_def split: sum.splits if_splits)
  obtain bs where bs: "list_all good_seg bs" "ra = slash_path bs" "path_segs ra = bs"
    using Abs_canonical[OF assms(1) ra] by (elim canonicalE) simp
  obtain ps where ps: "list_all good_seg ps" "p = slash_path ps" "path_segs p = ps"
    using Abs_canonical[OF assms(1) p] by (elim canonicalE) simp
  have dir: "host_dir h dir = bs" using Abs_canonical(2)[OF assms(1) ra] bs(3) by simp
  have "\<exists>us. ps = bs @ us"
  proof (cases "p = ra")
    case True
    then show ?thesis using ps(3) bs(3) by (intro exI[of _ "[]"]) simp
  next
    case False
    with under have "HasPrefix (slash_path ps) (slash_path bs @ ''/'')" using ps(2) bs(2) by simp
    moreover from this have "bs \<noteq> []" using HasPrefix_root_child[OF ps(1)] by (auto simp: slash_path_def)
    ultimately show ?thesis using HasPrefix_child_iff[OF bs(1) ps(1)] by blast
  qed
  then obtain us where "ps = bs @ us" ..
  then show thesis using that[of us] ps dir by simp
qed

text \<open>Under a root other than the root directory, every path of a request resolves.\<close>

lemma Join_slash_paths:
  assumes "list_all good_seg bs" "list_all good_seg us" "bs \<noteq> []"
  shows "Join [slash_path bs, slash_path us] = slash_path (bs @ us)"
proof -
  have sp: "split_slash (join_slash bs @ slash # s) = bs @ split_slash s" for s
    using assms(1,3)
  proof (induction bs rule: join_slash.induct)
    case (3 a b cs)
    then show ?case using split_slash_append[of a "join_slash (b # cs) @ slash # s"] by (simp add: good_seg_def)
  qed (simp_all add: split_slash_append good_seg_def)
  have "split_slash (join_slash bs @ slash # slash # join_slash us) = bs @ [] # split_slash (join_slash us)"
    by (simp add: sp)
  moreover have "clean_segs True (bs @ [] # split_slash (join_slash us)) = bs @ us"
  proof (cases "us = []")
    case True
    then show ?thesis using foldl_clean_step_keep[OF assms(1)] by (simp add: clean_segs_def clean_step_def)
  next
    case False
    then have "split_slash (join_slash us) = us" using assms(2) by (simp add: split_join_slash good_seg_no_slash)
    then show ?thesis
      using foldl_clean_step_keep[OF assms(1), of True "[]"] foldl_clean_step_keep[OF assms(2), of True "rev bs"]
      by (simp add: clean_segs_def clean_step_def)
  qed
  ultimately show ?thesis by (simp add: Join_def slash_path_def Clean_rooted)
qed

lemma resolveUnder_ok:
  assumes "list_all good_seg bs" "bs \<noteq> []"
  shows "resolveUnder h (slash_path bs) rel = Inr (slash_path (bs @ rel_segs rel))"
proof -
  have abs: "filepath_Abs h (slash_path ss) = Inr (slash_path ss)" if "list_all good_seg ss" for ss
    using that by (simp add: filepath_Abs_def) (simp add: slash_path_def HasPrefix_def)
  have "rel_segs rel \<noteq> [] \<Longrightarrow> HasPrefix (slash_path (bs @ rel_segs rel)) (slash_path bs @ ''/'')"
    using HasPrefix_child_iff[of bs "bs @ rel_segs rel"] assms rel_segs_good by simp
  then show ?thesis
    using assms rel_segs_good abs[of bs] abs[of "bs @ rel_segs rel"]
    by (cases "rel_segs rel = []") (auto simp: resolveUnder_def Clean_rel Let_def Join_slash_paths)
qed

text \<open>A scope at the root directory resolves nothing but its root.\<close>

lemma resolveUnder_root:
  assumes "resolveUnder h ''/'' rel = Inr p"
  shows "rel_segs rel = []" "p = ''/''"
proof -
  let ?us = "rel_segs rel"
  have "Join [''/'', slash_path ?us] = slash_path (clean_segs True (split_slash (join_slash ?us)))"
    by (simp add: Join_def slash_path_def Clean_rooted clean_segs_skip_Nil)
  also have "\<dots> = slash_path ?us"
    using Clean_slash_path[OF rel_segs_good, of rel] by (simp add: slash_path_def Clean_rooted)
  finally have j: "Join [''/'', slash_path ?us] = slash_path ?us" .
  have abs: "filepath_Abs h (slash_path ss) = Inr (slash_path ss)" if "list_all good_seg ss" for ss
    using that by (simp add: filepath_Abs_def) (simp add: slash_path_def HasPrefix_def)
  have "p = slash_path ?us" "p = ''/'' \<or> HasPrefix p ''//''"
    using assms j abs[OF rel_segs_good, of rel] abs[of "[]"]
    by (auto simp: resolveUnder_def Clean_rel Let_def slash_path_def split: if_splits)
  then show "p = ''/''" "?us = []"
    using HasPrefix_root_child[OF rel_segs_good] join_slash_ne[OF rel_segs_good] by (auto simp: slash_path_def)
qed

subsection \<open>What a request may do to the tree\<close>

lemma handleFileDownload_keeps: "handleFileDownload h t scope body v = (rp, v') \<Longrightarrow> v' = v"
  by (auto simp: handleFileDownload_def Let_def split: option.splits if_splits sum.splits prod.splits)

text \<open>
  A relation between the tree before and after that every system call below a directory respects;
  the handlers respect it as well.
\<close>

locale tree_relation =
  fixes R :: "string list \<Rightarrow> vnode \<Rightarrow> vnode \<Rightarrow> bool"
  assumes refl: "R b v v"
    and trans: "R b v v1 \<Longrightarrow> R b v1 v2 \<Longrightarrow> R b v v2"
    and mkdirs: "mkdirs (b @ us) v = Inr v' \<Longrightarrow> R b v v'"
    and mkdirs_parent: "mkdirs (butlast b) v = Inr v' \<Longrightarrow> R b v v'"
    and create: "create_file (b @ us) v = Inr v' \<Longrightarrow> R b v v'"
    and overwrite: "R b v (write_bytes (b @ us) bs v)"
    and remove: "remove_node (b @ us) v = Inr v' \<Longrightarrow> R b v v'"
    and remove_all: "remove_tree (b @ us) v = (e, v') \<Longrightarrow> R b v v'"
    and rename: "rename_node (b @ us) (b @ ws) v = Inr v' \<Longrightarrow> R b v v'"
begin

lemma mkdirs_butlast: "mkdirs (butlast (b @ us)) v = Inr v' \<Longrightarrow> R b v v'"
  using mkdirs[of b "butlast us"] mkdirs_parent[of b] by (cases "us = []") (simp_all add: butlast_append)

lemma os_change_R:
  assumes "os_change os c f v = (e, v')" "\<And>v'. f v = Inr v' \<Longrightarrow> R b v v'"
  shows "R b v v'"
  using assms refl by (auto simp: os_change_def os_query_def split: option.splits sum.splits)

lemma os_calls_R:
  "os_MkdirAll os (b @ us) v = (e, v') \<Longrightarrow> R b v v'"
  "os_MkdirAll os (butlast (b @ us)) v = (e, v') \<Longrightarrow> R b v v'"
  "os_Create os (b @ us) v = (e, v') \<Longrightarrow> R b v v'"
  "os_Remove os (b @ us) v = (e, v') \<Longrightarrow> R b v v'"
  "os_Rename os (b @ us) (b @ ws) v = (e, v') \<Longrightarrow> R b v v'"
  "os_RemoveAll os (b @ us) v = (e, v') \<Longrightarrow> R b v v'"
  "os_Write os (b @ us) bs v = (e, v') \<Longrightarrow> R b v v'"
proof -
  show "os_MkdirAll os (b @ us) v = (e, v') \<Longrightarrow> R b v v'"
    unfolding os_MkdirAll_def by (erule os_change_R) (rule mkdirs)
  show "os_MkdirAll os (butlast (b @ us)) v = (e, v') \<Longrightarrow> R b v v'"
    unfolding os_MkdirAll_def by (erule os_change_R) (rule mkdirs_butlast)
  show "os_Create os (b @ us) v = (e, v') \<Longrightarrow> R b v v'"
    unfolding os_Create_def by (erule os_change_R) (rule create)
  show "os_Remove os (b @ us) v = (e, v') \<Longrightarrow> R b v v'"
    unfolding os_Remove_def by (erule os_change_R) (rule remove)
  show "os_Rename os (b @ us) (b @ ws) v = (e, v') \<Longrightarrow> R b v v'"
    unfolding os_Rename_def by (erule os_change_R) (rule rename)
  show "os_RemoveAll os (b @ us) v = (e, v') \<Longrightarrow> R b v v'"
    using refl remove_all by (auto simp: os_RemoveAll_def split: option.splits)
  show "os_Write os (b @ us) bs v = (e, v') \<Longrightarrow> R b v v'"
    using overwrite by (auto simp: os_Write_def split: option.splits)
qed

lemma ack_R: "ack_reply r = (rp, v') \<Longrightarrow> (\<And>e w. r = (e, w) \<Longrightarrow> R b v w) \<Longrightarrow> R b v v'"
  by (auto simp: ack_reply_def split: prod.splits option.splits)

lemma copy_R:
  assumes "copyFileContents os (b @ us) (b @ ws) v = (e, v')"
  shows "R b v v'"
proof -
  obtain e1 v1 where c: "os_Create os (b @ ws) v = (e1, v1)" by fastforce
  show ?thesis
    using assms os_calls_R(3)[OF c] refl trans[OF os_calls_R(3)[OF c] os_calls_R(7)]
    by (auto simp: copyFileContents_def c split: sum.splits option.splits vnode.splits prod.splits)
qed

lemma with_path_R:
  assumes "cwd_rooted h" "with_path h scope body v k = (rp, v')"
    and "\<And>rel us. k rel (host_dir h (sc_Root scope) @ us) = (rp, v') \<Longrightarrow> R (host_dir h (sc_Root scope)) v v'"
  shows "R (host_dir h (sc_Root scope)) v v'"
proof (cases "\<exists>rel p. pathFromBody body = Some rel \<and> resolveUnder h (sc_Root scope) rel = Inr p")
  case True
  then obtain rel p where rp: "pathFromBody body = Some rel" "resolveUnder h (sc_Root scope) rel = Inr p" by blast
  obtain us where "path_segs p = host_dir h (sc_Root scope) @ us"
    using resolveUnder_under[OF assms(1) rp(2)] by blast
  then show ?thesis using assms(2,3) rp by (simp add: with_path_def)
next
  case False
  then show ?thesis using assms(2) refl by (auto simp: with_path_def split: option.splits sum.splits)
qed

lemma src_dst_R:
  assumes "cwd_rooted h" "applySrcDstOp h t scope body f v = (rp, v')"
    and "\<And>us ws w e w'. f (host_dir h (sc_Root scope) @ us) (host_dir h (sc_Root scope) @ ws) w = (e, w') \<Longrightarrow>
           R (host_dir h (sc_Root scope)) w w'"
  shows "R (host_dir h (sc_Root scope)) v v'"
proof (cases "\<exists>sd p q. srcDstFromBody body = Some sd \<and> resolveSrcDst h scope sd = Inr (p, q)")
  case True
  then obtain sd p q where sd: "srcDstFromBody body = Some sd" "resolveSrcDst h scope sd = Inr (p, q)" by blast
  then have "resolveUnder h (sc_Root scope) (sd_Source sd) = Inr p"
    "resolveUnder h (sc_Root scope) (sd_Destination sd) = Inr q"
    by (auto simp: resolveSrcDst_def split: sum.splits)
  then obtain us ws where pq: "path_segs p = host_dir h (sc_Root scope) @ us" "path_segs q = host_dir h (sc_Root scope) @ ws"
    using resolveUnder_under[OF assms(1)] by metis
  obtain e v1 where mk: "os_MkdirAll (fh_os h t) (butlast (host_dir h (sc_Root scope) @ ws)) v = (e, v1)" by fastforce
  note step = os_calls_R(2)[OF mk]
  show ?thesis
    using assms(2) refl step ack_R[OF _ trans[OF step assms(3)]]
    by (auto simp: applySrcDstOp_def sd pq mk Let_def split: if_splits option.splits)
next
  case False
  then show ?thesis using assms(2) refl by (auto simp: applySrcDstOp_def split: option.splits sum.splits)
qed

lemma create_R:
  assumes "cwd_rooted h" "handleCreateFile h t scope body v = (rp, v')"
  shows "R (host_dir h (sc_Root scope)) v v'"
  using assms unfolding handleCreateFile_def
proof (rule with_path_R)
  fix rel us
  let ?p = "host_dir h (sc_Root scope) @ us"
  obtain e v1 where mk: "os_MkdirAll (fh_os h t) (butlast ?p) v = (e, v1)" by fastforce
  obtain e2 v2 where cr: "os_Create (fh_os h t) ?p v1 = (e2, v2)" by fastforce
  assume "(case os_MkdirAll (fh_os h t) (butlast ?p) v of
      (Some e, v1) \<Rightarrow> (httpjson_Error 500 (''mkdir parent failed: '' @ fh_error h t (butlast ?p) e), v1)
    | (None, v1) \<Rightarrow>
        (case os_Create (fh_os h t) ?p v1 of
           (Some e, v2) \<Rightarrow> (writeMetaError e, v2)
         | (None, v2) \<Rightarrow> (file_reply h t scope rel ?p v2, v2))) = (rp, v')"
  then show "R (host_dir h (sc_Root scope)) v v'"
    using os_calls_R(2)[OF mk] trans[OF os_calls_R(2)[OF mk] os_calls_R(3)[OF cr]]
    by (auto simp: mk cr split: option.splits)
qed

lemma dispatch_R:
  assumes "cwd_rooted h" "dispatch h t opName scope body v = (rp, v')"
  shows "R (host_dir h (sc_Root scope)) v v'"
proof -
  let ?b = "host_dir h (sc_Root scope)"
  have read: "R ?b v v'" if "with_path h scope body v (\<lambda>rel p. (g rel p, v)) = (rp, v')" for g
    using with_path_R[OF assms(1) that] refl by simp
  have ack: "R ?b v v'" if "with_path h scope body v (\<lambda>rel p. ack_reply (g p v)) = (rp, v')"
    and "\<And>us e w. g (?b @ us) v = (e, w) \<Longrightarrow> R ?b v w" for g
    using with_path_R[OF assms(1) that(1)] ack_R that(2) by blast
  have ReadFile: "handleReadFile h t scope body v = (rp, v') \<Longrightarrow> R ?b v v'"
    unfolding handleReadFile_def by (erule read)
  have ReadMetadata: "handleReadMetadata h t scope body v = (rp, v') \<Longrightarrow> R ?b v v'"
    unfolding handleReadMetadata_def by (erule read)
  have ListDirectory: "handleListDirectory h t scope body v = (rp, v') \<Longrightarrow> R ?b v v'"
    unfolding handleListDirectory_def by (erule read)
  have MakeDirectory: "handleMakeDirectory h t scope body v = (rp, v') \<Longrightarrow> R ?b v v'"
    unfolding handleMakeDirectory_def by (erule ack[OF _ os_calls_R(1)])
  have RemoveDirectory: "handleRemoveDirectory h t scope body v = (rp, v') \<Longrightarrow> R ?b v v'"
    unfolding handleRemoveDirectory_def by (erule ack[OF _ os_calls_R(6)])
  have RemoveFile: "handleRemoveFile h t scope body v = (rp, v') \<Longrightarrow> R ?b v v'"
    unfolding handleRemoveFile_def by (erule ack[OF _ os_calls_R(4)])
  have CopyFile: "handleCopyFile h t scope body v = (rp, v') \<Longrightarrow> R ?b v v'"
    unfolding handleCopyFile_def by (erule src_dst_R[OF assms(1) _ copy_R])
  have MoveFile: "handleMoveFile h t scope body v = (rp, v') \<Longrightarrow> R ?b v v'"
    unfolding handleMoveFile_def by (erule src_dst_R[OF assms(1) _ os_calls_R(5)])
  have MoveDirectory: "handleMoveDirectory h t scope body v = (rp, v') \<Longrightarrow> R ?b v v'"
    unfolding handleMoveDirectory_def by (erule src_dst_R[OF assms(1) _ os_calls_R(5)])
  have FileDownload: "handleFileDownload h t scope body v = (rp, v') \<Longrightarrow> R ?b v v'"
    using handleFileDownload_keeps refl by blast
  show ?thesis
    using assms(2) ReadFile ReadMetadata ListDirectory MakeDirectory RemoveDirectory RemoveFile CopyFile MoveFile
      MoveDirectory FileDownload create_R[OF assms(1)] refl
    unfolding dispatch_def by (simp split: if_splits)
qed

lemma store_upload_R:
  assumes "store_upload h t scope params (b @ us) part v = (rp, v')"
  shows "R b v v'"
proof -
  let ?os = "fh_os h t" and ?bs = "take maxUploadBytes part"
  obtain e1 v1 where mk: "os_MkdirAll ?os (butlast (b @ us)) v = (e1, v1)" by fastforce
  obtain e2 v2 where cr: "os_Create ?os (b @ us) v1 = (e2, v2)" by fastforce
  obtain e3 v3 where wr: "os_Write ?os (b @ us) ?bs v2 = (e3, v3)" by fastforce
  obtain e4 v4 where rm: "os_Remove ?os (b @ us) v3 = (e4, v4)" by fastforce
  note r1 = os_calls_R(2)[OF mk]
  note r2 = trans[OF r1 os_calls_R(3)[OF cr]]
  note r3 = trans[OF r2 os_calls_R(7)[OF wr]]
  note r4 = trans[OF r3 os_calls_R(4)[OF rm]]
  show ?thesis
    using assms refl r1 r2 r3 r4
    by (auto simp: store_upload_def Let_def mk cr wr rm split: if_splits option.splits)
qed

end

lemma authorize_ok:
  "authorize s opName subj req = Inr scope \<longleftrightarrow>
     req \<noteq> [] \<and> subj = req \<and> s_scopes s req = Some scope \<and> \<not> (sc_ReadOnly scope \<and> opName \<in> set writeIntentOps)"
  by (auto simp: authorize_def split: option.splits)

lemma with_path_keeps: "with_path h scope body v (\<lambda>rel p. (g rel p, v)) = (rp, v') \<Longrightarrow> v' = v"
  by (auto simp: with_path_def split: option.splits sum.splits)

text \<open>An operation without write intent leaves the tree alone.\<close>

lemma dispatch_read_keeps:
  assumes "dispatch h t opName scope body v = (rp, v')" "opName \<notin> set writeIntentOps"
  shows "v' = v"
  using assms with_path_keeps[of h scope body v _ rp v'] handleFileDownload_keeps[of h t scope body v rp v']
  by (auto simp: dispatch_def writeIntentOps_def handleReadFile_def handleReadMetadata_def handleListDirectory_def
      split: if_splits)

lemma Error_status [simp]: "rp_Status (httpjson_Error n m) = n" "rp_Status (httpjson_OK j) = 200"
  by (simp_all add: httpjson_Error_def httpjson_OK_def json_reply_def)

lemma authorize_refused: "authorize s opName subj req = Inl (status, msg) \<Longrightarrow> status \<noteq> 200"
  by (auto simp: authorize_def split: if_splits option.splits)

lemma authorize_same: "authorize s opName subj req = Inr scope \<Longrightarrow> req = subj"
  by (simp add: authorize_ok)

text \<open>
  The outcome of a request: what a handler returned for a request that was authenticated, authorised
  and admitted, or a refusal that touches nothing.
\<close>

lemma upload_outcome:
  assumes "handleFileUpload h t r (s, v) = (rp, s', v')"
  obtains (refused) "v' = v" "rp_Status rp \<noteq> 200"
  | (upload) fsid scope ps params part p s1 where
      "s_credentials s t (rq_Auth r) = Inr fsid" "rq_Body r = MultipartBody ps"
      "unmarshal_into dec_uploadParams zero_uploadParams (form_value ''params'' ps) = Some params"
      "authorize s opFileUpload fsid (up_FilesystemID params) = Inr scope"
      "chargePerOp h t (up_FilesystemID params) s = (True, s1)" "throttled s1 = (False, s')"
      "resolveUnder h (sc_Root scope) (up_Path params) = Inr p" "form_file ''file'' ps = Some part"
      "store_upload h t scope params (path_segs p) part v = (rp, v')"
proof -
  note cases = refused upload
  show thesis
    using assms cases
    by (auto dest!: authorize_refused simp: handleFileUpload_def Let_def throttleRefusalStatus_def
        split: sum.splits rq_body.splits if_splits option.splits prod.splits bool.splits)
qed

lemma route_outcome:
  assumes "route h t r (s, v) = (rp, s', v')"
  obtains (refused) "v' = v" "rp_Status rp \<noteq> 200"
  | (op) fsid scope body opName where
      "rq_Method r = ''POST''" "opName = TrimPrefix (rq_Path r) fsRestBase" "opName \<noteq> opFileUpload"
      "s_credentials s t (rq_Auth r) = Inr fsid" "decodeCommon (rq_Body r) = Some body"
      "cb_FilesystemID body = fsid" "authorize s opName fsid fsid = Inr scope"
      "chargePerOp h t fsid s = (True, s')" "dispatch h t opName scope body v = (rp, v')"
  | (upload) fsid scope ps params part p s1 where
      "rq_Method r = ''POST''" "TrimPrefix (rq_Path r) fsRestBase = opFileUpload"
      "s_credentials s t (rq_Auth r) = Inr fsid" "rq_Body r = MultipartBody ps"
      "unmarshal_into dec_uploadParams zero_uploadParams (form_value ''params'' ps) = Some params"
      "up_FilesystemID params = fsid" "authorize s opFileUpload fsid fsid = Inr scope"
      "chargePerOp h t fsid s = (True, s1)" "throttled s1 = (False, s')"
      "resolveUnder h (sc_Root scope) (up_Path params) = Inr p" "form_file ''file'' ps = Some part"
      "store_upload h t scope params (path_segs p) part v = (rp, v')"
proof (cases "rq_Method r = ''POST''")
  case post: True
  show thesis
  proof (cases "TrimPrefix (rq_Path r) fsRestBase = opFileUpload")
    case True
    with assms post have up: "handleFileUpload h t r (s, v) = (rp, s', v')" by (simp add: route_def)
    then show thesis
    proof (cases rule: upload_outcome)
      case refused
      then show thesis by (rule that(1))
    next
      case (upload fsid scope ps params part p s1)
      moreover have "up_FilesystemID params = fsid" using upload(4) by (rule authorize_same)
      ultimately show thesis using that(3) post True by simp
    qed
  next
    case False
    let ?op = "TrimPrefix (rq_Path r) fsRestBase"
    have op': thesis
      if "s_credentials s t (rq_Auth r) = Inr fsid" "decodeCommon (rq_Body r) = Some body"
        "authorize s ?op fsid (cb_FilesystemID body) = Inr scope"
        "chargePerOp h t (cb_FilesystemID body) s = (True, s')" "dispatch h t ?op scope body v = (rp, v')"
      for fsid body scope
      using that op[of ?op fsid body scope] authorize_same[OF that(3)] post False by simp
    show thesis
      using assms post False refused op'
      by (auto dest!: authorize_refused simp: route_def Let_def throttleRefusalStatus_def split: sum.splits option.splits prod.splits bool.splits)
  qed
qed (use assms refused in \<open>auto simp: route_def\<close>)

subsection \<open>Confinement\<close>

text \<open>
  Outside the directory nothing changes, except that missing directories on the way to it may be made.
\<close>

definition confined :: "string list \<Rightarrow> vnode \<Rightarrow> vnode \<Rightarrow> bool" where
  "confined b v v' \<longleftrightarrow>
     (\<forall>q. \<not> prefix b q \<longrightarrow>
        view v' q = view v q \<or> prefix q b \<and> view v q = None \<and> view v' q = Some IDir)"

lemma mkdirs_no_file:
  assumes "mkdirs p v = Inr v'" "prefix q p"
  shows "view v q = None \<or> view v q = Some IDir"
  using assms
proof (induction p v arbitrary: v' q rule: mkdirs.induct)
  case (3 s ss es)
  show ?case
  proof (cases q)
    case (Cons a q')
    then have q: "a = s" "prefix q' ss" using "3.prems"(2) by simp_all
    obtain w where "mkdirs ss (case map_of es s of None \<Rightarrow> VDir [] | Some v \<Rightarrow> v) = Inr w"
      using "3.prems"(1) by (auto simp: map_sum_def split: sum.splits)
    then show ?thesis using "3.IH" q Cons by (cases "map_of es s") auto
  qed simp
qed auto

lemma confined_mkdirs:
  assumes "mkdirs p v = Inr v'" "prefix b p \<or> prefix p b"
  shows "confined b v v'"
  unfolding confined_def
proof (intro allI impI)
  fix q assume q: "\<not> prefix b q"
  show "view v' q = view v q \<or> prefix q b \<and> view v q = None \<and> view v' q = Some IDir"
  proof (cases "prefix q p")
    case True
    then have "prefix q b" using assms(2) q prefix_order.trans by (metis prefix_same_cases)
    then show ?thesis using mkdirs_no_file[OF assms(1) True] mkdirs_view[OF assms(1), of q] True by auto
  qed (simp add: mkdirs_view[OF assms(1)])
qed

lemma confined_keep: "(\<And>q. \<not> prefix b q \<Longrightarrow> view v' q = view v q) \<Longrightarrow> confined b v v'"
  by (simp add: confined_def)

lemma confined_trans: "confined b v v1 \<Longrightarrow> confined b v1 v2 \<Longrightarrow> confined b v v2"
  unfolding confined_def by metis

lemma write_bytes_outside:
  assumes "\<not> prefix p q"
  shows "view (write_bytes p bs v) q = view v q"
proof -
  let ?f = "\<lambda>n. case n of VFile _ \<Rightarrow> Inr (VFile bs) | VDir _ \<Rightarrow> Inl EISDIR"
  show ?thesis
  proof (cases "vmodify p ?f v")
    case (Inr v')
    then obtain d d' where "\<forall>q. view v' q = (if prefix p q then view d' (drop (length p) q) else view v q)"
      by (rule vmodify_view)
    then show ?thesis using assms Inr by (simp add: write_bytes_def)
  qed (simp add: write_bytes_def)
qed

lemma remove_tree_outside:
  assumes "remove_tree p v = (e, v')" "\<not> prefix p q"
  shows "view v' q = view v q"
proof (cases "vmodify (butlast p) (in_dir (\<lambda>es. Inr (del_entry (last p) es))) v")
  case (Inr w)
  then show ?thesis using assms del_view(2)[OF Inr] by (auto simp: remove_tree_def split: if_splits)
qed (use assms in \<open>auto simp: remove_tree_def split: if_splits\<close>)

lemma rename_same: "rename_node p p v = Inr v' \<Longrightarrow> v' = v"
  by (auto simp: rename_node_def split: sum.splits vnode.splits)

interpretation conf: tree_relation confined
proof
  fix b us ws :: "string list" and v v1 v2 v' :: vnode and bs e
  have out: "\<not> prefix b q \<Longrightarrow> q \<noteq> b @ us" "\<not> prefix b q \<Longrightarrow> \<not> prefix (b @ us) q" for q us
    by (auto simp: prefix_def)
  show "confined b v v" by (rule confined_keep) simp
  show "confined b v v1 \<Longrightarrow> confined b v1 v2 \<Longrightarrow> confined b v v2" by (rule confined_trans)
  show "mkdirs (b @ us) v = Inr v' \<Longrightarrow> confined b v v'" by (erule confined_mkdirs) simp
  show "mkdirs (butlast b) v = Inr v' \<Longrightarrow> confined b v v'"
    by (erule confined_mkdirs) (simp add: prefixeq_butlast)
  show "create_file (b @ us) v = Inr v' \<Longrightarrow> confined b v v'"
    using create_file_view(1)[of "b @ us" v v'] out by (auto intro: confined_keep)
  show "confined b v (write_bytes (b @ us) bs v)"
    by (rule confined_keep) (simp add: write_bytes_outside out)
  show "remove_node (b @ us) v = Inr v' \<Longrightarrow> confined b v v'"
    using remove_node_view(1)[of "b @ us" v v'] out by (auto intro: confined_keep)
  show "remove_tree (b @ us) v = (e, v') \<Longrightarrow> confined b v v'"
    by (rule confined_keep) (simp add: remove_tree_outside out)
  show "rename_node (b @ us) (b @ ws) v = Inr v' \<Longrightarrow> confined b v v'"
    using rename_node_view(1)[of "b @ us" "b @ ws" v v'] rename_same[of "b @ us" v v'] out
    by (cases "us = ws") (auto intro: confined_keep)
qed

interpretation wf: tree_relation "\<lambda>b v v'. vwf v \<longrightarrow> vwf v'"
  by unfold_locales (auto intro: vwf_mkdirs vwf_calls)

text \<open>What a request changes, it changes with the credential of a writable scope, and below its root.\<close>

lemma route_tree:
  assumes "cwd_rooted h" "route h t r (s, v) = (rp, s', v')" "v' \<noteq> v"
  obtains fsid scope where "s_credentials s t (rq_Auth r) = Inr fsid" "s_scopes s fsid = Some scope"
    "\<not> sc_ReadOnly scope" "confined (host_dir h (sc_Root scope)) v v'" "vwf v \<longrightarrow> vwf v'"
  using assms(2)
proof (cases rule: route_outcome)
  case (op fsid scope body opName)
  have "opName \<in> set writeIntentOps" using dispatch_read_keeps[OF op(9)] assms(3) by blast
  then show thesis
    using that[of fsid scope] op(4,7) conf.dispatch_R[OF assms(1) op(9)] wf.dispatch_R[OF assms(1) op(9)]
    by (auto simp: authorize_ok)
next
  case (upload fsid scope ps params part p s1)
  obtain us where p: "path_segs p = host_dir h (sc_Root scope) @ us"
    using resolveUnder_under[OF assms(1) upload(10)] by blast
  have "opFileUpload \<in> set writeIntentOps" by (simp add: writeIntentOps_def)
  then show thesis
    using that[of fsid scope] upload(3,7) conf.store_upload_R wf.store_upload_R upload(12) p
    by (auto simp: authorize_ok)
qed (use assms(3) in simp)

end
