(* ===== verification/FilestoreWire.thy ===== *)
theory FilestoreWire
  imports Filestore_Correct BrokerClient
begin

text \<open>
  The guest client and the filestore peer are two ends of one wire, with message types of their own.
  This theory shows that they agree: the peer decodes what the client marshals, and the client
  decodes what the peer writes.
\<close>

subsection \<open>Member names\<close>

named_theorems fold_names

lemma fold_name_literals [fold_names]:
  "fold_name ''filesystem_id'' = ''filesystem_id''" "fold_name ''path'' = ''path''"
  "fold_name ''authorization_metadata'' = ''authorization_metadata''" "fold_name ''cursor'' = ''cursor''"
  "fold_name ''source'' = ''source''" "fold_name ''destination'' = ''destination''"
  "fold_name ''overwrite_existing'' = ''overwrite_existing''"
  "fold_name ''declared_size_bytes'' = ''declared_size_bytes''" "fold_name ''uuid'' = ''uuid''"
  "fold_name ''range'' = ''range''" "fold_name ''offset'' = ''offset''" "fold_name ''length'' = ''length''"
  "fold_name ''intent'' = ''intent''" "fold_name ''downloadable'' = ''downloadable''"
  "fold_name ''file'' = ''file''" "fold_name ''directory'' = ''directory''" "fold_name ''entries'' = ''entries''"
  "fold_name ''size'' = ''size''" "fold_name ''mtime'' = ''mtime''" "fold_name ''mode'' = ''mode''"
  "fold_name ''sha'' = ''sha''" "fold_name ''mime'' = ''mime''" "fold_name ''error'' = ''error''"
  by code_simp+

declare fold_name.simps [simp del]

lemmas decode_simps = unmarshal_into_def dec_struct_def field_def dec_string_def dec_bool_def dec_int64_def
  dec_ptr_def fold_names

subsection \<open>Requests\<close>

text \<open>The path and the id of a request, in a form JSON text can carry.\<close>

lemma unmarshal_text: "json_ok j \<Longrightarrow> unmarshal_into d zero (json_text j) = d j zero"
  using json_roundtrip[of j "[]"] by (simp add: unmarshal_into_def)

lemma dec_authmeta:
  "dec_authorizationMetadata (json_AuthorizationMetadata am) old = Some (Intent am, Downloadable am)"
  by (simp add: dec_authorizationMetadata_def json_AuthorizationMetadata_def decode_simps)

text \<open>Every request of the client but the upload is decoded by the peer to the id of its scope.\<close>

lemma decodeCommon_marshal:
  assumes "json_ok (marshal req)" "length (json_text (marshal req)) \<le> maxRequestBytes"
    and "json_get ''filesystem_id'' (marshal req) = Some (JStr fs)"
  shows "decodeCommon (RawBody (json_text (marshal req))) =
     Some \<lparr>cb_FilesystemID = fs, cb_raw = json_text (marshal req)\<rparr>"
proof -
  have "dec_commonBody (marshal req) \<lparr>cf_FilesystemID = [], cf_Meta = ([], False)\<rparr> \<noteq> None \<and>
      cf_FilesystemID (the (dec_commonBody (marshal req) \<lparr>cf_FilesystemID = [], cf_Meta = ([], False)\<rparr>)) = fs"
    using assms(3) by (cases req) (auto simp: dec_commonBody_def decode_simps dec_authmeta split: option.splits)
  then show ?thesis
    using assms(2) by (auto simp: decodeCommon_def readAllLimited_def raw_bytes_def unmarshal_text[OF assms(1)])
qed

lemma pathFromBody_marshal:
  assumes "json_ok (marshal req)" "json_get ''path'' (marshal req) = Some (JStr p)"
  shows "pathFromBody \<lparr>cb_FilesystemID = fs, cb_raw = json_text (marshal req)\<rparr> = Some p"
proof -
  have "dec_struct False [field ''path'' dec_string id id] (marshal req) [] = Some p"
    using assms(2) by (cases req) (auto simp: decode_simps split: option.splits)
  then show ?thesis by (simp add: pathFromBody_def unmarshal_text[OF assms(1)])
qed

lemma srcDstFromBody_marshal:
  "json_ok (marshal (CopyFileRequest fs s d ov am)) \<Longrightarrow>
     srcDstFromBody \<lparr>cb_FilesystemID = fs, cb_raw = json_text (marshal (CopyFileRequest fs s d ov am))\<rparr> =
       Some \<lparr>sd_Source = s, sd_Destination = d, sd_OverwriteExisting = ov\<rparr>"
  "json_ok (marshal (MoveFileRequest fs s d ov am)) \<Longrightarrow>
     srcDstFromBody \<lparr>cb_FilesystemID = fs, cb_raw = json_text (marshal (MoveFileRequest fs s d ov am))\<rparr> =
       Some \<lparr>sd_Source = s, sd_Destination = d, sd_OverwriteExisting = ov\<rparr>"
  "json_ok (marshal (MoveDirectoryRequest fs s d am)) \<Longrightarrow>
     srcDstFromBody \<lparr>cb_FilesystemID = fs, cb_raw = json_text (marshal (MoveDirectoryRequest fs s d am))\<rparr> =
       Some \<lparr>sd_Source = s, sd_Destination = d, sd_OverwriteExisting = False\<rparr>"
  unfolding srcDstFromBody_def by (simp_all only: commonBody.simps unmarshal_text) (simp_all add: decode_simps)

lemma uploadParams_marshal:
  assumes "json_ok (marshal (FileUploadRequest fs p n ov am))" "is_int64 n"
  shows "unmarshal_into dec_uploadParams zero_uploadParams (json_text (marshal (FileUploadRequest fs p n ov am))) =
     Some \<lparr>up_FilesystemID = fs, up_Path = p, up_DeclaredSizeBytes = n, up_OverwriteExisting = ov,
           up_Meta = (Intent am, Downloadable am)\<rparr>"
  unfolding unmarshal_text[OF assms(1)] using assms(2)
  by (simp add: dec_uploadParams_def zero_uploadParams_def decode_simps dec_authmeta)

lemma downloadBody_marshal:
  assumes "json_ok (marshal (FileDownloadRequest fs uuid rng am))"
    and "\<And>r. rng = Some r \<Longrightarrow> is_int64 (Offset r) \<and> is_int64 (Length r)"
  shows "unmarshal_into dec_downloadBody zero_downloadBody (json_text (marshal (FileDownloadRequest fs uuid rng am))) =
     Some \<lparr>db_UUID = uuid,
           db_Range = map_option (\<lambda>r. \<lparr>rw_Offset = Offset r, rw_Length = Length r\<rparr>) rng,
           db_FilesystemID = fs, db_Meta = (Intent am, Downloadable am)\<rparr>"
  unfolding unmarshal_text[OF assms(1)] using assms(2)
  by (cases rng)
     (simp_all add: dec_downloadBody_def zero_downloadBody_def decode_simps dec_authmeta json_Range_def dec_rangeWindow_def)

subsection \<open>Responses\<close>

definition file_of_wire :: "wireFile \<Rightarrow> File" where
  "file_of_wire f =
     \<lparr>f_Path = wf_Path f, f_Size = wf_Size f, f_Mtime = wf_Mtime f, f_Mode = wf_Mode f, f_SHA = [],
      f_MIME = wf_MIME f, f_UUID = wf_UUID f\<rparr>"

definition fsfile_of_wire :: "wireFile \<Rightarrow> FilesystemFile" where
  "fsfile_of_wire f =
     \<lparr>ff_Path = wf_Path f, ff_Size = wf_Size f, ff_Mtime = wf_Mtime f, ff_Mode = wf_Mode f, ff_SHA = [],
      ff_MIME = wf_MIME f, ff_UUID = wf_UUID f\<rparr>"

definition dir_of_wire :: "wireDir \<Rightarrow> Directory" where
  "dir_of_wire d = \<lparr>d_Path = wd_Path d, d_Mode = wd_Mode d, d_Mtime = wd_Mtime d\<rparr>"

primrec metadata_of_wire :: "listDirEntry \<Rightarrow> ReadMetadataResponse" where
  "metadata_of_wire (FileEntry f) = zero_ReadMetadataResponse\<lparr>m_File := file_of_wire f\<rparr>"
| "metadata_of_wire (DirEntry d) = zero_ReadMetadataResponse\<lparr>m_Directory := dir_of_wire d\<rparr>"

primrec entry_of_wire :: "listDirEntry \<Rightarrow> ListDirEntry" where
  "entry_of_wire (FileEntry f) = \<lparr>e_File = Some (fsfile_of_wire f), e_Directory = None\<rparr>"
| "entry_of_wire (DirEntry d) = \<lparr>e_File = None, e_Directory = Some (dir_of_wire d)\<rparr>"

text \<open>Sizes of files are int64 on the wire.\<close>

primrec wire_sized :: "listDirEntry \<Rightarrow> bool" where
  "wire_sized (FileEntry f) \<longleftrightarrow> is_int64 (wf_Size f)"
| "wire_sized (DirEntry d) \<longleftrightarrow> True"

lemma dec_wireFile:
  assumes "is_int64 (wf_Size f)"
  shows "dec_File (json_wireFile f) zero_File = Some (file_of_wire f)"
    and "dec_FilesystemFile (json_wireFile f) zero_FilesystemFile = Some (fsfile_of_wire f)"
proof -
  note defs = json_wireFile_def omit_string_def omit_int_def decode_simps
  show "dec_File (json_wireFile f) zero_File = Some (file_of_wire f)"
    using assms
    by (simp add: dec_File_def zero_File_def file_of_wire_def dec_members_append defs)
  show "dec_FilesystemFile (json_wireFile f) zero_FilesystemFile = Some (fsfile_of_wire f)"
    using assms
    by (simp add: dec_FilesystemFile_def zero_FilesystemFile_def fsfile_of_wire_def dec_members_append defs)
qed

lemma dec_wireDir: "dec_Directory (json_wireDir d) zero_Directory = Some (dir_of_wire d)"
  by (simp add: dec_Directory_def zero_Directory_def dir_of_wire_def dec_members_append json_wireDir_def
      omit_string_def decode_simps)

lemma dec_metadata:
  "wire_sized e \<Longrightarrow> dec_ReadMetadataResponse (json_entry e) zero_ReadMetadataResponse = Some (metadata_of_wire e)"
  by (cases e)
     (simp_all add: dec_ReadMetadataResponse_def zero_ReadMetadataResponse_def dec_wireFile dec_wireDir
       dec_struct_def field_def fold_names)

lemma dec_ptr_JObj: "dec_ptr d zero (JObj kvs) None = map_option Some (d (JObj kvs) zero)"
  by (simp add: dec_ptr_def)

lemma dec_ptr_wire:
  "is_int64 (wf_Size f) \<Longrightarrow> dec_ptr dec_FilesystemFile zero_FilesystemFile (json_wireFile f) None = Some (Some (fsfile_of_wire f))"
  "dec_ptr dec_Directory zero_Directory (json_wireDir d) None = Some (Some (dir_of_wire d))"
  using dec_wireFile(2)[of f] dec_wireDir[of d] by (simp_all add: json_wireFile_def json_wireDir_def dec_ptr_JObj)

lemma dec_entry: "wire_sized e \<Longrightarrow> dec_ListDirEntry (json_entry e) zero_ListDirEntry = Some (entry_of_wire e)"
  by (cases e)
     (simp_all add: dec_ListDirEntry_def zero_ListDirEntry_def dec_ptr_wire dec_struct_def field_def fold_names)

lemma dec_entries:
  "list_all wire_sized es \<Longrightarrow> dec_elems dec_ListDirEntry zero_ListDirEntry (map json_entry es) = Some (map entry_of_wire es)"
  by (induction es) (simp_all add: dec_entry)

definition listing_of_wire :: "listDirEntry list \<Rightarrow> ListDirectoryResponse" where
  "listing_of_wire es =
     \<lparr>Entries = (if es = [] then None else Some (map entry_of_wire es)), resp_Cursor = []\<rparr>"

lemma dec_listing:
  "list_all wire_sized es \<Longrightarrow>
     dec_ListDirectoryResponse (JObj [(''entries'', json_entries es)]) zero_ListDirectoryResponse =
       Some (listing_of_wire es)"
  by (cases "es = []")
     (simp_all add: dec_ListDirectoryResponse_def zero_ListDirectoryResponse_def listing_of_wire_def
       json_entries_def dec_struct_def field_def fold_names dec_slice_def dec_entries)

lemma page_entries_listing [simp]: "page_entries (listing_of_wire es) = map entry_of_wire es"
  by (simp add: page_entries_def listing_of_wire_def)

subsection \<open>Texts that the wire carries\<close>

lemma length_escape_char: "length (escape_char c) \<le> 6"
  by (simp add: escape_char_def escape_u_def)

lemma length_json_chars: "length (json_chars s) \<le> 6 * length s"
proof (induction s rule: json_chars.induct)
  case (1 s)
  show ?case
  proof (cases s)
    case (Cons c r)
    let ?n = "utf8_size s"
    have n: "?n \<le> length s" by (rule utf8_size_le)
    have u: "length (escape_u x) = 6" for x by (simp add: escape_u_def)
    consider "byte c < 0x80" | "\<not> byte c < 0x80" "?n = 0" | "\<not> byte c < 0x80" "0 < ?n" by linarith
    then show ?thesis
    proof cases
      case 1
      then show ?thesis
        using "1.IH"(1)[OF Cons] Cons length_escape_char[of c] by (simp add: json_chars.simps[of "c # r"])
    next
      case 2
      then show ?thesis using "1.IH"(2)[OF Cons] Cons u by (simp add: json_chars.simps[of "c # r"])
    next
      case 3
      then have "length (json_chars (drop ?n s)) \<le> 6 * length (drop ?n s)"
        using "1.IH"(3,4)[OF Cons] by blast
      then have "length (json_chars (drop ?n s)) \<le> 6 * length s - 6 * ?n" by (simp add: diff_mult_distrib2)
      moreover have "length (json_chars s) \<le> max 6 ?n + length (json_chars (drop ?n s))"
        using 3 u n unfolding Cons by (subst json_chars.simps) simp
      ultimately show ?thesis using 3(2) n by linarith
    qed
  qed (simp add: json_chars.simps[of "[]"])
qed

lemma length_json_string: "length (json_string s) \<le> 6 * length s + 2"
  using length_json_chars[of s] by (simp add: json_string_def)

text \<open>A name that survives the JSON text and leaves room for the other members of a request.\<close>

definition name_ok :: "string \<Rightarrow> bool" where
  "name_ok s \<longleftrightarrow> utf8_valid s \<and> length s \<le> 65536"

definition id_ok :: "string \<Rightarrow> bool" where
  "id_ok s \<longleftrightarrow> utf8_valid s \<and> length s \<le> 4096 \<and> s \<noteq> []"

lemma utf8_names [simp]:
  "utf8_valid ''filesystem_id''" "utf8_valid ''path''" "utf8_valid ''authorization_metadata''"
  "utf8_valid ''source''" "utf8_valid ''destination''" "utf8_valid ''overwrite_existing''"
  "utf8_valid ''declared_size_bytes''" "utf8_valid ''uuid''" "utf8_valid ''range''" "utf8_valid ''offset''"
  "utf8_valid ''length''" "utf8_valid ''intent''" "utf8_valid ''downloadable''" "utf8_valid ''file''"
  "utf8_valid ''directory''" "utf8_valid ''entries''" "utf8_valid ''size''" "utf8_valid ''mtime''"
  "utf8_valid ''mode''" "utf8_valid ''mime''" "utf8_valid ''read''" "utf8_valid ''write''" "utf8_valid []"
  "utf8_valid ''error''"
  by code_simp+

lemma utf8_valid_ascii: "list_all (\<lambda>c. byte c < 0x80) s \<Longrightarrow> utf8_valid s"
proof (induction s)
  case (Cons c s)
  then show ?case by (subst utf8_valid.simps) (simp add: utf8_size_ascii)
qed simp

definition guest_meta :: "string \<Rightarrow> AuthorizationMetadata" where
  "guest_meta intent = \<lparr>Intent = intent, Downloadable = False\<rparr>"

lemma length_dec_digits: "n < 10 ^ Suc k \<Longrightarrow> length (dec_digits n) \<le> Suc k"
proof (induction k arbitrary: n)
  case (Suc k)
  then have "n div 10 < 10 ^ Suc k" by (simp add: less_mult_imp_div_less)
  then show ?case using Suc.IH[of "n div 10"] by (subst dec_digits.simps) simp
qed (simp add: dec_digits_one)

lemma length_json_int: "is_int64 i \<Longrightarrow> length (json_int i) \<le> 20"
proof -
  assume "is_int64 i"
  then have "nat i < 10 ^ Suc 18" "nat (- i) < 10 ^ Suc 18" by (simp_all add: is_int64_def) linarith+
  then have "length (dec_digits (nat i)) \<le> 19" "length (dec_digits (nat (- i))) \<le> 19"
    using length_dec_digits[of _ 18] by fastforce+
  then show ?thesis by (simp add: json_int_def)
qed

text \<open>A bound on the length of a text, by the structure of the value.\<close>

primrec json_bound :: "json \<Rightarrow> nat" where
  "json_bound JNull = 4"
| "json_bound (JBool b) = 5"
| "json_bound (JInt i) = (if is_int64 i then 20 else length (json_int i))"
| "json_bound (JNumLit s) = length s"
| "json_bound (JStr s) = 6 * length s + 2"
| "json_bound (JArr js) = sum_list (map Suc (map json_bound js)) + 2"
| "json_bound (JObj kvs) = sum_list (map (\<lambda>(k, n). 6 * length k + n + 4) (map (map_prod id json_bound) kvs)) + 2"

lemma length_comma_sep: "length (comma_sep xs) \<le> sum_list (map (\<lambda>x. Suc (length x)) xs)"
  by (induction xs rule: comma_sep.induct) auto

lemma length_json_text: "length (json_text j) \<le> json_bound j"
proof (induction j)
  case (JArr js)
  have "sum_list (map (\<lambda>x. Suc (length (json_text x))) js) \<le> sum_list (map (\<lambda>x. Suc (json_bound x)) js)"
    using JArr by (intro sum_list_mono) simp
  then show ?case using length_comma_sep[of "map json_text js"] by (simp add: comp_def)
next
  case (JObj kvs)
  have "Suc (length (member_text kv)) \<le> 6 * length (fst kv) + json_bound (snd kv) + 4" if "kv \<in> set kvs" for kv
    using length_json_string[of "fst kv"] JObj[of kv "snd kv"] that by (simp add: snds.simps)
  then have "sum_list (map (\<lambda>kv. Suc (length (member_text kv))) kvs) \<le>
      sum_list (map (\<lambda>kv. 6 * length (fst kv) + json_bound (snd kv) + 4) kvs)"
    by (intro sum_list_mono) simp
  then show ?case
    using length_comma_sep[of "map member_text kvs"]
    by (simp add: json_text_JObj comp_def case_prod_beta del: json_text.simps)
qed (use length_json_string in \<open>auto simp: length_json_int\<close>)

text \<open>The requests the client sends for names that are \<^const>\<open>name_ok\<close>.\<close>

primrec guest_request :: "string \<Rightarrow> request \<Rightarrow> bool" where
  "guest_request fs (ListDirectoryRequest f p am cur) \<longleftrightarrow> f = fs \<and> name_ok p \<and> am = guest_meta ''read'' \<and> cur = []"
| "guest_request fs (MakeDirectoryRequest f p am) \<longleftrightarrow> f = fs \<and> name_ok p \<and> am = guest_meta ''write''"
| "guest_request fs (MoveDirectoryRequest f s d am) \<longleftrightarrow> f = fs \<and> name_ok s \<and> name_ok d \<and> am = guest_meta ''write''"
| "guest_request fs (RemoveDirectoryRequest f p am) \<longleftrightarrow> f = fs \<and> name_ok p \<and> am = guest_meta ''write''"
| "guest_request fs (ReadMetadataRequest f p am) \<longleftrightarrow> f = fs \<and> name_ok p \<and> am = guest_meta ''read''"
| "guest_request fs (CopyFileRequest f s d ov am) \<longleftrightarrow> f = fs \<and> name_ok s \<and> name_ok d \<and> am = guest_meta ''write''"
| "guest_request fs (MoveFileRequest f s d ov am) \<longleftrightarrow> f = fs \<and> name_ok s \<and> name_ok d \<and> am = guest_meta ''write''"
| "guest_request fs (RemoveFileRequest f p am) \<longleftrightarrow> f = fs \<and> name_ok p \<and> am = guest_meta ''write''"
| "guest_request fs (FileUploadRequest f p n ov am) \<longleftrightarrow> f = fs \<and> name_ok p \<and> is_int64 n \<and> am = guest_meta ''write''"
| "guest_request fs (FileDownloadRequest f u rng am) \<longleftrightarrow>
     f = fs \<and> name_ok u \<and> am = guest_meta ''read'' \<and>
     (case rng of None \<Rightarrow> True | Some r \<Rightarrow> is_int64 (Offset r) \<and> is_int64 (Length r))"

lemma json_ok_meta: "intent \<in> {''read'', ''write''} \<Longrightarrow> json_ok (json_AuthorizationMetadata (guest_meta intent))"
  by (auto simp: json_AuthorizationMetadata_def guest_meta_def)

lemma guest_json_ok:
  "id_ok fs \<Longrightarrow> guest_request fs req \<Longrightarrow> json_ok (marshal req)"
  by (cases req) (auto simp: id_ok_def name_ok_def json_ok_meta json_Range_def split: option.splits)

lemma guest_fits:
  assumes "id_ok fs" "guest_request fs req"
  shows "length (json_text (marshal req)) \<le> maxRequestBytes"
proof -
  have "json_bound (marshal req) \<le> maxRequestBytes"
    using assms
    by (cases req) (auto simp: id_ok_def name_ok_def maxRequestBytes_def json_AuthorizationMetadata_def guest_meta_def
        json_Range_def split: option.splits)
  then show ?thesis using length_json_text[of "marshal req"] by simp
qed

end
