(* ===== verification/HarnessLink.thy ===== *)
theory HarnessLink
  imports FilestoreWire FileTree
begin

text \<open>
  The guest client connected to the filestore peer: a \<open>platform\<close> whose round trip hands the request
  to the peer and the reply back.  What lies between them is \<open>link\<close>: how a reply reaches the client
  as a stream (\<open>lk_deliver\<close>), what the multiplexer of the peer answers outside the REST base
  (\<open>lk_other\<close>), and the parts of the client's own platform.
\<close>

record fsPeer =
  fp_server :: Server
  fp_volume :: vnode
  fp_tick :: nat

record link =
  lk_deliver :: "reply \<Rightarrow> body"
  lk_other :: "http_request \<Rightarrow> reply"
  lk_float :: float64
  lk_url_Parse :: "string \<Rightarrow> URL result"
  lk_pem :: "bytes \<Rightarrow> bool"
  lk_sha256 :: "bytes \<Rightarrow> bytes"
  lk_accepts :: "fsPeer \<Rightarrow> wire_request \<Rightarrow> nat option"

definition url_path :: "string \<Rightarrow> string" where
  "url_path u = dropWhile (\<lambda>c. c \<noteq> slash) (TrimPrefix u ''https://'')"

primrec form_part_of :: "part \<Rightarrow> form_part" where
  "form_part_of (FormField n j) = FormValuePart n (json_text j)"
| "form_part_of (FormFile n fn b) = FormFilePart n fn b"

definition peer_body :: "wire_body \<Rightarrow> rq_body" where
  "peer_body b =
     (case b of
        WJson j \<Rightarrow> RawBody (json_text j)
      | WMultipart ps None \<Rightarrow> MultipartBody (map form_part_of ps)
      | WMultipart ps (Some e) \<Rightarrow> BrokenBody)"

definition peer_request :: "wire_request \<Rightarrow> http_request" where
  "peer_request q =
     \<lparr>rq_Method = w_method q, rq_Path = url_path (w_url q), rq_Auth = w_auth q, rq_Body = peer_body (w_body q)\<rparr>"

definition client_response :: "link \<Rightarrow> reply \<Rightarrow> http_response" where
  "client_response lk rp =
     \<lparr>StatusCode = rp_Status rp, RetryAfter = rp_RetryAfter rp,
      ContentLength = (case rp_Length rp of None \<Rightarrow> - 1 | Some n \<Rightarrow> n), Body = lk_deliver lk rp\<rparr>"

text \<open>A request whose body breaks off fails at the client with the error its pipe was closed with.\<close>

definition fs_round_trip :: "fsHost \<Rightarrow> link \<Rightarrow> fsPeer \<Rightarrow> wire_request \<Rightarrow> http_response result \<times> fsPeer" where
  "fs_round_trip h lk p q =
     (let r = peer_request q in
      case (if HasPrefix (rq_Path r) fsRestBase then route h (fp_tick p) r (fp_server p, fp_volume p)
            else (lk_other lk r, fp_server p, fp_volume p)) of
        (rp, s', v') \<Rightarrow>
          ((case w_body q of WMultipart _ (Some e) \<Rightarrow> Inl e | _ \<Rightarrow> Inr (client_response lk rp)),
           \<lparr>fp_server = s', fp_volume = v', fp_tick = Suc (fp_tick p)\<rparr>))"

definition fs_platform :: "fsHost \<Rightarrow> link \<Rightarrow> fsPeer platform" where
  "fs_platform h lk =
     \<lparr>float_ops = lk_float lk, url_Parse = lk_url_Parse lk, AppendCertsFromPEM = lk_pem lk,
      sha256_Sum = lk_sha256 lk, round_trip = fs_round_trip h lk, pipe_accepts = lk_accepts lk\<rparr>"

subsection \<open>A peer that serves the client\<close>

text \<open>The connection is reliable: a reply arrives whole, and ends cleanly if its length is the declared one.\<close>

definition link_ok :: "link \<Rightarrow> bool" where
  "link_ok lk \<longleftrightarrow>
     (\<forall>rp. body_content (lk_deliver lk rp) = rp_Body rp \<and>
           (rp_Length rp = None \<or> rp_Length rp = Some (int (length (rp_Body rp))) \<longrightarrow> fin (lk_deliver lk rp) = EOF))"

text \<open>The host has no fault, reports times and modes as short UTF-8 strings, and hashes to 32 bytes.\<close>

definition host_quiet :: "fsHost \<Rightarrow> bool" where
  "host_quiet h \<longleftrightarrow>
     cwd_rooted h \<and> (\<forall>t sc. os_fault (fh_os h t) sc = None) \<and>
     (\<forall>t p. utf8_valid (fh_mtime h t p) \<and> length (fh_mtime h t p) \<le> 4096) \<and>
     (\<forall>t p. utf8_valid (fh_mode h t p) \<and> length (fh_mode h t p) \<le> 4096) \<and>
     (\<forall>b. length (fh_sha256 h b) = 32)"

text \<open>
  The peer serves the client from the directory \<open>bs\<close>: the client's URL leads to it, its token is
  accepted for its filesystem, and neither throttle is configured.
\<close>

definition serving :: "fsHost \<Rightarrow> link \<Rightarrow> Client \<Rightarrow> Scope \<Rightarrow> string list \<Rightarrow> fsPeer \<Rightarrow> bool" where
  "serving h lk c scope bs p \<longleftrightarrow>
     host_quiet h \<and> link_ok lk \<and> id_ok (fsID c) \<and>
     (\<forall>op. \<not> isl (lk_url_Parse lk (opURL c op))) \<and>
     (\<exists>site. serviceURL c = ''https://'' @ site \<and> site \<noteq> [] \<and> slash \<notin> set site) \<and>
     (\<forall>t. s_credentials (fp_server p) t (''Bearer '' @ authToken c) = Inr (fsID c)) \<and>
     s_scopes (fp_server p) (fsID c) = Some scope \<and> sc_FilesystemID scope = fsID c \<and>
     sc_Root scope = slash_path bs \<and> list_all good_seg bs \<and> bs \<noteq> [] \<and>
     s_throttleEvery (fp_server p) \<le> 0 \<and> s_perOpBucket (fp_server p) = None \<and> vwf (fp_volume p)"

text \<open>The tree of the scope.\<close>

definition scope_tree :: "string list \<Rightarrow> fsPeer net \<Rightarrow> string list \<Rightarrow> inode option" where
  "scope_tree bs w us = view (fp_volume (peer w)) (bs @ us)"

lemma url_path_op:
  assumes "serviceURL c = ''https://'' @ site" "site \<noteq> []" "slash \<notin> set site"
  shows "url_path (opURL c op) = fsRestBase @ op"
proof -
  have "last (''https://'' @ site) \<noteq> slash" using assms(2,3) by (metis last_appendR last_in_set)
  then have "TrimRight_char (serviceURL c) slash = ''https://'' @ site"
    using assms(1) TrimRight_char_last by metis
  then have "opURL c op = ''https://'' @ site @ fsRestBase @ op"
    by (simp add: opURL_def restBase_def fsRestBase_def)
  moreover have "dropWhile (\<lambda>c. c \<noteq> slash) (site @ fsRestBase @ op) = fsRestBase @ op"
    using assms(3) by (subst dropWhile_append2) (auto simp: fsRestBase_def)
  ultimately show ?thesis unfolding url_path_def by (simp only: TrimPrefix_append)
qed

lemma no_throttle:
  assumes "serving h lk c scope bs p"
  shows "chargePerOp h t fs (fp_server p) = (True, fp_server p)" "throttled (fp_server p) = (False, fp_server p)"
  using assms by (simp_all add: serving_def chargePerOp_def throttled_def)

definition peer_after :: "vnode \<Rightarrow> fsPeer net \<Rightarrow> wire_request \<Rightarrow> fsPeer net" where
  "peer_after v' w q =
     w\<lparr>peer := (peer w)\<lparr>fp_volume := v', fp_tick := Suc (fp_tick (peer w))\<rparr>, sent := sent w @ [q]\<rparr>"

lemma serving_after:
  "serving h lk c scope bs (peer w) \<Longrightarrow> vwf v' \<Longrightarrow> serving h lk c scope bs (peer (peer_after v' w q))"
  by (simp add: serving_def peer_after_def)

lemma scope_tree_after [simp]: "scope_tree bs (peer_after v' w q) us = view v' (bs @ us)"
  by (simp add: scope_tree_def peer_after_def)

lemma op_names:
  "OpListDirectory = opListDirectory" "OpReadMetadata = opReadMetadata" "OpFileDownload = opFileDownload"
  "OpMakeDirectory = opMakeDirectory" "OpMoveDirectory = opMoveDirectory" "OpRemoveDirectory = opRemoveDirectory"
  "OpCopyFile = opCopyFile" "OpMoveFile = opMoveFile" "OpRemoveFile = opRemoveFile" "OpFileUpload = opFileUpload"
  by (simp_all add: op_defs fs_op_defs)

text \<open>
  A message of the client reaches the checks of the peer: its scope, the per-operation ceiling, and
  then its handler, with the message the client marshalled.
\<close>

definition connected :: "Client \<Rightarrow> Server \<Rightarrow> bool" where
  "connected c s \<longleftrightarrow>
     id_ok (fsID c) \<and> (\<exists>site. serviceURL c = ''https://'' @ site \<and> site \<noteq> [] \<and> slash \<notin> set site) \<and>
     (\<forall>t. s_credentials s t (''Bearer '' @ authToken c) = Inr (fsID c))"

lemma serving_connected: "serving h lk c scope bs p \<Longrightarrow> connected c (fp_server p)"
  by (simp add: serving_def connected_def)

lemma route_message:
  assumes "connected c s" "guest_request (fsID c) req" "request_op req \<noteq> OpFileUpload"
  shows "route h t (peer_request (json_post c (request_op req) (marshal req))) (s, v) =
    (case authorize s (request_op req) (fsID c) (fsID c) of
       Inl (status, msg) \<Rightarrow> (httpjson_Error status msg, s, v)
     | Inr scope \<Rightarrow>
         (case chargePerOp h t (fsID c) s of
            (False, s1) \<Rightarrow> (httpjson_Error throttleRefusalStatus ''per-op ceiling exceeded; back off and retry'', s1, v)
          | (True, s1) \<Rightarrow>
              (case dispatch h t (request_op req) scope
                      \<lparr>cb_FilesystemID = fsID c, cb_raw = json_text (marshal req)\<rparr> v of
                 (rp, v') \<Rightarrow> (rp, s1, v'))))"
    and "HasPrefix (rq_Path (peer_request (json_post c (request_op req) (marshal req)))) fsRestBase"
proof -
  obtain site where site: "serviceURL c = ''https://'' @ site" "site \<noteq> []" "slash \<notin> set site"
    using assms(1) by (auto simp: connected_def)
  have ids: "id_ok (fsID c)" and cred: "s_credentials s t (''Bearer '' @ authToken c) = Inr (fsID c)"
    using assms(1) by (auto simp: connected_def)
  have fs: "json_get ''filesystem_id'' (marshal req) = Some (JStr (fsID c))"
    using assms(2) by (cases req) auto
  have path: "url_path (opURL c (request_op req)) = fsRestBase @ request_op req" using url_path_op[OF site] .
  have dc: "decodeCommon (RawBody (json_text (marshal req))) =
      Some \<lparr>cb_FilesystemID = fsID c, cb_raw = json_text (marshal req)\<rparr>"
    using decodeCommon_marshal[OF guest_json_ok[OF ids assms(2)] guest_fits[OF ids assms(2)] fs] .
  show "route h t (peer_request (json_post c (request_op req) (marshal req))) (s, v) =
    (case authorize s (request_op req) (fsID c) (fsID c) of
       Inl (status, msg) \<Rightarrow> (httpjson_Error status msg, s, v)
     | Inr scope \<Rightarrow>
         (case chargePerOp h t (fsID c) s of
            (False, s1) \<Rightarrow> (httpjson_Error throttleRefusalStatus ''per-op ceiling exceeded; back off and retry'', s1, v)
          | (True, s1) \<Rightarrow>
              (case dispatch h t (request_op req) scope
                      \<lparr>cb_FilesystemID = fsID c, cb_raw = json_text (marshal req)\<rparr> v of
                 (rp, v') \<Rightarrow> (rp, s1, v'))))"
    using assms(3) cred
    by (simp add: route_def peer_request_def json_post_def setAuthHeader_def path peer_body_def dc op_names Let_def
        split: sum.split prod.split bool.split)
  show "HasPrefix (rq_Path (peer_request (json_post c (request_op req) (marshal req)))) fsRestBase"
    by (simp add: peer_request_def json_post_def setAuthHeader_def path)
qed

lemma message_exchanged:
  assumes "connected c (fp_server (peer w))" "guest_request (fsID c) req" "request_op req \<noteq> OpFileUpload"
    and "route h (fp_tick (peer w)) (peer_request (json_post c (request_op req) (marshal req)))
           (fp_server (peer w), fp_volume (peer w)) = (rp, s', v')"
  shows "http_Do (fs_platform h lk) (json_post c (request_op req) (marshal req)) w =
     (Inr (client_response lk rp),
      w\<lparr>peer := \<lparr>fp_server = s', fp_volume = v', fp_tick = Suc (fp_tick (peer w))\<rparr>,
        sent := sent w @ [json_post c (request_op req) (marshal req)]\<rparr>)"
  using route_message(2)[OF assms(1-3)] assms(4)
  by (simp add: http_Do_def fs_platform_def fs_round_trip_def Let_def)
     (simp add: json_post_def setAuthHeader_def)

text \<open>An upload whose source ends cleanly reaches the same checks, and the throttle of writes.\<close>

abbreviation guest_upload :: "Client \<Rightarrow> string \<Rightarrow> body \<Rightarrow> int \<Rightarrow> bool \<Rightarrow> wire_request" where
  "guest_upload c p sr n ov \<equiv> upload_request c (fsID c) (guest_meta ''write'') p sr n ov"

definition store_guest :: "fsHost \<Rightarrow> nat \<Rightarrow> Scope \<Rightarrow> string \<Rightarrow> string \<Rightarrow> int \<Rightarrow> bool \<Rightarrow> bytes \<Rightarrow> vnode \<Rightarrow> reply \<times> vnode" where
  "store_guest h t scope fs p n ov part v =
     (case resolveUnder h (sc_Root scope) p of
        Inl err \<Rightarrow> (httpjson_Error 400 ''path escapes scope'', v)
      | Inr absp \<Rightarrow>
          store_upload h t scope \<lparr>up_FilesystemID = fs, up_Path = p, up_DeclaredSizeBytes = n, up_OverwriteExisting = ov,
            up_Meta = (''write'', False)\<rparr> (path_segs absp) part v)"

lemma route_upload:
  assumes "connected c s" "name_ok p" "is_int64 n" "source_error sr = None"
  shows "route h t (peer_request (guest_upload c p sr n ov)) (s, v) =
    (case authorize s opFileUpload (fsID c) (fsID c) of
       Inl (status, msg) \<Rightarrow> (httpjson_Error status msg, s, v)
     | Inr scope \<Rightarrow>
         (case chargePerOp h t (fsID c) s of
            (False, s1) \<Rightarrow> (httpjson_Error throttleRefusalStatus ''per-op ceiling exceeded; back off and retry'', s1, v)
          | (True, s1) \<Rightarrow>
              (case throttled s1 of
                 (True, s2) \<Rightarrow> ((httpjson_Error 429 ''throttled; retry after backoff'')\<lparr>rp_RetryAfter := ''1''\<rparr>, s2, v)
               | (False, s2) \<Rightarrow>
                   (case store_guest h t scope (fsID c) p n ov (body_content sr) v of (rp, v') \<Rightarrow> (rp, s2, v')))))"
    and "HasPrefix (rq_Path (peer_request (guest_upload c p sr n ov))) fsRestBase"
proof -
  let ?req = "FileUploadRequest (fsID c) p n ov (guest_meta ''write'')"
  obtain site where site: "serviceURL c = ''https://'' @ site" "site \<noteq> []" "slash \<notin> set site"
    using assms(1) by (auto simp: connected_def)
  have ids: "id_ok (fsID c)" and cred: "s_credentials s t (''Bearer '' @ authToken c) = Inr (fsID c)"
    using assms(1) by (auto simp: connected_def)
  have g: "guest_request (fsID c) ?req" using assms(2,3) by simp
  have um: "unmarshal_into dec_uploadParams zero_uploadParams (json_text (marshal ?req)) =
      Some \<lparr>up_FilesystemID = fsID c, up_Path = p, up_DeclaredSizeBytes = n, up_OverwriteExisting = ov,
        up_Meta = (''write'', False)\<rparr>"
    using uploadParams_marshal[OF guest_json_ok[OF ids g] assms(3)] by (simp only: guest_meta_def AuthorizationMetadata.simps)
  have rq: "peer_request (guest_upload c p sr n ov) =
      \<lparr>rq_Method = ''POST'', rq_Path = fsRestBase @ opFileUpload, rq_Auth = ''Bearer '' @ authToken c,
       rq_Body = MultipartBody [FormValuePart ''params'' (json_text (marshal ?req)), FormFilePart ''file'' ''upload'' (body_content sr)]\<rparr>"
    using url_path_op[OF site, of OpFileUpload]
    by (simp add: peer_request_def upload_request_parts peer_body_def assms(4) op_names del: marshal.simps)
  have ne: "json_text (marshal ?req) \<noteq> []" by (simp add: json_text_JObj del: json_text.simps)
  show "route h t (peer_request (guest_upload c p sr n ov)) (s, v) =
    (case authorize s opFileUpload (fsID c) (fsID c) of
       Inl (status, msg) \<Rightarrow> (httpjson_Error status msg, s, v)
     | Inr scope \<Rightarrow>
         (case chargePerOp h t (fsID c) s of
            (False, s1) \<Rightarrow> (httpjson_Error throttleRefusalStatus ''per-op ceiling exceeded; back off and retry'', s1, v)
          | (True, s1) \<Rightarrow>
              (case throttled s1 of
                 (True, s2) \<Rightarrow> ((httpjson_Error 429 ''throttled; retry after backoff'')\<lparr>rp_RetryAfter := ''1''\<rparr>, s2, v)
               | (False, s2) \<Rightarrow>
                   (case store_guest h t scope (fsID c) p n ov (body_content sr) v of (rp, v') \<Rightarrow> (rp, s2, v')))))"
    unfolding rq using cred
    by (simp add: route_def handleFileUpload_def ne um Let_def store_guest_def del: marshal.simps
        split: sum.split prod.split bool.split)
  show "HasPrefix (rq_Path (peer_request (guest_upload c p sr n ov))) fsRestBase" by (simp add: rq)
qed

lemma upload_exchanged:
  assumes "connected c (fp_server (peer w))" "name_ok p" "is_int64 n" "source_error sr = None"
    and "route h (fp_tick (peer w)) (peer_request (guest_upload c p sr n ov)) (fp_server (peer w), fp_volume (peer w)) =
           (rp, s', v')"
  shows "http_Do (fs_platform h lk) (guest_upload c p sr n ov) w =
     (Inr (client_response lk rp),
      w\<lparr>peer := \<lparr>fp_server = s', fp_volume = v', fp_tick = Suc (fp_tick (peer w))\<rparr>,
        sent := sent w @ [guest_upload c p sr n ov]\<rparr>)"
  using route_upload(2)[OF assms(1-4)] assms(5)
  by (simp add: http_Do_def fs_platform_def fs_round_trip_def Let_def del: marshal.simps)
     (simp add: upload_request_parts assms(4) del: marshal.simps)

lemma request_served:
  assumes "serving h lk c scope bs (peer w)" "guest_request (fsID c) req" "request_op req \<noteq> OpFileUpload"
    and "\<not> (sc_ReadOnly scope \<and> request_op req \<in> set writeIntentOps)"
    and "dispatch h (fp_tick (peer w)) (request_op req) scope
           \<lparr>cb_FilesystemID = fsID c, cb_raw = json_text (marshal req)\<rparr> (fp_volume (peer w)) = (rp, v')"
  shows "http_Do (fs_platform h lk) (json_post c (request_op req) (marshal req)) w =
     (Inr (client_response lk rp), peer_after v' w (json_post c (request_op req) (marshal req)))"
proof -
  let ?s = "fp_server (peer w)"
  have az: "authorize ?s (request_op req) (fsID c) (fsID c) = Inr scope"
    using assms(1,4) by (simp add: authorize_ok id_ok_def serving_def)
  have "route h (fp_tick (peer w)) (peer_request (json_post c (request_op req) (marshal req))) (?s, fp_volume (peer w)) =
      (rp, ?s, v')"
    using route_message(1)[OF serving_connected[OF assms(1)] assms(2,3)] az assms(5) no_throttle[OF assms(1)] by simp
  from message_exchanged[OF serving_connected[OF assms(1)] assms(2,3) this] show ?thesis
    by (simp add: peer_after_def)
qed

subsection \<open>Calls\<close>

lemma link_body:
  "serving h lk c scope bs p \<Longrightarrow> body_content (lk_deliver lk rp) = rp_Body rp"
  "serving h lk c scope bs p \<Longrightarrow> rp_Length rp = None \<Longrightarrow> fin (lk_deliver lk rp) = EOF"
  by (simp_all add: serving_def link_ok_def)

lemma serving_url: "serving h lk c scope bs p \<Longrightarrow> \<exists>u. lk_url_Parse lk (opURL c op) = Inr u"
  unfolding serving_def by (metis isl_def sum.exhaust)

lemma call_served:
  assumes "serving h lk c scope bs (peer w)"
    and "http_Do (fs_platform h lk) (json_post c op (marshal req)) w = (Inr (client_response lk (httpjson_OK j)), w')"
    and "json_ok j" "json_bound j < nat maxJSONResponseBytes" "dec j zero = Some r"
  shows "call (fs_platform h lk) c op req dec zero w = (Inr r, w')"
proof -
  obtain u where u: "lk_url_Parse lk (opURL c op) = Inr u" using serving_url[OF assms(1)] by blast
  have "rp_Body (httpjson_OK j) = json_text j @ newline" by (simp add: httpjson_OK_def json_reply_def)
  then have b: "body_content (Body (client_response lk (httpjson_OK j))) = json_text j @ newline"
    using link_body(1)[OF assms(1)] by (simp add: client_response_def)
  have "num_end newline" by (simp add: num_end_def newline_def is_dec_def between_def)
  then have d: "json_Decode (json_text j @ newline) = Some j" using assms(3) by (rule json_Decode_text[rotated])
  have "length (json_text j @ newline) \<le> nat maxJSONResponseBytes"
    using length_json_text[of j] assms(4) by (simp add: newline_def)
  then have "take (nat maxJSONResponseBytes) (json_text j @ newline) = json_text j @ newline" by simp
  then show ?thesis
    using assms(2,5) u d b
    by (simp add: call_def fs_platform_def[of h lk, THEN arg_cong[where f = url_Parse]] del: marshal.simps)
       (simp add: client_response_def is_2xx_def)
qed

lemma call_refused_by:
  assumes "serving h lk c scope bs (peer w)"
    and "http_Do (fs_platform h lk) (json_post c op (marshal req)) w = (Inr (client_response lk rp), w')"
    and "\<not> is_2xx (rp_Status rp)"
  shows "\<exists>err. call (fs_platform h lk) c op req dec zero w = (Inl err, w') \<and>
     (\<forall>s. errors_is err s \<longleftrightarrow> status_sentinel (rp_Status rp) = Some s) \<and>
     (is_retry err \<longleftrightarrow> rp_Status rp = 429 \<or> rp_Status rp = 503)"
proof -
  obtain u where "lk_url_Parse lk (opURL c op) = Inr u" using serving_url[OF assms(1)] by blast
  then show ?thesis
    using assms(2,3)
    by (simp add: call_def fs_platform_def[of h lk, THEN arg_cong[where f = url_Parse]] client_response_def
        errors_is_MapHTTPStatus is_retry_MapHTTPStatus del: marshal.simps)
qed

subsection \<open>The host without faults\<close>

definition os_result :: "vnode \<Rightarrow> errno + vnode \<Rightarrow> errno option \<times> vnode" where
  "os_result v r = (case r of Inl e \<Rightarrow> (Some e, v) | Inr v' \<Rightarrow> (None, v'))"

lemma quiet_calls:
  assumes "host_quiet h"
  shows "os_Stat (fh_os h t) p v = vlookup p v" "os_Open (fh_os h t) p v = vlookup p v"
    "os_MkdirAll (fh_os h t) p v = os_result v (mkdirs p v)"
    "os_Create (fh_os h t) p v = os_result v (create_file p v)"
    "os_Write (fh_os h t) p b v = (None, write_bytes p b v)"
    "os_Remove (fh_os h t) p v = os_result v (remove_node p v)"
    "os_RemoveAll (fh_os h t) p v = remove_tree p v"
    "os_Rename (fh_os h t) p q v = os_result v (rename_node p q v)"
    "os_ReadDir (fh_os h t) p v =
       (case vlookup p v of Inl e \<Rightarrow> Inl e | Inr (VFile _) \<Rightarrow> Inl ENOTDIR | Inr (VDir es) \<Rightarrow> Inr es)"
    "os_query (fh_os h t) sc f v = f v" "os_fault (fh_os h t) sc = None"
  using assms
  by (simp_all add: host_quiet_def os_Stat_def os_Open_def os_MkdirAll_def os_Create_def os_Write_def os_Remove_def
      os_RemoveAll_def os_Rename_def os_ReadDir_def os_query_def os_change_def os_result_def)

lemma rel_segs_slash_path: "list_all good_seg us \<Longrightarrow> rel_segs (slash_path us) = us"
proof -
  assume g: "list_all good_seg us"
  have "slash_path (rel_segs (slash_path us)) = Clean (slash_path us)"
    using Clean_rel[of "slash_path us"] by (simp add: TrimPrefix_root) (simp add: slash_path_def)
  then show ?thesis using g slash_path_inj[OF rel_segs_good g] by simp
qed

lemma resolve_served:
  assumes "serving h lk c scope bs p" "list_all good_seg us"
  shows "resolveUnder h (sc_Root scope) (slash_path us) = Inr (slash_path (bs @ us))"
    and "path_segs (slash_path (bs @ us)) = bs @ us"
  using assms resolveUnder_ok[of bs h "slash_path us"] by (simp_all add: serving_def rel_segs_slash_path)

lemma with_path_served:
  assumes "serving h lk c scope bs p" "list_all good_seg us" "pathFromBody body = Some (slash_path us)"
  shows "with_path h scope body v k = k (slash_path us) (bs @ us)"
  using assms(3) resolve_served[OF assms(1,2)] by (simp add: with_path_def)

subsection \<open>The abstract tree\<close>

lemma view_file_below: "view v (p @ q) \<noteq> None \<Longrightarrow> view v p = Some (IFile b) \<Longrightarrow> q = []"
  using view_parent[of v p q] by (cases "q = []") auto

lemma prefix_butlast_iff: "us \<noteq> [] \<Longrightarrow> prefix q (butlast us) \<longleftrightarrow> strict_prefix q us"
  by (cases us rule: rev_cases) (auto simp: strict_prefix_def)

lemma parents_free_parent:
  assumes "view v bs = Some IDir" "parents_free (\<lambda>us. view v (bs @ us)) us" "us \<noteq> []"
  shows "prefix q (bs @ butlast us) \<Longrightarrow> view v q \<noteq> Some (IFile b)"
proof -
  assume q: "prefix q (bs @ butlast us)"
  show ?thesis
  proof (cases "prefix q bs")
    case True
    then obtain r where "bs = q @ r" by (auto simp: prefix_def)
    then show ?thesis using view_file_below[of v q r b] assms(1) by auto
  next
    case False
    then obtain r where r: "q = bs @ r" "prefix r (butlast us)" using q by (auto simp: prefix_append)
    then have "strict_prefix r us" using prefix_butlast_iff[OF assms(3)] by blast
    then show ?thesis using assms(2) r(1) by (auto simp: parents_free_iff)
  qed
qed

lemma mkdirs_tree:
  assumes "view v bs = Some IDir" "parents_free (\<lambda>us. view v (bs @ us)) us" "us \<noteq> []"
  obtains v1 where "mkdirs (butlast (bs @ us)) v = Inr v1"
    "\<forall>q. view v1 (bs @ q) = with_parents (\<lambda>us. view v (bs @ us)) us q" "vwf v \<longrightarrow> vwf v1"
proof -
  have bl: "butlast (bs @ us) = bs @ butlast us" using assms(3) by (simp add: butlast_append)
  obtain v1 where v1: "mkdirs (bs @ butlast us) v = Inr v1"
    using mkdirs_ok[of "bs @ butlast us" v] parents_free_parent[OF assms] by blast
  have "view v1 (bs @ q) = with_parents (\<lambda>us. view v (bs @ us)) us q" for q
    using mkdirs_view[OF v1, of "bs @ q"] prefix_butlast_iff[OF assms(3)] by (simp add: with_parents_def)
  then show thesis using that v1 bl vwf_mkdirs by metis
qed

text \<open>A file written at a path, its parents made first.\<close>

lemma write_tree:
  assumes "view v bs = Some IDir" "parents_free (\<lambda>us. view v (bs @ us)) us" "us \<noteq> []"
    and "view v (bs @ us) \<noteq> Some IDir"
  obtains v1 v2 where "mkdirs (butlast (bs @ us)) v = Inr v1" "create_file (bs @ us) v1 = Inr v2"
    "\<forall>b q. view (write_bytes (bs @ us) b v2) (bs @ q) =
        ((with_parents (\<lambda>us. view v (bs @ us)) us)(us \<mapsto> IFile b)) q"
    "\<forall>b. vwf v \<longrightarrow> vwf (write_bytes (bs @ us) b v2)"
    "\<forall>q. view v1 (bs @ q) = with_parents (\<lambda>us. view v (bs @ us)) us q"
    "view v2 = (view v1)(bs @ us \<mapsto> IFile [])" "vwf v \<longrightarrow> vwf v2"
proof -
  obtain v1 where v1: "mkdirs (butlast (bs @ us)) v = Inr v1"
    "\<forall>q. view v1 (bs @ q) = with_parents (\<lambda>us. view v (bs @ us)) us q" "vwf v \<longrightarrow> vwf v1"
    by (rule mkdirs_tree[OF assms(1-3)])
  have "view v1 (butlast (bs @ us)) = Some IDir" using mkdirs_view[OF v1(1), of "butlast (bs @ us)"] by simp
  moreover have "view v1 (bs @ us) \<noteq> Some IDir"
    using v1(2) assms(4) by (simp add: with_parents_def)
  ultimately obtain v2 where v2: "create_file (bs @ us) v1 = Inr v2" using create_file_ok assms(3) by (metis append_is_Nil_conv)
  have cv: "view v2 = (view v1)(bs @ us \<mapsto> IFile [])" using create_file_view(1)[OF v2] .
  then have "view v2 (bs @ us) = Some (IFile [])" by simp
  then have "view (write_bytes (bs @ us) b v2) (bs @ q) =
        ((with_parents (\<lambda>us. view v (bs @ us)) us)(us \<mapsto> IFile b)) q" for b q
    using write_bytes_view[of v2 "bs @ us" "[]" b] cv v1(2) by simp
  then show thesis using that[OF v1(1) v2] vwf_calls(1)[OF _ v2] vwf_calls(2) v1(2,3) cv by blast
qed

end
