(* ===== verification/FilestoreTree.thy ===== *)
theory FilestoreTree
  imports HarnessLink
begin

text \<open>
  What the operations of the guest client do to the tree of the scope when the filestore peer serves
  them: each refines an operation on the map from paths to files and directories.
\<close>

subsection \<open>Served operations\<close>

abbreviation body_of :: "Client \<Rightarrow> request \<Rightarrow> commonBody" where
  "body_of c req \<equiv> \<lparr>cb_FilesystemID = fsID c, cb_raw = json_text (marshal req)\<rparr>"

abbreviation post_of :: "Client \<Rightarrow> request \<Rightarrow> wire_request" where
  "post_of c req \<equiv> json_post c (request_op req) (marshal req)"

text \<open>The peer serves the client, from a writable scope whose root is a directory and whose names are names of files.\<close>

definition served :: "fsHost \<Rightarrow> link \<Rightarrow> Client \<Rightarrow> Scope \<Rightarrow> string list \<Rightarrow> fsPeer net \<Rightarrow> bool" where
  "served h lk c scope bs w \<longleftrightarrow>
     serving h lk c scope bs (peer w) \<and> \<not> sc_ReadOnly scope \<and> scope_tree bs w [] = Some IDir \<and>
     (\<forall>us. scope_tree bs w us \<noteq> None \<longrightarrow> list_all good_seg us)"

definition wire_path :: "string list \<Rightarrow> bool" where
  "wire_path us \<longleftrightarrow> list_all good_seg us \<and> name_ok (slash_path us)"

lemma servedD:
  assumes "served h lk c scope bs w"
  shows "serving h lk c scope bs (peer w)" "\<not> sc_ReadOnly scope" "view (fp_volume (peer w)) bs = Some IDir"
    "host_quiet h" "vwf (fp_volume (peer w))" "id_ok (fsID c)" "sc_FilesystemID scope = fsID c"
  using assms by (auto simp: served_def serving_def scope_tree_def)

lemma servedI:
  assumes "served h lk c scope bs w" "vwf v'"
    and "\<forall>q. view v' (bs @ q) = T q" "T [] = Some IDir" "\<forall>us. T us \<noteq> None \<longrightarrow> list_all good_seg us"
  shows "served h lk c scope bs (peer_after v' w q)" "scope_tree bs (peer_after v' w q) = T"
  using assms serving_after[of h lk c scope bs w v' q] spec[OF assms(3), of "[]"]
  by (auto simp: served_def fun_eq_iff)

lemma ack_served:
  assumes "served h lk c scope bs w" "guest_request (fsID c) req" "request_op req \<noteq> OpFileUpload"
    and "dispatch h (fp_tick (peer w)) (request_op req) scope (body_of c req) (fp_volume (peer w)) =
           (httpjson_OK (JObj []), v')"
  shows "call (fs_platform h lk) c (request_op req) req dec_AckResponse () w = (Inr (), peer_after v' w (post_of c req))"
proof -
  note s = servedD[OF assms(1)]
  have "http_Do (fs_platform h lk) (post_of c req) w =
      (Inr (client_response lk (httpjson_OK (JObj []))), peer_after v' w (post_of c req))"
    using assms s by (intro request_served) simp_all
  then show ?thesis
    by (rule call_served[OF s(1)]) (simp_all add: dec_AckResponse_def dec_struct_def maxJSONResponseBytes_def)
qed

text \<open>An acknowledged operation that turns the tree into \<open>T\<close>.\<close>

lemma ack_tree:
  assumes "served h lk c scope bs w" "guest_request (fsID c) req" "request_op req \<noteq> OpFileUpload"
    and "dispatch h (fp_tick (peer w)) (request_op req) scope (body_of c req) (fp_volume (peer w)) =
           (httpjson_OK (JObj []), v')"
    and "vwf v'" "\<forall>q. view v' (bs @ q) = T q" "T [] = Some IDir" "\<forall>us. T us \<noteq> None \<longrightarrow> list_all good_seg us"
  shows "\<exists>w'. call (fs_platform h lk) c (request_op req) req dec_AckResponse () w = (Inr (), w') \<and>
     served h lk c scope bs w' \<and> scope_tree bs w' = T"
  using ack_served[OF assms(1-4)] servedI[OF assms(1,5-8)] by blast

lemma refused_served:
  assumes "served h lk c scope bs w" "guest_request (fsID c) req" "request_op req \<noteq> OpFileUpload"
    and "dispatch h (fp_tick (peer w)) (request_op req) scope (body_of c req) (fp_volume (peer w)) = (rp, v')"
    and "\<not> is_2xx (rp_Status rp)"
  shows "\<exists>err. call (fs_platform h lk) c (request_op req) req dec zero w = (Inl err, peer_after v' w (post_of c req)) \<and>
     (\<forall>s. errors_is err s \<longleftrightarrow> status_sentinel (rp_Status rp) = Some s) \<and>
     (is_retry err \<longleftrightarrow> rp_Status rp = 429 \<or> rp_Status rp = 503)"
proof -
  note s = servedD[OF assms(1)]
  have "http_Do (fs_platform h lk) (post_of c req) w = (Inr (client_response lk rp), peer_after v' w (post_of c req))"
    using assms s by (intro request_served) simp_all
  then show ?thesis by (rule call_refused_by[OF s(1) _ assms(5)])
qed

text \<open>The operation a dispatched name selects.\<close>

lemma dispatch_ops:
  "dispatch h t OpReadMetadata = handleReadMetadata h t" "dispatch h t OpListDirectory = handleListDirectory h t"
  "dispatch h t OpCopyFile = handleCopyFile h t" "dispatch h t OpMoveFile = handleMoveFile h t"
  "dispatch h t OpRemoveFile = handleRemoveFile h t" "dispatch h t OpMakeDirectory = handleMakeDirectory h t"
  "dispatch h t OpMoveDirectory = handleMoveDirectory h t" "dispatch h t OpRemoveDirectory = handleRemoveDirectory h t"
  "dispatch h t OpFileDownload = handleFileDownload h t"
  by (simp_all add: fun_eq_iff dispatch_def op_names fs_op_defs)

lemma path_served:
  assumes "served h lk c scope bs w" "guest_request (fsID c) req" "list_all good_seg us"
    and "json_get ''path'' (marshal req) = Some (JStr (slash_path us))"
  shows "with_path h scope (body_of c req) v k = k (slash_path us) (bs @ us)"
  using with_path_served[OF servedD(1)[OF assms(1)] assms(3)]
    pathFromBody_marshal[OF guest_json_ok[OF servedD(6)[OF assms(1)] assms(2)] assms(4)]
  by simp

lemma scope_tree_def': "scope_tree bs w = (\<lambda>us. view (fp_volume (peer w)) (bs @ us))"
  by (simp add: fun_eq_iff scope_tree_def)

declare stamp_known [simp del]

lemma guest_meta_stamp:
  "stamp c OpMakeDirectory = Inr (fsID c, guest_meta ''write'')" "stamp c OpRemoveDirectory = Inr (fsID c, guest_meta ''write'')"
  "stamp c OpMoveDirectory = Inr (fsID c, guest_meta ''write'')" "stamp c OpRemoveFile = Inr (fsID c, guest_meta ''write'')"
  "stamp c OpCopyFile = Inr (fsID c, guest_meta ''write'')" "stamp c OpMoveFile = Inr (fsID c, guest_meta ''write'')"
  "stamp c OpFileUpload = Inr (fsID c, guest_meta ''write'')" "stamp c OpReadMetadata = Inr (fsID c, guest_meta ''read'')"
  "stamp c OpListDirectory = Inr (fsID c, guest_meta ''read'')" "stamp c OpFileDownload = Inr (fsID c, guest_meta ''read'')"
  by (simp_all add: guest_meta_def stamp_known)

text \<open>A path that does not exist, with no file on the way to it, is just missing.\<close>

lemma vlookup_ENOENT:
  "vlookup p v = Inl e \<Longrightarrow> (\<And>q b. prefix q p \<Longrightarrow> view v q \<noteq> Some (IFile b)) \<Longrightarrow> e = ENOENT"
proof (induction p v rule: vlookup.induct)
  case (2 s ss b)
  then show ?case using "2.prems"(2)[of "[]" b] by simp
next
  case (3 s ss es)
  show ?case
  proof (cases "map_of es s")
    case (Some n)
    have "view n q \<noteq> Some (IFile b)" if "prefix q ss" for q b
      using "3.prems"(2)[of "s # q" b] Some that by simp
    then show ?thesis using "3.IH"[OF Some] "3.prems"(1) Some by simp
  qed (use "3.prems" in simp)
qed simp

lemma remove_tree_ok:
  assumes "p \<noteq> []" "\<And>q b. prefix q (butlast p) \<Longrightarrow> view v q \<noteq> Some (IFile b)"
  obtains v' where "remove_tree p v = (None, v')"
proof -
  let ?f = "in_dir (\<lambda>es. Inr (del_entry (last p) es))"
  show thesis
  proof (cases "vlookup (butlast p) v")
    case (Inl e)
    have "e = ENOENT" using Inl assms(2) by (rule vlookup_ENOENT)
    then show thesis using that[of v] vmodify_error(1)[OF Inl] assms(1) by (simp add: remove_tree_def)
  next
    case (Inr d)
    then obtain es where "d = VDir es"
      using assms(2)[of "butlast p"] by (cases d) (auto simp: view_def)
    then have "?f d = Inr (VDir (del_entry (last p) es))" by (simp add: in_dir_def)
    then obtain v' where "vmodify (butlast p) ?f v = Inr v'" using vmodify_ok[OF Inr] by blast
    then show thesis using that[of v'] assms(1) by (simp add: remove_tree_def)
  qed
qed

subsection \<open>Directories\<close>

lemma MakeDirectory_served:
  assumes "served h lk c scope bs w" "wire_path us"
    and "\<forall>q b. prefix q us \<longrightarrow> scope_tree bs w q \<noteq> Some (IFile b)"
  shows "\<exists>w'. MakeDirectory (fs_platform h lk) c (slash_path us) w = (Inr (), w') \<and> served h lk c scope bs w' \<and>
     scope_tree bs w' = (\<lambda>q. if prefix q us then Some IDir else scope_tree bs w q)"
proof -
  note s = servedD[OF assms(1)]
  let ?v = "fp_volume (peer w)" and ?req = "MakeDirectoryRequest (fsID c) (slash_path us) (guest_meta ''write'')"
  let ?T = "\<lambda>q. if prefix q us then Some IDir else scope_tree bs w q"
  have g: "list_all good_seg us" "guest_request (fsID c) ?req" using assms(2) by (simp_all add: wire_path_def)
  have "view ?v q \<noteq> Some (IFile b)" if pre: "prefix q (bs @ us)" for q b
  proof (cases "prefix q bs")
    case True
    then obtain r where "bs = q @ r" by (auto simp: prefix_def)
    then show ?thesis using view_file_below[of ?v q r b] s(3) by auto
  next
    case False
    then obtain r where "q = bs @ r" "prefix r us" using pre by (auto simp: prefix_append)
    then show ?thesis using assms(3) by (simp add: scope_tree_def)
  qed
  then obtain v' where v': "mkdirs (bs @ us) ?v = Inr v'" using mkdirs_ok[of "bs @ us" ?v] by blast
  have "dispatch h (fp_tick (peer w)) (request_op ?req) scope (body_of c ?req) ?v = (httpjson_OK (JObj []), v')"
    unfolding request_op.simps dispatch_ops handleMakeDirectory_def
    by (subst path_served[OF assms(1) g(2,1)]) (simp_all add: quiet_calls[OF s(4)] v' os_result_def ack_reply_def)
  moreover have "\<forall>q. view v' (bs @ q) = ?T q" using mkdirs_view[OF v'] by (simp add: scope_tree_def)
  moreover have "\<forall>q. ?T q \<noteq> None \<longrightarrow> list_all good_seg q"
    using assms(1) good_prefix[OF g(1)] by (simp add: served_def)
  ultimately have "\<exists>w'. call (fs_platform h lk) c (request_op ?req) ?req dec_AckResponse () w = (Inr (), w') \<and>
      served h lk c scope bs w' \<and> scope_tree bs w' = ?T"
    using assms(1) g(2) vwf_mkdirs[OF s(5) v'] by (intro ack_tree) (simp_all add: op_defs)
  then show ?thesis by (simp add: MakeDirectory_def guest_meta_stamp del: marshal.simps)
qed

lemma RemoveDirectory_served:
  assumes "served h lk c scope bs w" "wire_path us" "us \<noteq> []" "parents_free (scope_tree bs w) us"
  shows "\<exists>w'. RemoveDirectory (fs_platform h lk) c (slash_path us) w = (Inr (), w') \<and> served h lk c scope bs w' \<and>
     scope_tree bs w' = (\<lambda>q. if prefix us q then None else scope_tree bs w q)"
proof -
  note s = servedD[OF assms(1)]
  let ?v = "fp_volume (peer w)" and ?req = "RemoveDirectoryRequest (fsID c) (slash_path us) (guest_meta ''write'')"
  let ?T = "\<lambda>q. if prefix us q then None else scope_tree bs w q"
  have g: "list_all good_seg us" "guest_request (fsID c) ?req" using assms(2) by (simp_all add: wire_path_def)
  obtain v' where v': "remove_tree (bs @ us) ?v = (None, v')"
    using remove_tree_ok[of "bs @ us" ?v] parents_free_parent[OF s(3) _ assms(3)] assms(3,4)
    by (auto simp: scope_tree_def' butlast_append)
  have "dispatch h (fp_tick (peer w)) (request_op ?req) scope (body_of c ?req) ?v = (httpjson_OK (JObj []), v')"
    unfolding request_op.simps dispatch_ops handleRemoveDirectory_def
    by (subst path_served[OF assms(1) g(2,1)]) (simp_all add: quiet_calls[OF s(4)] v' ack_reply_def)
  moreover have "\<forall>q. view v' (bs @ q) = ?T q" using remove_tree_view[OF v'] by (simp add: scope_tree_def)
  moreover have "\<forall>q. ?T q \<noteq> None \<longrightarrow> list_all good_seg q" "?T [] = Some IDir"
    using assms(1,3) by (simp_all add: served_def)
  ultimately have "\<exists>w'. call (fs_platform h lk) c (request_op ?req) ?req dec_AckResponse () w = (Inr (), w') \<and>
      served h lk c scope bs w' \<and> scope_tree bs w' = ?T"
    using assms(1) g(2) vwf_calls(4)[OF s(5) v'] by (intro ack_tree) (simp_all add: op_defs)
  then show ?thesis by (simp add: RemoveDirectory_def guest_meta_stamp del: marshal.simps)
qed

subsection \<open>Files\<close>

lemma tree_names: "served h lk c scope bs w \<Longrightarrow> scope_tree bs w us \<noteq> None \<Longrightarrow> list_all good_seg us"
  by (simp add: served_def)

lemma tree_root: "served h lk c scope bs w \<Longrightarrow> scope_tree bs w [] = Some IDir"
  by (simp add: served_def)

lemma RemoveFile_served:
  assumes "served h lk c scope bs w" "wire_path us" "scope_tree bs w us = Some (IFile b)"
  shows "\<exists>w'. RemoveFile (fs_platform h lk) c (slash_path us) w = (Inr (), w') \<and> served h lk c scope bs w' \<and>
     scope_tree bs w' = (scope_tree bs w)(us := None)"
proof -
  note s = servedD[OF assms(1)]
  let ?v = "fp_volume (peer w)" and ?req = "RemoveFileRequest (fsID c) (slash_path us) (guest_meta ''write'')"
  have g: "list_all good_seg us" "guest_request (fsID c) ?req" using assms(2) by (simp_all add: wire_path_def)
  have us: "us \<noteq> []" using assms(3) tree_root[OF assms(1)] by auto
  obtain v' where v': "remove_node (bs @ us) ?v = Inr v'"
    using remove_file_ok[of ?v "bs @ us" b] assms(3) us by (auto simp: scope_tree_def)
  have "dispatch h (fp_tick (peer w)) (request_op ?req) scope (body_of c ?req) ?v = (httpjson_OK (JObj []), v')"
    unfolding request_op.simps dispatch_ops handleRemoveFile_def
    by (subst path_served[OF assms(1) g(2,1)]) (simp_all add: quiet_calls[OF s(4)] v' os_result_def ack_reply_def)
  moreover have "\<forall>q. view v' (bs @ q) = ((scope_tree bs w)(us := None)) q"
    using remove_node_view(1)[OF v'] by (simp add: scope_tree_def)
  ultimately have "\<exists>w'. call (fs_platform h lk) c (request_op ?req) ?req dec_AckResponse () w = (Inr (), w') \<and>
      served h lk c scope bs w' \<and> scope_tree bs w' = (scope_tree bs w)(us := None)"
    using assms(1) g(2) us vwf_calls(3)[OF s(5) v'] tree_names[OF assms(1)] tree_root[OF assms(1)]
    by (intro ack_tree) (simp_all add: op_defs)
  then show ?thesis by (simp add: RemoveFile_def guest_meta_stamp del: marshal.simps)
qed

lemma missing_lookup:
  assumes "served h lk c scope bs w" "parents_free (scope_tree bs w) us" "scope_tree bs w us = None"
  shows "vlookup (bs @ us) (fp_volume (peer w)) = Inl ENOENT"
proof -
  let ?v = "fp_volume (peer w)"
  obtain e where e: "vlookup (bs @ us) ?v = Inl e"
    using assms(3) by (cases "vlookup (bs @ us) ?v") (auto simp: scope_tree_def view_def)
  have us: "us \<noteq> []" using assms(3) tree_root[OF assms(1)] by auto
  have "view ?v q \<noteq> Some (IFile b)" if "prefix q (bs @ us)" for q b
  proof (cases "q = bs @ us")
    case True
    then show ?thesis using assms(3) by (simp add: scope_tree_def)
  next
    case False
    then have "prefix q (butlast (bs @ us))" using prefix_butlast_iff[of "bs @ us" q] us that by simp
    then show ?thesis
      using parents_free_parent[OF servedD(3)[OF assms(1)] _ us] assms(2) us
      by (auto simp: scope_tree_def' butlast_append)
  qed
  then show ?thesis using vlookup_ENOENT[OF e] e by simp
qed

lemma below_nondir: "view v p \<noteq> Some IDir \<Longrightarrow> x \<noteq> [] \<Longrightarrow> view v (p @ x) = None"
  using view_parent[of v p x] by (cases "view v (p @ x)") auto

text \<open>Two paths of one request.\<close>

lemma src_dst_served:
  assumes "served h lk c scope bs w" "list_all good_seg us" "list_all good_seg ws"
    and "srcDstFromBody body = Some \<lparr>sd_Source = slash_path us, sd_Destination = slash_path ws, sd_OverwriteExisting = ov\<rparr>"
    and "ov \<or> isl (vlookup (bs @ ws) v)" "mkdirs (butlast (bs @ ws)) v = Inr v1"
  shows "applySrcDstOp h t scope body f v = ack_reply (f (bs @ us) (bs @ ws) v1)"
  using assms(4-) resolve_served[OF servedD(1)[OF assms(1)] assms(2)] resolve_served[OF servedD(1)[OF assms(1)] assms(3)]
  by (auto simp: applySrcDstOp_def resolveSrcDst_def Let_def quiet_calls[OF servedD(4)[OF assms(1)]] os_result_def)

lemma MoveFile_served:
  assumes "served h lk c scope bs w" "wire_path us" "wire_path ws" "us \<noteq> ws"
    and "scope_tree bs w us = Some (IFile b)" "scope_tree bs w ws \<noteq> Some IDir" "parents_free (scope_tree bs w) ws"
  shows "\<exists>w'. MoveFile (fs_platform h lk) c (slash_path us) (slash_path ws) w = (Inr (), w') \<and> served h lk c scope bs w' \<and>
     scope_tree bs w' = (with_parents (scope_tree bs w) ws)(us := None, ws \<mapsto> IFile b)"
proof -
  note s = servedD[OF assms(1)]
  let ?v = "fp_volume (peer w)" and ?T = "scope_tree bs w" and ?p = "bs @ us" and ?q = "bs @ ws"
  let ?req = "MoveFileRequest (fsID c) (slash_path us) (slash_path ws) True (guest_meta ''write'')"
  let ?T' = "(with_parents ?T ws)(us := None, ws \<mapsto> IFile b)"
  have g: "list_all good_seg us" "list_all good_seg ws" "guest_request (fsID c) ?req"
    using assms(2,3) by (simp_all add: wire_path_def)
  have ne: "us \<noteq> []" "ws \<noteq> []" using assms(5,6) tree_root[OF assms(1)] by auto
  have np: "\<not> strict_prefix us ws" using parents_not_file[OF assms(7,5)] .
  obtain v1 where v1: "mkdirs (butlast ?q) ?v = Inr v1" "\<forall>q. view v1 (bs @ q) = with_parents ?T ws q" "vwf ?v \<longrightarrow> vwf v1"
    unfolding scope_tree_def' by (rule mkdirs_tree[OF s(3) _ ne(2)]) (use assms(7) in \<open>simp_all add: scope_tree_def'\<close>)
  have src: "view v1 ?p = Some (IFile b)" using v1(2) assms(5) np by (simp add: with_parents_keep)
  have dst: "view v1 ?q = ?T ws" using v1(2) by (simp add: with_parents_def)
  have pq: "\<not> prefix ?p ?q" using np assms(4) by (simp add: strict_prefix_def)
  have "view v1 (butlast ?q) = Some IDir" using mkdirs_view[OF v1(1), of "butlast ?q"] by simp
  moreover have "view v1 ?q = None \<or> (\<exists>b' c. IFile b = IFile b' \<and> view v1 ?q = Some (IFile c))"
    using assms(6) dst by (cases "?T ws"; cases "the (?T ws)") auto
  ultimately obtain v2 where v2: "rename_node ?p ?q v1 = Inr v2" using rename_ok[OF src pq] by blast
  have "?p \<noteq> ?q" using assms(4) by simp
  note rv = rename_node_view(1)[OF v2 this]
  have below: "view v1 (?p @ x) = (if x = [] then Some (IFile b) else None)" for x
    using below_nondir[of v1 ?p x] src by simp
  have tr: "\<forall>q. view v2 (bs @ q) = ?T' q"
  proof
    fix q
    show "view v2 (bs @ q) = ?T' q"
    proof (cases "prefix ws q")
      case True
      then obtain x where q: "q = ws @ x" by (auto simp: prefix_def)
      have "?T (ws @ x) = None" if "x \<noteq> []"
        using below_nondir[of ?v ?q x] that assms(6) by (simp add: scope_tree_def)
      then show ?thesis
        using rv[of "bs @ q"] below[of x] q by (auto simp: with_parents_def strict_prefix_def)
    next
      case False
      moreover have "prefix us q \<Longrightarrow> q \<noteq> us \<Longrightarrow> with_parents ?T ws q = None"
        using below v1(2) by (auto simp: prefix_def split: if_splits)
      ultimately show ?thesis using rv[of "bs @ q"] v1(2) by auto
    qed
  qed
  have d: "dispatch h (fp_tick (peer w)) (request_op ?req) scope (body_of c ?req) ?v = (httpjson_OK (JObj []), v2)"
    unfolding request_op.simps dispatch_ops handleMoveFile_def
    by (subst src_dst_served[OF assms(1) g(1,2) srcDstFromBody_marshal(2)[OF guest_json_ok[OF s(6) g(3)]] _ v1(1)])
       (simp_all add: quiet_calls[OF s(4)] v2 os_result_def ack_reply_def)
  have nm: "\<forall>q. ?T' q \<noteq> None \<longrightarrow> list_all good_seg q"
    using with_parents_names[of ?T ws] tree_names[OF assms(1)] g(2) by auto
  have rt: "?T' [] = Some IDir" using ne with_parents_root[of ?T, OF tree_root[OF assms(1)]] by simp
  have "request_op ?req \<noteq> OpFileUpload" by (simp add: op_defs)
  then have "\<exists>w'. call (fs_platform h lk) c (request_op ?req) ?req dec_AckResponse () w = (Inr (), w') \<and>
      served h lk c scope bs w' \<and> scope_tree bs w' = ?T'"
    by (rule ack_tree[where T = ?T', OF assms(1) g(3) _ d _ tr rt nm]) (use vwf_calls(5)[OF _ v2] v1(3) s(5) in blast)
  then show ?thesis by (simp only: MoveFile_def guest_meta_stamp sum.case prod.case request_op.simps)
qed

text \<open>
  A copy reads its source after the destination was truncated, so a copy onto itself leaves an
  empty file.
\<close>

lemma CopyFile_served:
  assumes "served h lk c scope bs w" "wire_path us" "wire_path ws"
    and "scope_tree bs w us = Some (IFile b)" "scope_tree bs w ws \<noteq> Some IDir" "parents_free (scope_tree bs w) ws"
  shows "\<exists>w'. CopyFile (fs_platform h lk) c (slash_path us) (slash_path ws) w = (Inr (), w') \<and> served h lk c scope bs w' \<and>
     scope_tree bs w' = (with_parents (scope_tree bs w) ws)(ws \<mapsto> IFile (if us = ws then [] else b))"
proof -
  note s = servedD[OF assms(1)]
  let ?v = "fp_volume (peer w)" and ?T = "scope_tree bs w" and ?p = "bs @ us" and ?q = "bs @ ws"
  let ?req = "CopyFileRequest (fsID c) (slash_path us) (slash_path ws) True (guest_meta ''write'')"
  let ?b = "if us = ws then [] else b"
  let ?T' = "(with_parents ?T ws)(ws \<mapsto> IFile ?b)"
  have g: "list_all good_seg us" "list_all good_seg ws" "guest_request (fsID c) ?req"
    using assms(2,3) by (simp_all add: wire_path_def)
  have ne: "ws \<noteq> []" using assms(5) tree_root[OF assms(1)] by auto
  have np: "\<not> strict_prefix us ws" using parents_not_file[OF assms(6,4)] .
  obtain v1 v2 where v1: "mkdirs (butlast ?q) ?v = Inr v1" and v2: "create_file ?q v1 = Inr v2"
    and wr: "\<forall>b q. view (write_bytes ?q b v2) (bs @ q) = ((with_parents ?T ws)(ws \<mapsto> IFile b)) q"
    and wf: "\<forall>b. vwf ?v \<longrightarrow> vwf (write_bytes ?q b v2)" and t1: "\<forall>q. view v1 (bs @ q) = with_parents ?T ws q"
    and t2: "view v2 = (view v1)(?q \<mapsto> IFile [])"
    unfolding scope_tree_def' by (rule write_tree[OF s(3) _ ne]) (use assms(5,6) in \<open>simp_all add: scope_tree_def'\<close>)
  have src: "view v1 ?p = Some (IFile b)" using t1 assms(4) np by (simp add: with_parents_keep)
  then have l1: "vlookup ?p v1 = Inr (VFile b)" by (simp add: view_file_iff)
  have "view v2 ?p = Some (IFile ?b)" using t2 src by simp
  then have l2: "vlookup ?p v2 = Inr (VFile ?b)" by (simp add: view_file_iff)
  have copy: "copyFileContents (fh_os h t) ?p ?q v1 = (None, write_bytes ?q ?b v2)" for t
    using l1 l2 v2 by (simp add: copyFileContents_def quiet_calls[OF s(4)] os_result_def)
  have d: "dispatch h (fp_tick (peer w)) (request_op ?req) scope (body_of c ?req) ?v =
      (httpjson_OK (JObj []), write_bytes ?q ?b v2)"
    unfolding request_op.simps dispatch_ops handleCopyFile_def
    by (subst src_dst_served[OF assms(1) g(1,2) srcDstFromBody_marshal(1)[OF guest_json_ok[OF s(6) g(3)]] _ v1])
       (simp_all only: copy, simp_all add: ack_reply_def)
  have nm: "\<forall>q. ?T' q \<noteq> None \<longrightarrow> list_all good_seg q"
    using with_parents_names[of ?T ws] tree_names[OF assms(1)] g(2) by auto
  have tr: "\<forall>q. view (write_bytes ?q ?b v2) (bs @ q) = ?T' q" using wr by blast
  have rt: "?T' [] = Some IDir" using ne with_parents_root[of ?T, OF tree_root[OF assms(1)]] by simp
  have "request_op ?req \<noteq> OpFileUpload" by (simp add: op_defs)
  then have "\<exists>w'. call (fs_platform h lk) c (request_op ?req) ?req dec_AckResponse () w = (Inr (), w') \<and>
      served h lk c scope bs w' \<and> scope_tree bs w' = ?T'"
    by (rule ack_tree[where T = ?T', OF assms(1) g(3) _ d _ tr rt nm]) (use wf s(5) in blast)
  then show ?thesis by (simp only: CopyFile_def guest_meta_stamp sum.case prod.case request_op.simps)
qed

text \<open>A moved directory takes its subtree along.\<close>

lemma MoveDirectory_served:
  assumes "served h lk c scope bs w" "wire_path us" "wire_path ws" "us \<noteq> []" "\<not> prefix us ws"
    and "scope_tree bs w us = Some IDir" "scope_tree bs w ws = None" "parents_free (scope_tree bs w) ws"
  shows "\<exists>w'. MoveDirectory (fs_platform h lk) c (slash_path us) (slash_path ws) w = (Inr (), w') \<and>
     served h lk c scope bs w' \<and> scope_tree bs w' = move_tree (scope_tree bs w) us ws"
proof -
  note s = servedD[OF assms(1)]
  let ?v = "fp_volume (peer w)" and ?T = "scope_tree bs w" and ?p = "bs @ us" and ?q = "bs @ ws"
  let ?req = "MoveDirectoryRequest (fsID c) (slash_path us) (slash_path ws) (guest_meta ''write'')"
  have g: "list_all good_seg us" "list_all good_seg ws" "guest_request (fsID c) ?req"
    using assms(2,3) by (simp_all add: wire_path_def)
  have ne: "ws \<noteq> []" using assms(7) tree_root[OF assms(1)] by auto
  obtain v1 where v1: "mkdirs (butlast ?q) ?v = Inr v1" "\<forall>q. view v1 (bs @ q) = with_parents ?T ws q" "vwf ?v \<longrightarrow> vwf v1"
    unfolding scope_tree_def' by (rule mkdirs_tree[OF s(3) _ ne]) (use assms(8) in \<open>simp_all add: scope_tree_def'\<close>)
  have keep: "with_parents ?T ws (us @ x) = ?T (us @ x)" for x
    using assms(5) by (auto simp: with_parents_def strict_prefix_def prefix_def)
  have src: "view v1 ?p = Some IDir" using v1(2) keep[of "[]"] assms(6) by simp
  have "view v1 (butlast ?q) = Some IDir" using mkdirs_view[OF v1(1), of "butlast ?q"] by simp
  moreover have "view v1 ?q = None" using v1(2) assms(7) by (simp add: with_parents_def)
  moreover have pq: "\<not> prefix ?p ?q" using assms(5) by simp
  ultimately obtain v2 where v2: "rename_node ?p ?q v1 = Inr v2" using rename_ok[OF src pq] by blast
  have "?p \<noteq> ?q" using pq by auto
  note rv = rename_node_view(1)[OF v2 this]
  have tree: "\<forall>q. view v2 (bs @ q) = move_tree ?T us ws q"
    using rv v1(2) keep by (simp add: move_tree_def)
  have miss: "isl (vlookup ?q ?v)" using assms(7) by (auto simp: scope_tree_def view_def split: sum.splits)
  have d: "dispatch h (fp_tick (peer w)) (request_op ?req) scope (body_of c ?req) ?v = (httpjson_OK (JObj []), v2)"
    unfolding request_op.simps dispatch_ops handleMoveDirectory_def
    by (subst src_dst_served[OF assms(1) g(1,2) srcDstFromBody_marshal(3)[OF guest_json_ok[OF s(6) g(3)]] _ v1(1)])
       (simp_all add: quiet_calls[OF s(4)] v2 os_result_def ack_reply_def miss)
  have nm: "\<forall>q. move_tree ?T us ws q \<noteq> None \<longrightarrow> list_all good_seg q"
  proof (intro allI impI)
    fix q assume m: "move_tree ?T us ws q \<noteq> None"
    show "list_all good_seg q"
    proof (cases "prefix ws q")
      case True
      then obtain x where "q = ws @ x" by (auto simp: prefix_def)
      then show ?thesis using m tree_names[OF assms(1), of "us @ x"] g(2) by (simp add: move_tree_def)
    next
      case False
      then have "with_parents ?T ws q \<noteq> None" using m by (simp add: move_tree_def split: if_splits)
      then show ?thesis using with_parents_names[of ?T ws] tree_names[OF assms(1)] g(2) by blast
    qed
  qed
  have rt: "move_tree ?T us ws [] = Some IDir"
    using assms(4) ne tree_root[OF assms(1)] by (simp add: move_tree_def with_parents_root)
  have "request_op ?req \<noteq> OpFileUpload" by (simp add: op_defs)
  then have "\<exists>w'. call (fs_platform h lk) c (request_op ?req) ?req dec_AckResponse () w = (Inr (), w') \<and>
      served h lk c scope bs w' \<and> scope_tree bs w' = move_tree ?T us ws"
    by (rule ack_tree[OF assms(1) g(3) _ d _ tree rt nm]) (use vwf_calls(5)[OF _ v2] v1(3) s(5) in blast)
  then show ?thesis by (simp only: MoveDirectory_def guest_meta_stamp sum.case prod.case request_op.simps)
qed

subsection \<open>Uploads\<close>

lemma pipe_Write_err: "pipe_Write x pw = (Some e, pw') \<Longrightarrow> e = Sentinel Io_ErrClosedPipe"
  by (auto simp: pipe_Write_def split: option.splits nat.splits)

text \<open>The writer of an upload whose source ends cleanly fails only because its pipe was closed.\<close>

lemma copy_loop_err:
  "fin sr = EOF \<Longrightarrow> copy_loop cap sr pw = (Some e, pw') \<Longrightarrow> isPipeClosure e"
proof (induction cap sr pw arbitrary: e pw' rule: copy_loop.induct)
  case (1 cap sr pw)
  obtain buf er sr' where st: "body_read sr (nat (sourceChunkSize cap)) = (buf, er, sr')"
    by (cases "body_read sr (nat (sourceChunkSize cap))") auto
  obtain we pw1 where wr: "(if buf \<noteq> [] then pipe_Write (FileChunk buf) pw else (None, pw)) = (we, pw1)" by fastforce
  note unf = copy_loop.simps[of cap sr pw]
  show ?case
  proof (cases we)
    case None
    show ?thesis
    proof (cases er)
      case er: None
      have "fin sr' = EOF" using body_read_fin[OF st] "1.prems"(1) by simp
      moreover have "copy_loop cap sr' pw1 = (Some e, pw')"
        using "1.prems"(2) unfolding unf st prod.case wr by (simp add: None er)
      ultimately show ?thesis
        using "1.IH"[OF st[symmetric] refl wr[symmetric]] None er by simp
    next
      case (Some x)
      then have "x = EOF" using resp_body.rd_end[of sr "nat (sourceChunkSize cap)" buf x sr'] st "1.prems"(1) by simp
      then show ?thesis using "1.prems"(2) unfolding unf st prod.case wr by (simp add: None Some)
    qed
  next
    case (Some x)
    then have "x = Sentinel Io_ErrClosedPipe" using wr pipe_Write_err by (metis option.distinct(1) prod.inject)
    then show ?thesis using "1.prems"(2) unfolding unf st prod.case wr by (auto simp: Some isPipeClosure_def)
  qed
qed

lemma upload_writer_err:
  assumes "fin sr = EOF" "fst (upload_writer c fs am p sr n ov bud) = Some e"
  shows "isPipeClosure e"
  using assms(2)
  by (auto simp: upload_writer_def writeUploadMultipart_def Let_def isPipeClosure_def simp del: marshal.simps
      split: prod.splits option.splits if_splits dest!: pipe_Write_err
      dest: copy_loop_err[OF assms(1), unfolded isPipeClosure_def])

lemma file_reply_ok:
  assumes "host_quiet h" "vlookup p v = Inr nd"
  shows "\<exists>j. file_reply h t scope rel p v = httpjson_OK j"
  using assms(2) by (auto simp: file_reply_def fileMeta_def quiet_calls[OF assms(1)])

lemma Upload_served:
  assumes "served h lk c scope bs w" "wire_path us" "us \<noteq> []"
    and "scope_tree bs w us \<noteq> Some IDir" "parents_free (scope_tree bs w) us"
    and "fin sr = EOF" "length (body_content sr) \<le> maxUploadBytes"
  shows "\<exists>w'. Upload (fs_platform h lk) c (slash_path us) sr (int (length (body_content sr))) True w = (None, w') \<and>
     served h lk c scope bs w' \<and>
     scope_tree bs w' = (with_parents (scope_tree bs w) us)(us \<mapsto> IFile (body_content sr))"
proof -
  note s = servedD[OF assms(1)]
  let ?v = "fp_volume (peer w)" and ?T = "scope_tree bs w" and ?p = "bs @ us" and ?b = "body_content sr"
  let ?n = "int (length ?b)" and ?s = "fp_server (peer w)" and ?t = "fp_tick (peer w)"
  let ?T' = "(with_parents ?T us)(us \<mapsto> IFile ?b)"
  let ?q = "upload_request c (fsID c) (guest_meta ''write'') (slash_path us) sr ?n True"
  have n: "is_int64 ?n" using assms(7) by (simp add: is_int64_def maxUploadBytes_def)
  have g: "list_all good_seg us" using assms(2) by (simp add: wire_path_def)
  obtain v1 v2 where v1: "mkdirs (butlast ?p) ?v = Inr v1" and v2: "create_file ?p v1 = Inr v2"
    and wr: "\<forall>b q. view (write_bytes ?p b v2) (bs @ q) = ((with_parents ?T us)(us \<mapsto> IFile b)) q"
    and wf: "\<forall>b. vwf ?v \<longrightarrow> vwf (write_bytes ?p b v2)"
    unfolding scope_tree_def' by (rule write_tree[OF s(3) _ assms(3)]) (use assms(4,5) in \<open>simp_all add: scope_tree_def'\<close>)
  let ?v3 = "write_bytes ?p ?b v2"
  have "view ?v3 ?p = Some (IFile ?b)" using wr by simp
  then have l3: "vlookup ?p ?v3 = Inr (VFile ?b)" by (simp add: view_file_iff)
  obtain j where j: "file_reply h ?t scope (slash_path us) ?p ?v3 = httpjson_OK j"
    using file_reply_ok[OF s(4) l3] by blast
  have st: "store_guest h ?t scope (fsID c) (slash_path us) ?n True ?b ?v = (httpjson_OK j, ?v3)"
    using assms(7) v1 v2 j
    by (simp add: store_guest_def resolve_served[OF s(1) g] store_upload_def Let_def quiet_calls[OF s(4)] os_result_def)
  have az: "authorize ?s opFileUpload (fsID c) (fsID c) = Inr scope"
    using s(1,2,6) by (simp add: authorize_ok id_ok_def serving_def)
  have src: "source_error sr = None" using assms(6) by (simp add: source_error_def)
  have nm: "name_ok (slash_path us)" using assms(2) by (simp add: wire_path_def)
  note con = serving_connected[OF s(1)] nm n src
  have "route h ?t (peer_request ?q) (?s, ?v) = (httpjson_OK j, ?s, ?v3)"
    using route_upload(1)[OF con, of h ?t True ?v] by (simp add: az no_throttle[OF s(1)] st)
  from upload_exchanged[OF con this]
  have do: "http_Do (fs_platform h lk) ?q w = (Inr (client_response lk (httpjson_OK j)), peer_after ?v3 w ?q)"
    by (simp add: peer_after_def)
  obtain out e b' where ra: "ReadAll_limited (lk_deliver lk (httpjson_OK j)) maxErrorBodyBytes = (out, e, b')"
    by (metis prod.exhaust)
  have "rp_Length (httpjson_OK j) = None" by (simp add: httpjson_OK_def json_reply_def)
  then have "e = None"
    using ra link_body(2)[OF s(1), of "httpjson_OK j"]
      ReadAll_loop_content[of "\<lparr>src = lk_deliver lk (httpjson_OK j), remaining_N = maxErrorBodyBytes\<rparr>" "[]"]
    by (auto simp: ReadAll_limited_def limit_ends_def split: prod.splits)
  then have "Upload (fs_platform h lk) c (slash_path us) sr ?n True w = (None, peer_after ?v3 w ?q)"
    using do ra serving_url[OF s(1), of OpFileUpload] upload_writer_err[OF assms(6)]
    by (auto simp: Upload_def guest_meta_stamp Let_def client_response_def is_2xx_def
        fs_platform_def[of h lk, THEN arg_cong[where f = url_Parse]] simp del: marshal.simps split: option.splits)
  moreover have "\<forall>q. ?T' q \<noteq> None \<longrightarrow> list_all good_seg q"
    using with_parents_names[of ?T us] tree_names[OF assms(1)] g by auto
  moreover have "?T' [] = Some IDir" using assms(3) with_parents_root[of ?T, OF tree_root[OF assms(1)]] by simp
  ultimately show ?thesis
    using servedI[OF assms(1), of ?v3 ?T' ?q] wr wf s(5) by blast
qed

subsection \<open>Metadata\<close>

text \<open>The handle of a file: 32 hexadecimal digits.\<close>

definition handle_of :: "fsHost \<Rightarrow> Client \<Rightarrow> string list \<Rightarrow> string" where
  "handle_of h c us = uuidForRelPath h (fsID c) (slash_path us)"

lemma hex_digit_ascii: "n < 16 \<Longrightarrow> byte (hex_digit n) < 0x80"
  by (simp add: hex_digit_def)

lemma hex_ascii: "list_all (\<lambda>c. byte c < 0x80) (hex_EncodeToString bs)"
proof (induction bs)
  case (Cons c bs)
  have "byte c < 256" using of_char_mod_256[of c] by (metis mod_less_divisor zero_less_numeral)
  then have "byte c div 16 < 16" by (simp add: less_mult_imp_div_less)
  then show ?case using Cons hex_digit_ascii by (simp add: hex_EncodeToString_def)
qed (simp add: hex_EncodeToString_def)

lemma length_hex: "length (hex_EncodeToString bs) = 2 * length bs"
  by (induction bs) (simp_all add: hex_EncodeToString_def)

lemma handle_facts:
  assumes "host_quiet h"
  shows "utf8_valid (uuidForRelPath h fs rel)" "length (uuidForRelPath h fs rel) = 32"
  using assms utf8_valid_ascii[OF hex_ascii]
  by (simp_all add: uuidForRelPath_def length_hex host_quiet_def)

lemma handle_ok: "host_quiet h \<Longrightarrow> name_ok (handle_of h c us) \<and> handle_of h c us \<noteq> []"
  using handle_facts[of h "fsID c" "slash_path us"] by (auto simp: name_ok_def handle_of_def)

lemma json_ok_entry:
  assumes "host_quiet h" "utf8_valid rel"
  shows "json_ok (json_entry (node_entry h t scope rel p nd))"
  using assms handle_facts(1)[OF assms(1)]
  by (cases nd) (auto simp: node_entry_def json_wireFile_def json_wireDir_def omit_string_def omit_int_def host_quiet_def)

lemma bound_omit:
  "sum_list (map (\<lambda>(k, n). 6 * length k + n + 4) (map (map_prod id json_bound) (omit_string k s))) \<le> 6 * length k + 6 * length s + 6"
  "is_int64 i \<Longrightarrow> sum_list (map (\<lambda>(k, n). 6 * length k + n + 4) (map (map_prod id json_bound) (omit_int k i))) \<le> 6 * length k + 24"
  by (simp_all add: omit_string_def omit_int_def)

lemma bound_wireFile:
  assumes "is_int64 (wf_Size f)"
  shows "json_bound (json_wireFile f) \<le>
     6 * (length (wf_Path f) + length (wf_Mtime f) + length (wf_Mode f) + length (wf_MIME f) + length (wf_UUID f)) + 1000"
  using bound_omit(1)[of "''path''" "wf_Path f"] bound_omit(2)[OF assms, of "''size''"]
    bound_omit(1)[of "''mtime''" "wf_Mtime f"] bound_omit(1)[of "''mode''" "wf_Mode f"]
    bound_omit(1)[of "''mime''" "wf_MIME f"] bound_omit(1)[of "''uuid''" "wf_UUID f"]
  by (simp add: json_wireFile_def)

lemma bound_wireDir:
  "json_bound (json_wireDir d) \<le> 6 * (length (wd_Path d) + length (wd_Mtime d) + length (wd_Mode d)) + 1000"
  using bound_omit(1)[of "''path''" "wd_Path d"] bound_omit(1)[of "''mtime''" "wd_Mtime d"]
    bound_omit(1)[of "''mode''" "wd_Mode d"]
  by (simp add: json_wireDir_def)

lemma bound_entry:
  assumes "host_quiet h" "\<And>b. nd = VFile b \<Longrightarrow> is_int64 (int (length b))"
  shows "json_bound (json_entry (node_entry h t scope rel p nd)) \<le> 6 * length rel + 60000"
proof -
  let ?f = "\<lambda>b. \<lparr>wf_Path = rel, wf_Size = int (length b), wf_Mtime = fh_mtime h t p, wf_Mode = fh_mode h t p,
      wf_MIME = [], wf_UUID = uuidForRelPath h (sc_FilesystemID scope) rel\<rparr>"
  let ?d = "\<lparr>wd_Path = rel, wd_Mode = fh_mode h t p, wd_Mtime = fh_mtime h t p\<rparr>"
  have "length (fh_mtime h t p) \<le> 4096" "length (fh_mode h t p) \<le> 4096"
    "length (uuidForRelPath h (sc_FilesystemID scope) rel) = 32"
    using assms(1) handle_facts(2) by (simp_all add: host_quiet_def)
  note len = this
  show ?thesis
  proof (cases nd)
    case (VFile b)
    then show ?thesis using bound_wireFile[of "?f b"] assms(2)[OF VFile] len by (simp add: node_entry_def)
  next
    case (VDir es)
    then show ?thesis using bound_wireDir[of ?d] len by (simp add: node_entry_def)
  qed
qed

lemma sized_entry: "(\<And>b. nd = VFile b \<Longrightarrow> is_int64 (int (length b))) \<Longrightarrow> wire_sized (node_entry h t scope rel p nd)"
  by (cases nd) (simp_all add: node_entry_def)

lemma served_same:
  assumes "served h lk c scope bs w"
  shows "served h lk c scope bs (peer_after (fp_volume (peer w)) w q)"
    "scope_tree bs (peer_after (fp_volume (peer w)) w q) = scope_tree bs w"
  using servedI[OF assms servedD(5)[OF assms], of "scope_tree bs w" q] tree_root[OF assms] tree_names[OF assms]
  by (auto simp: scope_tree_def)

lemma ReadMetadata_served:
  assumes "served h lk c scope bs w" "wire_path us" "vlookup (bs @ us) (fp_volume (peer w)) = Inr nd"
    and "\<And>b. nd = VFile b \<Longrightarrow> is_int64 (int (length b))"
  shows "\<exists>w'. ReadMetadata (fs_platform h lk) c (slash_path us) w =
       (Inr (metadata_of_wire (node_entry h (fp_tick (peer w)) scope (slash_path us) (bs @ us) nd)), w') \<and>
     served h lk c scope bs w' \<and> scope_tree bs w' = scope_tree bs w"
proof -
  note s = servedD[OF assms(1)]
  let ?v = "fp_volume (peer w)" and ?t = "fp_tick (peer w)"
  let ?req = "ReadMetadataRequest (fsID c) (slash_path us) (guest_meta ''read'')"
  let ?e = "node_entry h ?t scope (slash_path us) (bs @ us) nd"
  have g: "list_all good_seg us" "guest_request (fsID c) ?req" "name_ok (slash_path us)"
    using assms(2) by (simp_all add: wire_path_def)
  have "dispatch h ?t (request_op ?req) scope (body_of c ?req) ?v = (httpjson_OK (json_entry ?e), ?v)"
    unfolding request_op.simps dispatch_ops handleReadMetadata_def
    by (subst path_served[OF assms(1) g(2,1)]) (simp_all add: quiet_calls[OF s(4)] assms(3))
  then have "http_Do (fs_platform h lk) (post_of c ?req) w =
      (Inr (client_response lk (httpjson_OK (json_entry ?e))), peer_after ?v w (post_of c ?req))"
    using g(2) s(2) by (intro request_served[OF s(1)]) (simp_all add: op_defs del: json_text.simps marshal.simps)
  then have "call (fs_platform h lk) c (request_op ?req) ?req dec_ReadMetadataResponse zero_ReadMetadataResponse w =
      (Inr (metadata_of_wire ?e), peer_after ?v w (post_of c ?req))"
  proof (rule call_served[OF s(1)])
    show "json_ok (json_entry ?e)" using json_ok_entry[OF s(4)] g(3) by (simp add: name_ok_def)
    show "json_bound (json_entry ?e) < nat maxJSONResponseBytes"
      using bound_entry[OF s(4), of nd ?t scope "slash_path us" "bs @ us"] assms(4) g(3)
      by (simp add: name_ok_def maxJSONResponseBytes_def)
    show "dec_ReadMetadataResponse (json_entry ?e) zero_ReadMetadataResponse = Some (metadata_of_wire ?e)"
      using dec_metadata[OF sized_entry] assms(4) by blast
  qed
  then show ?thesis
    using served_same[OF assms(1)] by (simp add: ReadMetadata_def guest_meta_stamp del: marshal.simps)
qed

lemma remove_node_missing:
  assumes "vlookup p v = Inl ENOENT"
  shows "remove_node p v = Inl ENOENT"
proof (cases p rule: rev_cases)
  case (snoc d n)
  show ?thesis
  proof (cases "vlookup d v")
    case (Inl e)
    then show ?thesis using assms snoc vmodify_error(1)[OF Inl] by (simp add: remove_node_def vlookup_append)
  next
    case (Inr nd)
    then obtain es where es: "nd = VDir es" "map_of es n = None"
      using assms snoc by (cases nd) (auto simp: vlookup_append split: option.splits)
    then have "in_dir (unlink_or_rmdir n) nd = Inl ENOENT" by (simp add: in_dir_def unlink_or_rmdir_def)
    then show ?thesis using snoc vmodify_error(2)[OF Inr] by (simp add: remove_node_def)
  qed
qed (use assms in simp)

lemma missing_refused:
  assumes "served h lk c scope bs w" "wire_path us" "parents_free (scope_tree bs w) us" "scope_tree bs w us = None"
  shows "\<exists>err w'. ReadMetadata (fs_platform h lk) c (slash_path us) w = (Inl err, w') \<and> errors_is err ErrNotFound \<and>
     \<not> errors_is err ErrPermissionDenied \<and> served h lk c scope bs w' \<and> scope_tree bs w' = scope_tree bs w"
    and "\<exists>err w'. RemoveFile (fs_platform h lk) c (slash_path us) w = (Inl err, w') \<and> errors_is err ErrNotFound \<and>
     \<not> errors_is err ErrPermissionDenied \<and> served h lk c scope bs w' \<and> scope_tree bs w' = scope_tree bs w"
proof -
  note s = servedD[OF assms(1)]
  let ?v = "fp_volume (peer w)" and ?t = "fp_tick (peer w)"
  let ?m = "ReadMetadataRequest (fsID c) (slash_path us) (guest_meta ''read'')"
  let ?r = "RemoveFileRequest (fsID c) (slash_path us) (guest_meta ''write'')"
  have g: "list_all good_seg us" "guest_request (fsID c) ?m" "guest_request (fsID c) ?r"
    using assms(2) by (simp_all add: wire_path_def)
  have miss: "vlookup (bs @ us) ?v = Inl ENOENT" using missing_lookup[OF assms(1,3,4)] .
  have rm: "remove_node (bs @ us) ?v = Inl ENOENT" using remove_node_missing[OF miss] .
  have "dispatch h ?t (request_op ?m) scope (body_of c ?m) ?v = (httpjson_Error 404 ''not found'', ?v)"
    unfolding request_op.simps dispatch_ops handleReadMetadata_def
    by (subst path_served[OF assms(1) g(2,1)]) (simp_all add: quiet_calls[OF s(4)] miss writeMetaError_def)
  from refused_served[OF assms(1) g(2) _ this]
  have "\<exists>err. call (fs_platform h lk) c (request_op ?m) ?m dec_ReadMetadataResponse zero_ReadMetadataResponse w =
      (Inl err, peer_after ?v w (post_of c ?m)) \<and> errors_is err ErrNotFound \<and> \<not> errors_is err ErrPermissionDenied"
    by (force simp: op_defs is_2xx_def status_sentinel_def simp del: marshal.simps)
  then show "\<exists>err w'. ReadMetadata (fs_platform h lk) c (slash_path us) w = (Inl err, w') \<and> errors_is err ErrNotFound \<and>
     \<not> errors_is err ErrPermissionDenied \<and> served h lk c scope bs w' \<and> scope_tree bs w' = scope_tree bs w"
    using served_same[OF assms(1)] by (auto simp: ReadMetadata_def guest_meta_stamp simp del: marshal.simps)
  have "dispatch h ?t (request_op ?r) scope (body_of c ?r) ?v = (httpjson_Error 404 ''not found'', ?v)"
    unfolding request_op.simps dispatch_ops handleRemoveFile_def
    by (subst path_served[OF assms(1) g(3,1)])
       (simp_all add: quiet_calls[OF s(4)] rm writeMetaError_def os_result_def ack_reply_def)
  from refused_served[OF assms(1) g(3) _ this]
  have "\<exists>err. call (fs_platform h lk) c (request_op ?r) ?r dec_AckResponse () w =
      (Inl err, peer_after ?v w (post_of c ?r)) \<and> errors_is err ErrNotFound \<and> \<not> errors_is err ErrPermissionDenied"
    by (force simp: op_defs is_2xx_def status_sentinel_def simp del: marshal.simps)
  then show "\<exists>err w'. RemoveFile (fs_platform h lk) c (slash_path us) w = (Inl err, w') \<and> errors_is err ErrNotFound \<and>
     \<not> errors_is err ErrPermissionDenied \<and> served h lk c scope bs w' \<and> scope_tree bs w' = scope_tree bs w"
    using served_same[OF assms(1)] by (auto simp: RemoveFile_def guest_meta_stamp simp del: marshal.simps)
qed

end
