(* ===== verification/FilestoreReads.thy ===== *)
theory FilestoreReads
  imports FilestoreTree
begin

text \<open>
  What the guest client reads from the filestore peer: the bytes of a file, whole and by window, and
  the entries of a directory.
\<close>

subsection \<open>Downloads\<close>

lemma find_unique:
  assumes "x \<in> set xs" "P x" "\<And>y. y \<in> set xs \<Longrightarrow> P y \<Longrightarrow> y = x"
  shows "find P xs = Some x"
proof (cases "find P xs")
  case None
  then show ?thesis using assms(1,2) by (simp add: find_None_iff)
next
  case (Some y)
  then have "y \<in> set xs" "P y" by (auto simp: find_Some_iff)
  then have "y = x" by (rule assms(3))
  then show ?thesis using Some by simp
qed

lemma rel_name:
  assumes "list_all good_seg p" "p \<noteq> []"
  shows "uuidForRelPath h fs (filepath_Rel p) = uuidForRelPath h fs (slash_path p)" "rel_segs (filepath_Rel p) = p"
proof -
  have t: "TrimPrefix (join_slash p) ''/'' = join_slash p"
    using join_slash_hd[OF assms] by (rule TrimPrefix_none)
  then show "uuidForRelPath h fs (filepath_Rel p) = uuidForRelPath h fs (slash_path p)"
    using assms(2) by (simp add: filepath_Rel_def uuidForRelPath_def TrimPrefix_root)
  show "rel_segs (filepath_Rel p) = p"
    using rel_segs_slash_path[OF assms(1)] t assms(2) by (simp add: rel_segs_def filepath_Rel_def TrimPrefix_root)
qed

lemma handle_found:
  assumes "served h lk c scope bs w" "scope_tree bs w us = Some (IFile b)" "handle_unique (handle_of h c) (scope_tree bs w) us"
  shows "relPathForUUID h t scope (handle_of h c us) (fp_volume (peer w)) = Some (filepath_Rel us)"
proof -
  note s = servedD[OF assms(1)]
  let ?v = "fp_volume (peer w)"
  have base: "host_dir h (sc_Root scope) = bs"
    using s(1) by (auto simp: serving_def host_dir_def HasPrefix_def) (simp_all add: slash_path_def)
  obtain nd where nd: "vlookup bs ?v = Inr nd" using s(3) by (auto simp: view_dir_iff)
  have tree: "view nd p = scope_tree bs w p" for p using nd by (simp add: scope_tree_def view_append)
  have walk: "p \<in> set (walk_files nd) \<longleftrightarrow> (\<exists>b. scope_tree bs w p = Some (IFile b))" for p
    using walk_files_view[OF vwf_lookup[OF s(5) nd]] by (simp add: tree)
  have fl: "list_all good_seg p \<and> p \<noteq> []" if "p \<in> set (walk_files nd)" for p
    using that tree_names[OF assms(1), of p] tree_root[OF assms(1)] by (auto simp: walk)
  have "find (\<lambda>p. list_all (\<lambda>n. os_fault (fh_os h t) (ScReadDir (bs @ take n p)) = None) [0..<length p] \<and>
        uuidForRelPath h (sc_FilesystemID scope) (filepath_Rel p) = handle_of h c us) (walk_files nd) = Some us"
  proof (rule find_unique)
    show us: "us \<in> set (walk_files nd)" using assms(2) walk by blast
    show "list_all (\<lambda>n. os_fault (fh_os h t) (ScReadDir (bs @ take n us)) = None) [0..<length us] \<and>
        uuidForRelPath h (sc_FilesystemID scope) (filepath_Rel us) = handle_of h c us"
      using rel_name(1) fl[OF us] s(7) by (simp add: quiet_calls[OF s(4)] handle_of_def list_all_iff)
    fix p
    assume p: "p \<in> set (walk_files nd)"
      and h: "list_all (\<lambda>n. os_fault (fh_os h t) (ScReadDir (bs @ take n p)) = None) [0..<length p] \<and>
        uuidForRelPath h (sc_FilesystemID scope) (filepath_Rel p) = handle_of h c us"
    have "handle_of h c p = handle_of h c us" using h rel_name(1) fl[OF p] s(7) by (simp add: handle_of_def)
    then show "p = us" using p assms(3) walk by (auto simp: handle_unique_def)
  qed
  then show ?thesis
    by (simp add: relPathForUUID_def Let_def base quiet_calls(1)[OF s(4)] nd del: append_take_drop_id)
qed

lemma doDownload_served:
  assumes "served h lk c scope bs w" "scope_tree bs w us = Some (IFile b)" "handle_unique (handle_of h c) (scope_tree bs w) us"
    and "\<And>r. rng = Some r \<Longrightarrow> is_int64 (Offset r) \<and> is_int64 (Length r)"
    and "download_window (map_option (\<lambda>r. \<lparr>rw_Offset = Offset r, rw_Length = Length r\<rparr>) rng) (int (length b)) =
           Inr (start, len)"
    and "len = int (length (take (nat len) (drop (nat start) b)))" "len \<le> limit"
  shows "\<exists>rd w'. doDownload (fs_platform h lk) c (fsID c) (handle_of h c us) (guest_meta ''read'') rng limit w = (Inr rd, w') \<and>
     (\<forall>k > 0. drain reader_Read k rd [] = Some (take (nat len) (drop (nat start) b), EOF)) \<and>
     served h lk c scope bs w' \<and> scope_tree bs w' = scope_tree bs w"
proof -
  note s = servedD[OF assms(1)]
  let ?v = "fp_volume (peer w)" and ?t = "fp_tick (peer w)" and ?out = "take (nat len) (drop (nat start) b)"
  let ?req = "FileDownloadRequest (fsID c) (handle_of h c us) rng (guest_meta ''read'')"
  let ?rp = "\<lparr>rp_Status = 200, rp_RetryAfter = [], rp_Length = Some len, rp_Body = ?out\<rparr>"
  have us: "list_all good_seg us" "us \<noteq> []"
    using assms(2) tree_names[OF assms(1), of us] tree_root[OF assms(1)] by auto
  have g: "guest_request (fsID c) ?req" using handle_ok[OF s(4)] assms(4) by (auto split: option.splits)
  have l: "vlookup (bs @ us) ?v = Inr (VFile b)" using assms(2) by (simp add: scope_tree_def view_file_iff)
  have res: "resolveUnder h (sc_Root scope) (filepath_Rel us) = Inr (slash_path (bs @ us))"
    using resolveUnder_ok[of bs h "filepath_Rel us"] rel_name(2)[OF us] s(1) by (simp add: serving_def)
  have segs: "path_segs (slash_path (bs @ us)) = bs @ us" using resolve_served(2)[OF s(1) us(1)] .
  have um: "unmarshal_into dec_downloadBody zero_downloadBody (json_text (marshal ?req)) =
     Some \<lparr>db_UUID = handle_of h c us, db_Range = map_option (\<lambda>r. \<lparr>rw_Offset = Offset r, rw_Length = Length r\<rparr>) rng,
           db_FilesystemID = fsID c, db_Meta = (''read'', False)\<rparr>"
    using downloadBody_marshal[OF guest_json_ok[OF s(6) g] assms(4)] by (simp only: guest_meta_def AuthorizationMetadata.simps)
  have "dispatch h ?t (request_op ?req) scope (body_of c ?req) ?v = (?rp, ?v)"
    unfolding request_op.simps dispatch_ops handleFileDownload_def
    using handle_ok[OF s(4), of c us] assms(5)
    by (simp add: um Let_def handle_found[OF assms(1-3)] res segs quiet_calls[OF s(4)] l node_size_def read_window_def
        del: marshal.simps)
  then have do: "http_Do (fs_platform h lk) (post_of c ?req) w =
      (Inr (client_response lk ?rp), peer_after ?v w (post_of c ?req))"
    using g s(2) by (intro request_served[OF s(1)]) (simp_all add: op_defs del: json_text.simps marshal.simps)
  let ?rd = "Bounded (newBoundedBody (lk_deliver lk ?rp) (rng \<noteq> None) limit)"
  have body: "body_content (lk_deliver lk ?rp) = ?out" using link_body(1)[OF s(1)] by simp
  have "fin (lk_deliver lk ?rp) = EOF" using s(1) assms(6) by (simp add: serving_def link_ok_def)
  moreover have "int (length ?out) \<le> max 0 limit" using assms(6,7) by linarith
  moreover have "take (nat limit) ?out = ?out" using assms(6,7) by (intro take_all) linarith
  ultimately have "\<forall>k > 0. drain reader_Read k ?rd [] = Some (?out, EOF)"
    using bounded_drain[of _ "lk_deliver lk ?rp" "rng \<noteq> None" limit] by (simp only: body) simp
  moreover obtain u where "lk_url_Parse lk (opURL c OpFileDownload) = Inr u" using serving_url[OF s(1)] by blast
  then have "doDownload (fs_platform h lk) c (fsID c) (handle_of h c us) (guest_meta ''read'') rng limit w =
      (Inr ?rd, peer_after ?v w (post_of c ?req))"
    using do assms(7)
    by (simp add: doDownload_def client_response_def is_2xx_def
        fs_platform_def[of h lk, THEN arg_cong[where f = url_Parse]] del: marshal.simps)
  ultimately show ?thesis using served_same[OF assms(1)] by blast
qed

lemma Download_served:
  assumes "served h lk c scope bs w" "scope_tree bs w us = Some (IFile b)" "handle_unique (handle_of h c) (scope_tree bs w) us"
    and "int (length b) \<le> maxDownloadBytes c"
  shows "\<exists>rd w'. Download (fs_platform h lk) c (handle_of h c us) w = (Inr rd, w') \<and>
     (\<forall>k > 0. drain reader_Read k rd [] = Some (b, EOF)) \<and>
     served h lk c scope bs w' \<and> scope_tree bs w' = scope_tree bs w"
  using doDownload_served[OF assms(1-3), of None 0 "int (length b)" "maxDownloadBytes c"] assms(4)
  by (simp add: Download_def guest_meta_stamp download_window_def)

text \<open>A window that does not overflow is served as the bytes it covers.\<close>

lemma window_served:
  assumes "0 \<le> off" "0 < len" "min off sz + len < 2 ^ 63" "0 \<le> sz"
  shows "download_window (Some \<lparr>rw_Offset = off, rw_Length = len\<rparr>) sz =
    Inr (min off sz, min (min off sz + len) sz - min off sz)"
proof -
  have "is_int64 (min off sz + len)" using assms unfolding is_int64_def min_def by (auto split: if_splits)
  then have w: "wrap64 (min off sz + len) = min off sz + len" by (rule wrap64_id)
  show ?thesis using assms(1,2) w by (auto simp: download_window_def Let_def min_def)
qed

lemma window_cut:
  assumes "0 \<le> off" "0 < len"
  shows "take (nat (min (min off (int (length b)) + len) (int (length b)) - min off (int (length b))))
           (drop (nat (min off (int (length b)))) b) = take (nat len) (drop (nat off) b)"
proof (cases "off \<le> int (length b)")
  case True
  then show ?thesis
    using assms by (cases "off + len \<le> int (length b)") (simp_all add: min_def nat_diff_distrib')
qed (use assms in simp)

lemma DownloadRange_served:
  assumes "served h lk c scope bs w" "scope_tree bs w us = Some (IFile b)" "handle_unique (handle_of h c) (scope_tree bs w) us"
    and "0 \<le> off" "0 < len" "off < 2 ^ 63" "len < 2 ^ 63" "min off (int (length b)) + len < 2 ^ 63"
  shows "\<exists>rd w'. DownloadRange (fs_platform h lk) c (handle_of h c us) off len w = (Inr rd, w') \<and>
     (\<forall>k > 0. drain reader_Read k rd [] = Some (take (nat len) (drop (nat off) b), EOF)) \<and>
     served h lk c scope bs w' \<and> scope_tree bs w' = scope_tree bs w"
proof -
  let ?start = "min off (int (length b))"
  let ?n = "min (?start + len) (int (length b)) - ?start" and ?rng = "Some \<lparr>Offset = off, Length = len\<rparr>"
  have i: "is_int64 off" "is_int64 len" using assms(4-7) by (simp_all add: is_int64_def)
  have "\<exists>rd w'. doDownload (fs_platform h lk) c (fsID c) (handle_of h c us) (guest_meta ''read'') ?rng len w = (Inr rd, w') \<and>
     (\<forall>k > 0. drain reader_Read k rd [] = Some (take (nat ?n) (drop (nat ?start) b), EOF)) \<and>
     served h lk c scope bs w' \<and> scope_tree bs w' = scope_tree bs w"
  proof (rule doDownload_served[OF assms(1-3)])
    show "is_int64 (Offset r) \<and> is_int64 (Length r)" if "?rng = Some r" for r using that i by auto
    show "download_window (map_option (\<lambda>r. \<lparr>rw_Offset = Offset r, rw_Length = Length r\<rparr>) ?rng) (int (length b)) =
        Inr (?start, ?n)"
      using window_served[OF assms(4,5,8)] by simp
    show "?n = int (length (take (nat ?n) (drop (nat ?start) b)))" using assms(4,5) by auto
    show "?n \<le> len" by simp
  qed
  then show ?thesis
    using assms(4,5) unfolding window_cut[OF assms(4,5)]
    by (simp add: DownloadRange_def guest_meta_stamp)
qed

subsection \<open>Listings\<close>

lemma Join_name:
  assumes "list_all good_seg us" "good_seg n"
  shows "Join [slash_path us, n] = slash_path (us @ [n])"
proof (cases "us = []")
  case True
  have "Clean (slash # slash # n) = slash_path (clean_segs True (split_slash n))"
    by (simp add: Clean_rooted clean_segs_skip_Nil)
  moreover have "split_slash n = [n]" using assms(2) by (simp add: split_slash_no_slash good_seg_def)
  ultimately show ?thesis
    using True assms(2) clean_segs_keep[of "[n]"] by (simp add: Join_def good_seg_def slash_path_def)
next
  case False
  then have "join_slash [slash_path us, n] = slash_path (us @ [n])" by (simp add: slash_path_def join_slash_snoc)
  then show ?thesis using assms Clean_slash_path[of "us @ [n]"] by (simp add: Join_def good_seg_def slash_path_def)
qed

text \<open>A directory whose listing fits in a response.\<close>

definition listing_fits :: "string list \<Rightarrow> (string \<times> vnode) list \<Rightarrow> bool" where
  "listing_fits us es \<longleftrightarrow>
     list_all (\<lambda>(n, nd). name_ok (slash_path (us @ [n])) \<and>
       (case nd of VFile b \<Rightarrow> is_int64 (int (length b)) | VDir _ \<Rightarrow> True)) es \<and>
     sum_list (map (\<lambda>(n, _). 6 * length (slash_path (us @ [n])) + 60001) es) \<le> 67000000"

definition listed ::
  "fsHost \<Rightarrow> nat \<Rightarrow> Scope \<Rightarrow> string list \<Rightarrow> string list \<Rightarrow> (string \<times> vnode) list \<Rightarrow> listDirEntry list" where
  "listed h t scope bs us es =
     map (\<lambda>(n, nd). node_entry h t scope (slash_path (us @ [n])) (bs @ us @ [n]) nd) es"

lemma list_entries_served:
  assumes "host_quiet h" "list_all good_seg us" "list_all (\<lambda>(n, nd). good_seg n) es"
  shows "list_entries h t scope (slash_path us) (bs @ us) es = listed h t scope bs us es"
  using assms(3)
  by (induction es) (auto simp: list_entries_def listed_def quiet_calls[OF assms(1)] Join_name[OF assms(2)])

lemma fetch_served:
  assumes "served h lk c scope bs w" "wire_path us" "vlookup (bs @ us) (fp_volume (peer w)) = Inr (VDir es)"
    and "listing_fits us es"
  shows "\<exists>w'. fetch_page (fs_platform h lk) c (fsID c) (slash_path us) (guest_meta ''read'') [] w =
       (Inr (listing_of_wire (listed h (fp_tick (peer w)) scope bs us es)), w') \<and>
     served h lk c scope bs w' \<and> scope_tree bs w' = scope_tree bs w"
proof -
  note s = servedD[OF assms(1)]
  let ?v = "fp_volume (peer w)" and ?t = "fp_tick (peer w)"
  let ?req = "ListDirectoryRequest (fsID c) (slash_path us) (guest_meta ''read'') []"
  let ?es = "listed h ?t scope bs us es" and ?j = "JObj [(''entries'', json_entries (listed h ?t scope bs us es))]"
  have g: "list_all good_seg us" "guest_request (fsID c) ?req" using assms(2) by (simp_all add: wire_path_def)
  have wf: "vwf (VDir es)" using vwf_lookup[OF s(5) assms(3)] .
  have names: "list_all (\<lambda>(n, nd). good_seg n) es"
    unfolding list_all_iff
  proof clarify
    fix n nd assume "(n, nd) \<in> set es"
    moreover have "distinct (map fst es)" using wf by (simp add: vwf_VDir strict_sorted_iff)
    ultimately have "map_of es n = Some nd" by simp
    then have "scope_tree bs w (us @ [n]) \<noteq> None"
      using entry_view[OF assms(3), of n] by (simp add: scope_tree_def)
    then show "good_seg n" using tree_names[OF assms(1)] by fastforce
  qed
  have "dispatch h ?t (request_op ?req) scope (body_of c ?req) ?v = (httpjson_OK ?j, ?v)"
    unfolding request_op.simps dispatch_ops handleListDirectory_def
    by (subst path_served[OF assms(1) g(2,1)])
       (simp_all add: quiet_calls[OF s(4)] assms(3) list_entries_served[OF s(4) g(1) names])
  then have do: "http_Do (fs_platform h lk) (post_of c ?req) w =
      (Inr (client_response lk (httpjson_OK ?j)), peer_after ?v w (post_of c ?req))"
    using g(2) s(2) by (intro request_served[OF s(1)]) (simp_all add: op_defs del: json_text.simps marshal.simps)
  have fit: "name_ok (slash_path (us @ [n])) \<and> (case nd of VFile b \<Rightarrow> is_int64 (int (length b)) | VDir _ \<Rightarrow> True)"
    if "(n, nd) \<in> set es" for n nd
    using assms(4) that unfolding listing_fits_def list_all_iff by fast
  have fits: "utf8_valid (slash_path (us @ [n]))" "\<And>b. nd = VFile b \<Longrightarrow> is_int64 (int (length b))"
    if "(n, nd) \<in> set es" for n nd
    using fit[OF that] by (auto simp: name_ok_def)
  have ok: "list_all json_ok (map json_entry ?es)" "list_all wire_sized ?es"
    unfolding list_all_iff set_map listed_def
    by (auto intro!: json_ok_entry[OF s(4)] sized_entry dest: fits)
  have bound: "sum_list (map (\<lambda>e. Suc (json_bound (json_entry e))) ?es) \<le>
      sum_list (map (\<lambda>(n, _). 6 * length (slash_path (us @ [n])) + 60001) es)"
    unfolding listed_def map_map comp_def
  proof (rule sum_list_mono)
    fix x assume "x \<in> set es"
    then obtain n nd where x: "x = (n, nd)" "(n, nd) \<in> set es" by (metis surj_pair)
    show "Suc (json_bound (json_entry (case x of (n, nd) \<Rightarrow>
        node_entry h ?t scope (slash_path (us @ [n])) (bs @ us @ [n]) nd))) \<le>
      (case x of (n, _) \<Rightarrow> 6 * length (slash_path (us @ [n])) + 60001)"
      using bound_entry[OF s(4) fits(2)[OF x(2)], of nd ?t scope "slash_path (us @ [n])" "bs @ us @ [n]"]
      by (simp add: x(1))
  qed
  from do have "call (fs_platform h lk) c (request_op ?req) ?req dec_ListDirectoryResponse zero_ListDirectoryResponse w =
      (Inr (listing_of_wire ?es), peer_after ?v w (post_of c ?req))"
  proof (rule call_served[OF s(1)])
    show "json_ok ?j" using ok(1) by (simp add: json_entries_def list_all_iff)
    show "json_bound ?j < nat maxJSONResponseBytes"
      using bound assms(4) by (simp add: json_entries_def maxJSONResponseBytes_def comp_def listing_fits_def)
    show "dec_ListDirectoryResponse ?j zero_ListDirectoryResponse = Some (listing_of_wire ?es)"
      using dec_listing[OF ok(2)] .
  qed
  then show ?thesis using served_same[OF assms(1)] by (simp add: fetch_page_def del: marshal.simps)
qed

lemma ListDirectoryAll_served:
  assumes "served h lk c scope bs w" "wire_path us" "vlookup (bs @ us) (fp_volume (peer w)) = Inr (VDir es)"
    and "listing_fits us es"
  shows "\<exists>w'. ListDirectoryAll (fs_platform h lk) c (slash_path us) w =
       (Inr (map entry_of_wire (listed h (fp_tick (peer w)) scope bs us es)), w') \<and>
     served h lk c scope bs w' \<and> scope_tree bs w' = scope_tree bs w"
proof -
  obtain w' where w': "fetch_page (fs_platform h lk) c (fsID c) (slash_path us) (guest_meta ''read'') [] w =
       (Inr (listing_of_wire (listed h (fp_tick (peer w)) scope bs us es)), w')"
    "served h lk c scope bs w'" "scope_tree bs w' = scope_tree bs w"
    using fetch_served[OF assms] by blast
  have y: "yield_all (\<lambda>e all_ents. (None, all_ents @ [e])) xs acc = (None, acc @ xs)" for xs acc
    by (induction xs arbitrary: acc) auto
  have "resp_Cursor (listing_of_wire (listed h (fp_tick (peer w)) scope bs us es)) = []"
    by (simp add: listing_of_wire_def)
  then have "ListDirectoryAll (fs_platform h lk) c (slash_path us) w =
       (Inr (map entry_of_wire (listed h (fp_tick (peer w)) scope bs us es)), w')"
    by (simp add: ListDirectoryAll_def ListDirectoryStream_def guest_meta_stamp list_loop.simps w'(1) y)
  then show ?thesis using w'(2,3) by blast
qed

end
