(* ===== verification/PeerExample.thy ===== *)
theory PeerExample
  imports FilestoreReads Examples
begin

text \<open>
  A concrete filestore peer: a server made by its constructor, with one writable scope below
  \<^verbatim>\<open>/srv\<close> and one file in it, on a host without faults, reached over a reliable connection by the
  client of \<open>Examples\<close>.
\<close>

definition ex_fs_host :: fsHost where
  "ex_fs_host =
     \<lparr>fh_sha256 = (\<lambda>b. take 32 (b @ replicate 32 (CHR ''.''))), fh_mtime = (\<lambda>_ _. ''2024-01-01T00:00:00Z''),
      fh_mode = (\<lambda>_ _. ''-rw-r--r--''), fh_dirSize = (\<lambda>_ _. 0),
      fh_os = (\<lambda>_. \<lparr>os_fault = (\<lambda>_. None), os_partial = (\<lambda>_. 0)\<rparr>), fh_error = (\<lambda>_ _ _. ''error''),
      fh_cwd = ''/'', fh_getwd = None, fh_now = int\<rparr>"

definition ex_link :: link where
  "ex_link =
     \<lparr>lk_deliver = (\<lambda>rp. \<lparr>chunks = [rp_Body rp], fin = EOF, eager = False\<rparr>),
      lk_other = (\<lambda>_. httpjson_Error 404 ''not found''), lk_float = ex_float,
      lk_url_Parse = (\<lambda>_. Inr \<lparr>Scheme = ''https'', Host = ''b''\<rparr>), lk_pem = (\<lambda>_. True), lk_sha256 = (\<lambda>s. s),
      lk_accepts = (\<lambda>_ _. None)\<rparr>"

definition ex_scope :: "bool \<Rightarrow> Scope" where
  "ex_scope ro = \<lparr>sc_FilesystemID = ''fs'', sc_Root = ''/srv'', sc_ReadOnly = ro\<rparr>"

definition ex_server :: "bool \<Rightarrow> Server" where
  "ex_server ro =
     \<lparr>s_scopes = [''fs'' \<mapsto> ex_scope ro], s_credentials = StaticCredentialValidator [''tok'' \<mapsto> ''fs''],
      s_throttleEvery = 0, s_writeCount = 0, s_perOpScope = [], s_perOpBucket = None\<rparr>"

lemma ex_NewServer:
  "NewServer \<lparr>so_Scopes = [ex_scope ro], so_Credentials = Some (StaticCredentialValidator [''tok'' \<mapsto> ''fs'']),
     so_ThrottleEvery = 0, so_PerOpThrottle = None\<rparr> 0 = Inr (ex_server ro)"
  by (simp add: NewServer_def ex_server_def ex_scope_def)

definition ex_volume :: vnode where
  "ex_volume = VDir [(''srv'', VDir [(''a'', VFile ''hello'')])]"

definition ex_peer :: "bool \<Rightarrow> fsPeer net" where
  "ex_peer ro = \<lparr>peer = \<lparr>fp_server = ex_server ro, fp_volume = ex_volume, fp_tick = 0\<rparr>, sent = []\<rparr>"

definition ex_peer_fs :: "(fsPeer net) Fs" where
  "ex_peer_fs =
     \<lparr>fs_addr = 1, fs_name = ''m'', fs_root = [], fs_client = brokerrpc_Client (fs_platform ex_fs_host ex_link) ex_client,
      fs_readOnly = False, fs_enc = ex_encoder, fs_features = buildFeatures\<rparr>"

lemma ex_fs_host_quiet: "host_quiet ex_fs_host"
proof -
  have "utf8_valid ''2024-01-01T00:00:00Z''" "utf8_valid ''-rw-r--r--''" by code_simp+
  then show ?thesis by (auto simp: host_quiet_def ex_fs_host_def cwd_rooted_def HasPrefix_def min_def)
qed

lemma ex_volume_view:
  "view ex_volume (''srv'' # us) =
     (if us = [] then Some IDir else if us = [''a''] then Some (IFile ''hello'') else None)"
  by (cases us rule: remdups_adj.cases) (auto simp: ex_volume_def view_def)

lemma ex_serving: "serving ex_fs_host ex_link ex_client (ex_scope ro) [''srv''] (peer (ex_peer ro))"
proof -
  have c: "StaticCredentialValidator [''tok'' \<mapsto> ''fs''] t (''Bearer '' @ authToken ex_client) = Inr (fsID ex_client)" for t
    by code_simp
  have u: "id_ok ''fs''" by code_simp
  have v: "vwf ex_volume" by code_simp
  have g: "good_seg ''srv''" by code_simp
  show ?thesis
    unfolding serving_def
    using ex_fs_host_quiet c u v g
    by (simp add: ex_peer_def ex_server_def ex_scope_def ex_link_def link_ok_def body_content_def slash_path_def ex_fsID)
       (simp add: ex_client_def)
qed

lemma ex_served: "served ex_fs_host ex_link ex_client (ex_scope False) [''srv''] (ex_peer False)"
proof -
  have "good_seg ''a''" by code_simp
  then show ?thesis
    using ex_serving[of False]
    by (auto simp: served_def scope_tree_def ex_volume_view ex_peer_def ex_scope_def split: if_splits)
qed

lemma ex_scope_tree:
  "scope_tree [''srv''] (ex_peer ro) us =
     (if us = [] then Some IDir else if us = [''a''] then Some (IFile ''hello'') else None)"
  using ex_volume_view by (simp add: scope_tree_def ex_peer_def)

end
