(* ===== verification/EndToEnd.thy ===== *)
theory EndToEnd
  imports RemoteTree PeerExample Ocufs_Correct
begin

text \<open>
  The mount end to end: the backend, its REST client and the filestore peer together keep the
  contract of a broker with a tree.  The tree is the directory the peer serves.
\<close>

subsection \<open>The filestore peer keeps the contract\<close>

lemma ReadMetadata_keeps:
  assumes "served h lk c scope bs w" "wire_path us"
  shows "\<exists>r w'. ReadMetadata (fs_platform h lk) c (slash_path us) w = (r, w') \<and> served h lk c scope bs w' \<and>
    scope_tree bs w' = scope_tree bs w"
proof -
  note s = servedD[OF assms(1)]
  let ?req = "ReadMetadataRequest (fsID c) (slash_path us) (guest_meta ''read'')"
  have g: "guest_request (fsID c) ?req" using assms(2) by (simp add: wire_path_def)
  obtain rp v' where d: "dispatch h (fp_tick (peer w)) (request_op ?req) scope (body_of c ?req) (fp_volume (peer w)) = (rp, v')"
    by fastforce
  have "v' = fp_volume (peer w)" using dispatch_read_keeps[OF d] by (simp add: writeIntentOps_def op_names fs_op_defs)
  moreover have "http_Do (fs_platform h lk) (post_of c ?req) w = (Inr (client_response lk rp), peer_after v' w (post_of c ?req))"
    using g s(2) d by (intro request_served[OF s(1)]) (simp_all add: op_defs del: json_text.simps marshal.simps)
  moreover obtain u where "lk_url_Parse lk (opURL c OpReadMetadata) = Inr u" using serving_url[OF s(1)] by blast
  ultimately have "snd (ReadMetadata (fs_platform h lk) c (slash_path us) w) =
      peer_after (fp_volume (peer w)) w (post_of c ?req)"
    by (simp add: ReadMetadata_def guest_meta_stamp call_def fs_platform_def[of h lk, THEN arg_cong[where f = url_Parse]]
        del: marshal.simps stamp_known split: option.splits)
  then show ?thesis using served_same[OF assms(1)] by (metis prod.collapse)
qed

text \<open>The directories whose listing fits in a response.\<close>

definition dir_fits :: "string list \<Rightarrow> fsPeer net \<Rightarrow> string list \<Rightarrow> bool" where
  "dir_fits bs w us \<longleftrightarrow>
     (case vlookup (bs @ us) (fp_volume (peer w)) of Inr (VDir es) \<Rightarrow> listing_fits us es | _ \<Rightarrow> True)"

lemma tree_node:
  assumes "served h lk c scope bs w"
  shows "scope_tree bs w us = Some (IFile b) \<Longrightarrow> vlookup (bs @ us) (fp_volume (peer w)) = Inr (VFile b)"
    and "scope_tree bs w us = Some IDir \<Longrightarrow> \<exists>es. vlookup (bs @ us) (fp_volume (peer w)) = Inr (VDir es)"
  by (simp_all add: scope_tree_def view_file_iff view_dir_iff)

lemma listing_served:
  assumes "served h lk c scope bs w" "wire_path us" "scope_tree bs w us = Some IDir" "dir_fits bs w us"
  shows "\<exists>ns es. sorted_wrt (<) ns \<and> set ns = {n. scope_tree bs w (us @ [n]) \<noteq> None} \<and>
    list_all2 (entry_for (handle_of h c) (scope_tree bs w) us) ns es \<and>
    leaves (served h lk c scope bs) (scope_tree bs) (ListDirectoryAll (fs_platform h lk) c (slash_path us)) w
      (Inr es) (scope_tree bs w)"
proof -
  note s = servedD[OF assms(1)]
  obtain es where es: "vlookup (bs @ us) (fp_volume (peer w)) = Inr (VDir es)" using tree_node(2)[OF assms(1,3)] by blast
  have wf: "sorted_wrt (<) (map fst es)" using vwf_lookup[OF s(5) es] by (simp add: vwf_VDir)
  then have dist: "distinct (map fst es)" by (simp add: strict_sorted_iff)
  have child: "scope_tree bs w (us @ [n]) = map_option inode_of (map_of es n)" for n
    using entry_view[OF es, of n] by (simp add: scope_tree_def)
  have "set (map fst es) = {n. scope_tree bs w (us @ [n]) \<noteq> None}"
    by (auto simp: child map_of_eq_None_iff)
  moreover have "list_all2 (entry_for (handle_of h c) (scope_tree bs w) us) (map fst es)
      (map entry_of_wire (listed h (fp_tick (peer w)) scope bs us es))"
    unfolding listed_def map_map list_all2_map1 list_all2_map2 list_all2_same
  proof clarify
    fix n nd assume "(n, nd) \<in> set es"
    then have "map_of es n = Some nd" using dist by simp
    then show "entry_for (handle_of h c) (scope_tree bs w) us (fst (n, nd)) ((entry_of_wire \<circ>
        (\<lambda>(n, nd). node_entry h (fp_tick (peer w)) scope (slash_path (us @ [n])) (bs @ us @ [n]) nd)) (n, nd))"
      by (cases nd)
         (simp_all add: entry_for_def child node_entry_def fsfile_of_wire_def dir_of_wire_def handle_of_def s(7))
  qed
  moreover have "listing_fits us es" using assms(4) es by (simp add: dir_fits_def)
  ultimately show ?thesis
    using wf ListDirectoryAll_served[OF assms(1,2) es] unfolding leaves_def by blast
qed

lemma classify_wire:
  "wf_Path fl \<noteq> [] \<Longrightarrow> classifyReadMetadata (metadata_of_wire (FileEntry fl)) = metaArmFile"
  "wd_Path d \<noteq> [] \<Longrightarrow> classifyReadMetadata (metadata_of_wire (DirEntry d)) = metaArmDirectory"
  by (simp_all add: classifyReadMetadata_def classifyMetaArms_def zero_ReadMetadataResponse_def zero_File_def
      zero_Directory_def file_of_wire_def dir_of_wire_def)

lemma metadata_served:
  assumes "served h lk c scope bs w" "wire_path us"
  shows "scope_tree bs w us = Some (IFile b) \<Longrightarrow> is_int64 (int (length b)) \<Longrightarrow>
      \<exists>resp. fst (ReadMetadata (fs_platform h lk) c (slash_path us) w) = Inr resp \<and>
        classifyReadMetadata resp = metaArmFile \<and>
        f_UUID (m_File resp) = handle_of h c us \<and> f_Size (m_File resp) = int (length b)"
    and "scope_tree bs w us = Some IDir \<Longrightarrow>
      \<exists>resp. fst (ReadMetadata (fs_platform h lk) c (slash_path us) w) = Inr resp \<and>
        classifyReadMetadata resp = metaArmDirectory"
proof -
  note s = servedD[OF assms(1)]
  let ?e = "node_entry h (fp_tick (peer w)) scope (slash_path us) (bs @ us)"
  have read: "fst (ReadMetadata (fs_platform h lk) c (slash_path us) w) = Inr (metadata_of_wire (?e nd))"
    if "vlookup (bs @ us) (fp_volume (peer w)) = Inr nd" "\<And>b. nd = VFile b \<Longrightarrow> is_int64 (int (length b))" for nd
    using ReadMetadata_served[OF assms that] by auto
  have ne: "slash_path us \<noteq> []" by (simp add: slash_path_def)
  show "\<exists>resp. fst (ReadMetadata (fs_platform h lk) c (slash_path us) w) = Inr resp \<and>
        classifyReadMetadata resp = metaArmFile \<and>
        f_UUID (m_File resp) = handle_of h c us \<and> f_Size (m_File resp) = int (length b)"
    if "scope_tree bs w us = Some (IFile b)" "is_int64 (int (length b))"
    using read[OF tree_node(1)[OF assms(1) that(1)]] that(2) ne classify_wire(1)
    by (simp add: node_entry_def file_of_wire_def handle_of_def s(7) del: metadata_of_wire.simps)
       (simp add: file_of_wire_def)
  show "\<exists>resp. fst (ReadMetadata (fs_platform h lk) c (slash_path us) w) = Inr resp \<and>
        classifyReadMetadata resp = metaArmDirectory"
    if dir: "scope_tree bs w us = Some IDir"
  proof -
    obtain es where "vlookup (bs @ us) (fp_volume (peer w)) = Inr (VDir es)" using tree_node(2)[OF assms(1) dir] by blast
    from read[OF this] show ?thesis
      using ne classify_wire(2) by (simp add: node_entry_def del: metadata_of_wire.simps)
  qed
qed

lemma client_calls:
  "bc_ListDirectoryAll (brokerrpc_Client pl c) = ListDirectoryAll pl c"
  "bc_ReadMetadata (brokerrpc_Client pl c) = ReadMetadata pl c"
  "bc_Download (brokerrpc_Client pl c) = Download pl c"
  "bc_DownloadRange (brokerrpc_Client pl c) = DownloadRange pl c"
  "bc_Upload (brokerrpc_Client pl c) = Upload pl c"
  "bc_CopyFile (brokerrpc_Client pl c) = CopyFile pl c"
  "bc_MoveFile (brokerrpc_Client pl c) = MoveFile pl c"
  "bc_RemoveFile (brokerrpc_Client pl c) = RemoveFile pl c"
  "bc_MakeDirectory (brokerrpc_Client pl c) = MakeDirectory pl c"
  "bc_RemoveDirectory (brokerrpc_Client pl c) = RemoveDirectory pl c"
  "bc_MoveDirectory (brokerrpc_Client pl c) = MoveDirectory pl c"
  by (simp_all add: brokerrpc_Client_def)

interpretation mounted_tree: remote_tree "brokerrpc_Client (fs_platform h lk) c" "served h lk c scope bs"
  "scope_tree bs" "handle_of h c" wire_path "\<lambda>b. length b \<le> maxUploadBytes" "\<lambda>b. int (length b) \<le> maxDownloadBytes c"
  "dir_fits bs" for h lk c scope bs
proof (unfold_locales, unfold client_calls, goal_cases)
  case (1 w us)
  then show ?case by (rule tree_names)
next
  case (2 w us)
  then show ?case using handle_ok[OF servedD(4)] by blast
next
  case (3 w us)
  have "\<forall>q b. prefix q us \<longrightarrow> scope_tree bs w q \<noteq> Some (IFile b)"
    using 3(3,4) by (auto simp: parents_free_iff strict_prefix_def no_file_iff)
  then show ?case unfolding leaves_def using MakeDirectory_served[OF 3(1,2)] by blast
next
  case (4 w us)
  then show ?case unfolding leaves_def by (rule RemoveDirectory_served)
next
  case (5 w us b)
  then show ?case unfolding leaves_def by (rule RemoveFile_served)
next
  case (6 w us)
  then show ?case unfolding leaves_def using missing_refused(2)[OF 6] by blast
next
  case (7 w us ws b)
  then show ?case unfolding leaves_def by (rule CopyFile_served)
next
  case (8 w us ws b)
  then show ?case unfolding leaves_def by (rule MoveFile_served)
next
  case (9 w us ws)
  then show ?case unfolding leaves_def by (rule MoveDirectory_served)
next
  case (10 w us inp)
  then show ?case unfolding leaves_def by (rule Upload_served)
next
  case (11 w us)
  then show ?case unfolding leaves_def using ReadMetadata_keeps by blast
next
  case (12 w us b)
  then show ?case using metadata_served(1)[OF 12] by (metis prod.collapse)
next
  case (13 w us)
  then show ?case using metadata_served(2)[OF 13] by (metis prod.collapse)
next
  case (14 w us)
  then show ?case using missing_refused(1)[OF 14] by auto
next
  case (15 w us b)
  then show ?case unfolding leaves_def using Download_served[OF 15] by blast
next
  case (16 w us b off len)
  then show ?case unfolding leaves_def using DownloadRange_served[OF 16] by blast
next
  case (17 w us)
  then show ?case by (rule listing_served)
qed

interpretation mounted: remote_fs "f\<lparr>fs_client := brokerrpc_Client (fs_platform h lk) c\<rparr>" "served h lk c scope bs"
  "scope_tree bs" "handle_of h c" wire_path "\<lambda>b. length b \<le> maxUploadBytes" "\<lambda>b. int (length b) \<le> maxDownloadBytes c"
  "dir_fits bs" "extends [''read'', ''write''] c" for f h lk c scope bs
  by (simp add: remote_fs_def mounted_tree.remote_tree_axioms rpc_fs.fs_backend_axioms)

subsection \<open>The concrete peer\<close>


lemma ex_wire_path:
  assumes "utf8_valid (slash_path us)" "list_all good_seg us" "length (slash_path us) \<le> 100"
  shows "wire_path us"
  using assms by (simp add: wire_path_def name_ok_def)

lemma ex_paths:
  "wire_path []" "wire_path [''a'']" "wire_path [''d'']" "wire_path [''e'']" "wire_path [''g'']"
  "wire_path [''d'', ''x'']" "wire_path [''e'', ''y'']" "wire_path [''e'', ''z'']"
  by (rule ex_wire_path; code_simp)+

lemma ex_segs:
  "wire_segs ex_peer_fs [] = []" "wire_segs ex_peer_fs ''a'' = [''a'']" "wire_segs ex_peer_fs ''d'' = [''d'']"
  "wire_segs ex_peer_fs ''e'' = [''e'']" "wire_segs ex_peer_fs ''g'' = [''g'']" "wire_segs ex_peer_fs ''d/x'' = [''d'', ''x'']"
  "wire_segs ex_peer_fs ''e/y'' = [''e'', ''y'']" "wire_segs ex_peer_fs ''e/z'' = [''e'', ''z'']"
  by code_simp+


lemma ex_peer_client: "fs_client ex_peer_fs = brokerrpc_Client (fs_platform ex_fs_host ex_link) ex_client" "\<not> fs_readOnly ex_peer_fs"
  by (simp_all add: ex_peer_fs_def)

subsection \<open>The mounted file system\<close>

lemma peer_fs:
  assumes "fs_client f = brokerrpc_Client (fs_platform h lk) c"
  shows "remote_fs f (served h lk c scope bs) (scope_tree bs) (handle_of h c) wire_path (\<lambda>b. length b \<le> maxUploadBytes)
    (\<lambda>b. int (length b) \<le> maxDownloadBytes c) (dir_fits bs) (extends [''read'', ''write''] c)"
proof -
  have "f\<lparr>fs_client := brokerrpc_Client (fs_platform h lk) c\<rparr> = f" using assms by simp
  then show ?thesis using mounted.remote_fs_axioms[where f = f and h = h and lk = lk and c = c] by simp
qed







text \<open>
  C7. A listing shows the directory: List returns, in the order of their names on the wire, one entry for
  each child of the directory and nothing else, a file as an object with its path, handle and size, a
  directory as a directory, each under the directory joined with its decoded name.
\<close>

theorem list_shows_tree:
  assumes "fs_client f = brokerrpc_Client (fs_platform h lk) c" "served h lk c scope bs w"
    and "wire_path (wire_segs f dir)" "scope_tree bs w (wire_segs f dir) = Some IDir" "dir_fits bs w (wire_segs f dir)"
  shows "\<exists>ns xs w'. List tp f dir w = (Inr xs, w') \<and> sorted_wrt (<) ns \<and>
    set ns = {n. scope_tree bs w (wire_segs f dir @ [n]) \<noteq> None} \<and>
    list_all2 (dir_entry_for (handle_of h c) f (scope_tree bs w) dir) ns xs \<and> scope_tree bs w' = scope_tree bs w"
  using remote_fs.List_tree[OF peer_fs[OF assms(1)] assms(2-5), of tp] by (auto simp: leaves_def)

theorem list_shows_tree_witness:
  "\<exists>x w'. List ex_tp ex_peer_fs [] (ex_peer False) = (Inr [EntryObject x], w') \<and> o_remote x = ''a'' \<and> o_path x = ''/a'' \<and> o_size x = 5"
proof -
  let ?w = "ex_peer False"
  have f: "dir_fits [''srv''] ?w []"
  proof -
    have "vlookup [''srv''] (fp_volume (peer ?w)) = Inr (VDir [(''a'', VFile ''hello'')])" by code_simp
    moreover have "utf8_valid ''/a''" by code_simp
    ultimately show ?thesis by (simp add: dir_fits_def listing_fits_def name_ok_def slash_path_def is_int64_def)
  qed
  obtain ns xs w' where l: "List ex_tp ex_peer_fs [] ?w = (Inr xs, w')" "sorted_wrt (<) ns" "set ns = {''a''}"
    "list_all2 (dir_entry_for (handle_of ex_fs_host ex_client) ex_peer_fs (scope_tree [''srv''] ?w) []) ns xs"
    using list_shows_tree[OF ex_peer_client(1) ex_served, of "[]" ex_tp] f by (auto simp: ex_segs ex_paths ex_scope_tree)
  have "ns = [''a'']" using strict_sorted_equal[of ns "[''a'']"] l(2,3) by simp
  then obtain x where x: "xs = [x]" "dir_entry_for (handle_of ex_fs_host ex_client) ex_peer_fs (scope_tree [''srv''] ?w) [] ''a'' x"
    using l(4) by (auto simp: list_all2_Cons1)
  have "child_name ex_peer_fs [] ''a'' = ''a''" "slash_path [''a''] = ''/a''" by code_simp+
  then show ?thesis using l(1) x by (auto simp: dir_entry_for_def ex_segs ex_scope_tree)
qed



end
