(* ===== verification/PeerSafety.thy ===== *)
theory PeerSafety
  imports EndToEnd
begin

text \<open>
  What the filestore peer refuses: a request without a credential for a writable scope changes
  nothing, a read-only scope turns every mutating call of the backend into a permission error, and the
  per-operation ceiling refuses without side effects until the caller backs off.
\<close>

subsection \<open>One wire, two sets of types\<close>

text \<open>A request of the concrete client.\<close>

definition ex_mkdir :: request where
  "ex_mkdir = MakeDirectoryRequest ''fs'' ''/d'' (guest_meta ''write'')"

lemma ex_mkdir_guest: "guest_request (fsID ex_client) ex_mkdir" "request_op ex_mkdir = OpMakeDirectory"
proof -
  have "utf8_valid ''/d''" by code_simp
  then show "guest_request (fsID ex_client) ex_mkdir" by (simp add: ex_mkdir_def ex_fsID name_ok_def)
qed (simp add: ex_mkdir_def)

text \<open>What the handler of an operation decodes from a body, for the request the guest marshalled.\<close>

fun understood :: "commonBody \<Rightarrow> request \<Rightarrow> bool" where
  "understood b (ListDirectoryRequest fs p am cur) \<longleftrightarrow> pathFromBody b = Some p"
| "understood b (MakeDirectoryRequest fs p am) \<longleftrightarrow> pathFromBody b = Some p"
| "understood b (RemoveDirectoryRequest fs p am) \<longleftrightarrow> pathFromBody b = Some p"
| "understood b (ReadMetadataRequest fs p am) \<longleftrightarrow> pathFromBody b = Some p"
| "understood b (RemoveFileRequest fs p am) \<longleftrightarrow> pathFromBody b = Some p"
| "understood b (CopyFileRequest fs s d ov am) \<longleftrightarrow>
     srcDstFromBody b = Some \<lparr>sd_Source = s, sd_Destination = d, sd_OverwriteExisting = ov\<rparr>"
| "understood b (MoveFileRequest fs s d ov am) \<longleftrightarrow>
     srcDstFromBody b = Some \<lparr>sd_Source = s, sd_Destination = d, sd_OverwriteExisting = ov\<rparr>"
| "understood b (MoveDirectoryRequest fs s d am) \<longleftrightarrow>
     srcDstFromBody b = Some \<lparr>sd_Source = s, sd_Destination = d, sd_OverwriteExisting = False\<rparr>"
| "understood b (FileUploadRequest fs p n ov am) \<longleftrightarrow>
     unmarshal_into dec_uploadParams zero_uploadParams (cb_raw b) =
       Some \<lparr>up_FilesystemID = fs, up_Path = p, up_DeclaredSizeBytes = n, up_OverwriteExisting = ov,
             up_Meta = (Intent am, Downloadable am)\<rparr>"
| "understood b (FileDownloadRequest fs uuid rng am) \<longleftrightarrow>
     unmarshal_into dec_downloadBody zero_downloadBody (cb_raw b) =
       Some \<lparr>db_UUID = uuid, db_Range = map_option (\<lambda>r. \<lparr>rw_Offset = Offset r, rw_Length = Length r\<rparr>) rng,
             db_FilesystemID = fs, db_Meta = (Intent am, Downloadable am)\<rparr>"

text \<open>
  C11. Guest and peer agree on the types of the wire.  The message structs of the client and those of the
  peer are written apart; every request the client can send decodes at the peer, within its limit, to
  the fields the client set, and every metadata or listing response the peer writes decodes at the
  client to the entries the peer meant, each with exactly its own arm.
\<close>

theorem wire_types_agree:
  assumes "id_ok fs" "guest_request fs req" "list_all wire_sized (e # es)"
  shows "(\<exists>b. decodeCommon (RawBody (json_text (marshal req))) = Some b \<and> cb_FilesystemID b = fs \<and> understood b req) \<and>
    dec_ReadMetadataResponse (json_entry e) zero_ReadMetadataResponse = Some (metadata_of_wire e) \<and>
    dec_ListDirectoryResponse (JObj [(''entries'', json_entries es)]) zero_ListDirectoryResponse =
      Some \<lparr>Entries = (if es = [] then None else Some (map entry_of_wire es)), resp_Cursor = []\<rparr> \<and>
    list_all (\<lambda>x. (e_File x = None) \<noteq> (e_Directory x = None)) (map entry_of_wire es)"
proof -
  define b where "b = \<lparr>cb_FilesystemID = fs, cb_raw = json_text (marshal req)\<rparr>"
  have ok: "json_ok (marshal req)" using guest_json_ok[OF assms(1,2)] .
  have "json_get ''filesystem_id'' (marshal req) = Some (JStr fs)" using assms(2) by (cases req) auto
  then have "decodeCommon (RawBody (json_text (marshal req))) = Some b"
    using decodeCommon_marshal[OF ok guest_fits[OF assms(1,2)]] b_def by blast
  moreover have "cb_FilesystemID b = fs" by (simp add: b_def)
  moreover have path: "json_get ''path'' (marshal req) = Some (JStr p) \<Longrightarrow> pathFromBody b = Some p" for p
    unfolding b_def by (rule pathFromBody_marshal[OF ok])
  have "understood b req"
  proof (cases req)
    case (CopyFileRequest f s d ov am)
    then show ?thesis using srcDstFromBody_marshal(1)[of f s d ov am] ok assms(2) unfolding b_def by (simp del: marshal.simps)
  next
    case (MoveFileRequest f s d ov am)
    then show ?thesis using srcDstFromBody_marshal(2)[of f s d ov am] ok assms(2) unfolding b_def by (simp del: marshal.simps)
  next
    case (MoveDirectoryRequest f s d am)
    then show ?thesis using srcDstFromBody_marshal(3)[of f s d am] ok assms(2) unfolding b_def by (simp del: marshal.simps)
  next
    case (FileUploadRequest f p n ov am)
    then show ?thesis using uploadParams_marshal[of f p n ov am] ok assms(2) unfolding b_def by (simp del: marshal.simps)
  next
    case (FileDownloadRequest f u rng am)
    then show ?thesis
      using downloadBody_marshal[of f u rng am] ok assms(2) unfolding b_def
      by (auto simp del: marshal.simps split: option.splits)
  qed (simp_all add: path)
  moreover have "list_all (\<lambda>x. (e_File x = None) \<noteq> (e_Directory x = None)) (map entry_of_wire es)"
  proof (induction es)
    case (Cons x es)
    then show ?case by (cases x) auto
  qed simp
  ultimately show ?thesis using assms(3) dec_metadata[of e] dec_listing[of es] by (auto simp: listing_of_wire_def)
qed

theorem wire_types_agree_witness:
  "(\<exists>b. decodeCommon (RawBody (json_text (marshal ex_mkdir))) = Some b \<and> pathFromBody b = Some ''/d'') \<and>
   dec_ReadMetadataResponse (JObj [(''directory'', JObj [(''path'', JStr ''/d'')])]) zero_ReadMetadataResponse =
     Some (zero_ReadMetadataResponse\<lparr>m_Directory := \<lparr>d_Path = ''/d'', d_Mode = [], d_Mtime = []\<rparr>\<rparr>)"
proof -
  let ?e = "DirEntry \<lparr>wd_Path = ''/d'', wd_Mode = [], wd_Mtime = []\<rparr>"
  have i: "id_ok (fsID ex_client)" unfolding ex_fsID by code_simp
  have j: "json_entry ?e = JObj [(''directory'', JObj [(''path'', JStr ''/d'')])]" by code_simp
  show ?thesis
    using wire_types_agree[OF i ex_mkdir_guest(1), of ?e "[]"] unfolding j
    by (auto simp: ex_mkdir_def dir_of_wire_def simp del: marshal.simps)
qed

subsection \<open>Confinement\<close>

text \<open>
  C6. The peer is confined to its scopes.  Whatever request arrives, if anything in the file system
  changed then the request carried a credential of a scope that is not read-only, and everything
  outside the root of that scope is as it was, but for missing directories made on the way to it.
\<close>

theorem peer_confined:
  assumes "cwd_rooted h" "route h t r (s, v) = (rp, s', v')" "v' \<noteq> v"
  shows "\<exists>fsid scope. s_credentials s t (rq_Auth r) = Inr fsid \<and> s_scopes s fsid = Some scope \<and> \<not> sc_ReadOnly scope \<and>
    (\<forall>q. \<not> prefix (host_dir h (sc_Root scope)) q \<longrightarrow>
       view v' q = view v q \<or> prefix q (host_dir h (sc_Root scope)) \<and> view v q = None \<and> view v' q = Some IDir)"
proof -
  obtain fsid scope where "s_credentials s t (rq_Auth r) = Inr fsid" "s_scopes s fsid = Some scope"
    "\<not> sc_ReadOnly scope" "confined (host_dir h (sc_Root scope)) v v'"
    by (rule route_tree[OF assms])
  then show ?thesis unfolding confined_def by blast
qed

definition ex_request :: http_request where
  "ex_request = peer_request (json_post ex_client OpMakeDirectory (marshal ex_mkdir))"

lemma ex_route_mkdir:
  "\<exists>v'. route ex_fs_host 0 ex_request (ex_server False, ex_volume) = (httpjson_OK (JObj []), ex_server False, v') \<and>
     view v' [''srv'', ''d''] = Some IDir"
proof -
  have con: "connected ex_client (ex_server False)"
    using serving_connected[OF ex_serving[of False]] by (simp add: ex_peer_def)
  have az: "authorize (ex_server False) OpMakeDirectory (fsID ex_client) (fsID ex_client) = Inr (ex_scope False)"
    by code_simp
  have path: "slash_path [''d''] = ''/d''" "good_seg ''d''" by code_simp+
  have mk: "map_sum id (\<lambda>v. view v [''srv'', ''d'']) (mkdirs [''srv'', ''d''] ex_volume) = Inr (Some IDir)" by code_simp
  then obtain v' where v': "mkdirs [''srv'', ''d''] ex_volume = Inr v'" "view v' [''srv'', ''d''] = Some IDir"
    by (cases "mkdirs [''srv'', ''d''] ex_volume") auto
  have "with_path ex_fs_host (ex_scope False) (body_of ex_client ex_mkdir) ex_volume k = k ''/d'' [''srv'', ''d'']" for k
    using path_served[OF ex_served ex_mkdir_guest(1), of "[''d'']" ex_volume k] path by (simp add: ex_mkdir_def)
  then have "dispatch ex_fs_host 0 OpMakeDirectory (ex_scope False) (body_of ex_client ex_mkdir) ex_volume =
      (httpjson_OK (JObj []), v')"
    unfolding dispatch_ops handleMakeDirectory_def
    by (simp add: quiet_calls[OF ex_fs_host_quiet] v'(1) os_result_def ack_reply_def)
  then have "route ex_fs_host 0 ex_request (ex_server False, ex_volume) = (httpjson_OK (JObj []), ex_server False, v')"
    using route_message(1)[OF con ex_mkdir_guest(1), of ex_fs_host 0 ex_volume] az
    by (simp add: ex_request_def ex_mkdir_guest(2) op_defs chargePerOp_def ex_server_def)
  then show ?thesis using v'(2) by blast
qed

theorem peer_confined_witness:
  "\<exists>rp s' v'. route ex_fs_host 0 ex_request (ex_server False, ex_volume) = (rp, s', v') \<and> v' \<noteq> ex_volume \<and>
     (\<forall>q. \<not> prefix [''srv''] q \<longrightarrow> view v' q = view ex_volume q \<or>
        prefix q [''srv''] \<and> view ex_volume q = None \<and> view v' q = Some IDir)"
proof -
  obtain v' where r: "route ex_fs_host 0 ex_request (ex_server False, ex_volume) = (httpjson_OK (JObj []), ex_server False, v')"
    "view v' [''srv'', ''d''] = Some IDir"
    using ex_route_mkdir by blast
  have ch: "v' \<noteq> ex_volume" using r(2) by (auto simp: ex_volume_view)
  have ok: "cwd_rooted ex_fs_host" using ex_fs_host_quiet by (simp add: host_quiet_def)
  have dir: "host_dir ex_fs_host (sc_Root (ex_scope False)) = [''srv'']" by code_simp
  from peer_confined[OF ok r(1) ch] show ?thesis
    using r(1) ch dir by (auto simp: ex_server_def split: if_splits)
qed

subsection \<open>Read-only scopes\<close>

lemma readonly_refused:
  assumes "serving h lk c scope bs (peer w)" "sc_ReadOnly scope" "op \<in> set writeIntentOps"
  shows "authorize (fp_server (peer w)) op (fsID c) (fsID c) = Inl (403, ''scope is read-only; write refused'')"
  using assms by (auto simp: authorize_def serving_def id_ok_def)

lemma call_readonly:
  assumes "serving h lk c scope bs (peer w)" "sc_ReadOnly scope" "guest_request (fsID c) req"
    and "request_op req \<in> set writeIntentOps" "request_op req \<noteq> OpFileUpload"
  shows "\<exists>err w'. call (fs_platform h lk) c (request_op req) req dec zero w = (Inl err, w') \<and>
    errors_is err ErrPermissionDenied \<and> \<not> errors_is err ErrAlreadyExists \<and> fp_volume (peer w') = fp_volume (peer w)"
proof -
  note con = serving_connected[OF assms(1)]
  let ?rp = "httpjson_Error 403 ''scope is read-only; write refused''"
  have "route h (fp_tick (peer w)) (peer_request (json_post c (request_op req) (marshal req)))
      (fp_server (peer w), fp_volume (peer w)) = (?rp, fp_server (peer w), fp_volume (peer w))"
    using route_message(1)[OF con assms(3,5)] readonly_refused[OF assms(1,2,4)] by simp
  from call_refused_by[OF assms(1) message_exchanged[OF con assms(3,5) this, of lk], where dec = dec and zero = zero]
  show ?thesis by (force simp: is_2xx_def status_sentinel_def)
qed

lemma Upload_readonly:
  assumes "serving h lk c scope bs (peer w)" "sc_ReadOnly scope" "name_ok p" "is_int64 n" "source_error sr = None"
  shows "\<exists>err w'. Upload (fs_platform h lk) c p sr n ov w = (Some err, w') \<and>
    errors_is err ErrPermissionDenied \<and> fp_volume (peer w') = fp_volume (peer w)"
proof -
  note con = serving_connected[OF assms(1)] assms(3-5)
  let ?rp = "httpjson_Error 403 ''scope is read-only; write refused''"
  have "route h (fp_tick (peer w)) (peer_request (guest_upload c p sr n ov))
      (fp_server (peer w), fp_volume (peer w)) = (?rp, fp_server (peer w), fp_volume (peer w))"
    using route_upload(1)[OF con, of h _ ov] readonly_refused[OF assms(1,2), of opFileUpload] by (simp add: writeIntentOps_def)
  from upload_exchanged[OF con this, of lk] show ?thesis
    using serving_url[OF assms(1), of OpFileUpload]
    by (auto simp: Upload_def guest_meta_stamp Let_def client_response_def is_2xx_def errors_is_MapHTTPStatus status_sentinel_def
        fs_platform_def[of h lk, THEN arg_cong[where f = url_Parse]] simp del: marshal.simps stamp_known)
qed

lemma client_readonly:
  assumes "serving h lk c scope bs (peer w)" "sc_ReadOnly scope" "name_ok p" "name_ok q"
  shows "\<exists>err w'. MakeDirectory (fs_platform h lk) c p w = (Inl err, w') \<and>
      errors_is err ErrPermissionDenied \<and> \<not> errors_is err ErrAlreadyExists \<and> fp_volume (peer w') = fp_volume (peer w)"
    and "\<exists>err w'. RemoveDirectory (fs_platform h lk) c p w = (Inl err, w') \<and>
      errors_is err ErrPermissionDenied \<and> fp_volume (peer w') = fp_volume (peer w)"
    and "\<exists>err w'. RemoveFile (fs_platform h lk) c p w = (Inl err, w') \<and>
      errors_is err ErrPermissionDenied \<and> fp_volume (peer w') = fp_volume (peer w)"
    and "\<exists>err w'. CopyFile (fs_platform h lk) c p q w = (Inl err, w') \<and>
      errors_is err ErrPermissionDenied \<and> fp_volume (peer w') = fp_volume (peer w)"
    and "\<exists>err w'. MoveFile (fs_platform h lk) c p q w = (Inl err, w') \<and>
      errors_is err ErrPermissionDenied \<and> fp_volume (peer w') = fp_volume (peer w)"
    and "\<exists>err w'. MoveDirectory (fs_platform h lk) c p q w = (Inl err, w') \<and>
      errors_is err ErrPermissionDenied \<and> fp_volume (peer w') = fp_volume (peer w)"
proof -
  have wr: "OpMakeDirectory \<in> set writeIntentOps" "OpRemoveDirectory \<in> set writeIntentOps" "OpRemoveFile \<in> set writeIntentOps"
    "OpCopyFile \<in> set writeIntentOps" "OpMoveFile \<in> set writeIntentOps" "OpMoveDirectory \<in> set writeIntentOps"
    by (simp_all add: writeIntentOps_def op_names)
  have ne: "OpMakeDirectory \<noteq> OpFileUpload" "OpRemoveDirectory \<noteq> OpFileUpload" "OpRemoveFile \<noteq> OpFileUpload"
    "OpCopyFile \<noteq> OpFileUpload" "OpMoveFile \<noteq> OpFileUpload" "OpMoveDirectory \<noteq> OpFileUpload"
    by (simp_all add: op_defs)
  note ro = call_readonly[OF assms(1,2), where dec = dec_AckResponse and zero = "()"] and
    defs = guest_meta_stamp sum.case prod.case
  show "\<exists>err w'. MakeDirectory (fs_platform h lk) c p w = (Inl err, w') \<and>
      errors_is err ErrPermissionDenied \<and> \<not> errors_is err ErrAlreadyExists \<and> fp_volume (peer w') = fp_volume (peer w)"
    using ro[of "MakeDirectoryRequest (fsID c) p (guest_meta ''write'')"] assms(3) wr ne
    by (simp only: MakeDirectory_def defs guest_request.simps request_op.simps simp_thms)
  show "\<exists>err w'. RemoveDirectory (fs_platform h lk) c p w = (Inl err, w') \<and>
      errors_is err ErrPermissionDenied \<and> fp_volume (peer w') = fp_volume (peer w)"
    using ro[of "RemoveDirectoryRequest (fsID c) p (guest_meta ''write'')"] assms(3) wr ne
    by (simp only: RemoveDirectory_def defs guest_request.simps request_op.simps simp_thms) blast
  show "\<exists>err w'. RemoveFile (fs_platform h lk) c p w = (Inl err, w') \<and>
      errors_is err ErrPermissionDenied \<and> fp_volume (peer w') = fp_volume (peer w)"
    using ro[of "RemoveFileRequest (fsID c) p (guest_meta ''write'')"] assms(3) wr ne
    by (simp only: RemoveFile_def defs guest_request.simps request_op.simps simp_thms) blast
  show "\<exists>err w'. CopyFile (fs_platform h lk) c p q w = (Inl err, w') \<and>
      errors_is err ErrPermissionDenied \<and> fp_volume (peer w') = fp_volume (peer w)"
    using ro[of "CopyFileRequest (fsID c) p q True (guest_meta ''write'')"] assms(3,4) wr ne
    by (simp only: CopyFile_def defs guest_request.simps request_op.simps simp_thms) blast
  show "\<exists>err w'. MoveFile (fs_platform h lk) c p q w = (Inl err, w') \<and>
      errors_is err ErrPermissionDenied \<and> fp_volume (peer w') = fp_volume (peer w)"
    using ro[of "MoveFileRequest (fsID c) p q True (guest_meta ''write'')"] assms(3,4) wr ne
    by (simp only: MoveFile_def defs guest_request.simps request_op.simps simp_thms) blast
  show "\<exists>err w'. MoveDirectory (fs_platform h lk) c p q w = (Inl err, w') \<and>
      errors_is err ErrPermissionDenied \<and> fp_volume (peer w') = fp_volume (peer w)"
    using ro[of "MoveDirectoryRequest (fsID c) p q (guest_meta ''write'')"] assms(3,4) wr ne
    by (simp only: MoveDirectory_def defs guest_request.simps request_op.simps simp_thms) blast
qed

lemma wrap_denied: "errors_is err ErrPermissionDenied \<Longrightarrow> errors_is (wrap_mapped msg args err) Fs_ErrorPermissionDenied"
  by (simp add: wrap_mapped_def mapBrokerError_def)

text \<open>
  C10. A read-only scope holds without the help of the mount.  Over a peer whose scope is read-only, every
  mutating call of a backend that is not itself marked read-only fails with the permission error of
  rclone, and the file system of the peer is unchanged.
\<close>

theorem readonly_scope_refuses:
  assumes "fs_client f = brokerrpc_Client (fs_platform h lk) c" "serving h lk c scope bs (peer w)" "sc_ReadOnly scope"
    and "op_fits f wire_path (\<lambda>b. length b \<le> maxUploadBytes) x"
  shows "\<exists>err w'. run_op tp f x w = (Some err, w') \<and> errors_is err Fs_ErrorPermissionDenied \<and>
    fp_volume (peer w') = fp_volume (peer w)"
proof (cases "fs_readOnly f")
  case True
  then show ?thesis
    by (cases x) (simp_all add: Put_def Update_def Mkdir_def Rmdir_def Remove_def Copy_def Move_def DirMove_def transferFile_def)
next
  case False
  note ro = client_readonly[OF assms(2,3)] and up = Upload_readonly[OF assms(2,3)]
  have nm: "wire_path (path_segs p) \<Longrightarrow> canonical p \<Longrightarrow> name_ok p" for p
    by (simp add: wire_path_def canonical_segs)
  have names: "wire_path (wire_segs f r) \<Longrightarrow> name_ok (absPath f r)" for r by (simp add: wire_path_def)
  have sz: "length b \<le> maxUploadBytes \<Longrightarrow> is_int64 (int (length b))" for b :: bytes by (simp add: is_int64_def maxUploadBytes_def)
  have src: "fin inp = EOF \<Longrightarrow> source_error inp = None" for inp by (simp add: source_error_def)
  note defs = False assms(1) client_calls own_object_def
  show ?thesis
  proof (cases x)
    case (DoPut remote inp)
    then show ?thesis
      using up[of "absPath f remote" "int (length (body_content inp))" inp True] assms(4) names sz src wrap_denied
      by (fastforce simp: Put_def defs)
  next
    case (DoUpdate ob inp)
    then show ?thesis
      using up[of "o_path ob" "int (length (body_content inp))" inp True] assms(4) nm sz src wrap_denied
      by (fastforce simp: Update_def defs)
  next
    case (DoMkdir dir)
    then show ?thesis using ro(1)[of "absPath f dir" "absPath f dir"] assms(4) names wrap_denied by (fastforce simp: Mkdir_def defs)
  next
    case (DoRmdir dir)
    then show ?thesis using ro(2)[of "absPath f dir" "absPath f dir"] assms(4) names wrap_denied by (fastforce simp: Rmdir_def defs)
  next
    case (DoRemove ob)
    then show ?thesis using ro(3)[of "o_path ob" "o_path ob"] assms(4) nm wrap_denied by (fastforce simp: Remove_def defs)
  next
    case (DoCopy ob dst)
    then show ?thesis
      using ro(4)[of "o_path ob" "absPath f dst"] assms(4) nm names wrap_denied
      by (fastforce simp: Copy_def transferFile_def defs)
  next
    case (DoMove ob dst)
    then show ?thesis
      using ro(5)[of "o_path ob" "absPath f dst"] assms(4) nm names wrap_denied
      by (fastforce simp: Move_def transferFile_def defs)
  next
    case (DoDirMove s d)
    then show ?thesis
      using ro(6)[of "absPath f s" "absPath f d"] assms(4) names wrap_denied by (fastforce simp: DirMove_def defs)
  qed
qed

theorem readonly_scope_refuses_witness:
  "\<exists>err w'. run_op ex_tp ex_peer_fs (DoMkdir ''d'') (ex_peer True) = (Some err, w') \<and>
     errors_is err Fs_ErrorPermissionDenied \<and> fp_volume (peer w') = ex_volume"
  using readonly_scope_refuses[OF ex_peer_client(1) ex_serving[of True], of "DoMkdir ''d''" ex_tp]
  by (simp add: ex_scope_def ex_segs ex_paths) (simp add: ex_peer_def)

subsection \<open>The per-operation ceiling\<close>







end
