(* ===== verification/Spec2Isabelle.thy ===== *)
theory Spec2Isabelle
  imports Brokerrpc_Correct Ocufs_Correct RealPoint_Correct DirectMount Entrypoint PostureProbe
    PeerSafety
begin

text \<open>
  \<^bold>\<open>A verification of ocu-rclone-filestore.\<close>

  The program is the guest side of a file store: a process that reads a mount configuration, brings up
  one FUSE mount per entry and serves each through an rclone backend that speaks JSON over HTTPS to a
  broker.  Its parts, from the wire up, and the theories that model them:

  \<^item> \<^emph>\<open>brokerrpc\<close> (\<^verbatim>\<open>src/internal/brokerrpc\<close>), the REST client.  \<open>RpcErrors\<close>: the status mapper and the bounded
    capture of error bodies (\<^verbatim>\<open>errors.go\<close>).  \<open>Wire\<close>: messages, intents and the stamp (\<^verbatim>\<open>messages.go\<close>,
    \<^verbatim>\<open>intent.go\<close>).  \<open>Client\<close>: construction, routes, credential and the unary calls (\<^verbatim>\<open>client.go\<close>,
    \<^verbatim>\<open>transport.go\<close>).  \<open>Cursor\<close>: the paged listing (\<^verbatim>\<open>cursor.go\<close>).  \<open>Download\<close>: ranged and whole downloads
    behind a cap (\<^verbatim>\<open>download.go\<close>).  \<open>Upload\<close>: the multipart writer on a pipe (\<^verbatim>\<open>upload.go\<close>).
  \<^item> \<^emph>\<open>ocufs\<close> (\<^verbatim>\<open>src/backend/ocufs\<close>), the rclone backend.  \<open>BrokerClient\<close>: the interface the backend calls
    (\<^verbatim>\<open>client.go\<close>) and its contract as a locale.  \<open>Ocufs\<close>: paths, listing, lookup, upload, directories
    (\<^verbatim>\<open>ocufs.go\<close>, \<^verbatim>\<open>options.go\<close>, \<^verbatim>\<open>errors.go\<close>).  \<open>OcuObject\<close>: the methods of an object, the server-side
    transfers, and the lock sections of \<open>resolve\<close> and \<open>Update\<close> as interleaved steps (\<^verbatim>\<open>object.go\<close>,
    \<^verbatim>\<open>copymove.go\<close>).  \<open>Session\<close>: any sequence of calls on a mounted file system.
  \<^item> \<^emph>\<open>mountcfg\<close> (\<^verbatim>\<open>src/internal/mountcfg\<close>), the loader of the configuration: \<open>Mountcfg\<close>, over \<open>GoRegexp\<close>.
  \<^item> \<^emph>\<open>mounter\<close> (\<^verbatim>\<open>src/internal/mounter\<close>).  \<open>Orchestrator\<close>: the run of a session over a mount seam
    (\<^verbatim>\<open>orchestrator.go\<close>, \<^verbatim>\<open>mounter.go\<close>).  \<open>Seam\<close>: the two contracts of a seam and what a run makes of them.
    \<open>RealPoint\<close>: the production seam (\<^verbatim>\<open>realpoint.go\<close>, \<^verbatim>\<open>teardown.go\<close>), and \<open>UnmountOnce\<close> its unmount
    under concurrent callers.  \<open>MountOptions\<close>, \<open>ScaffoldGuard\<close>,
    \<open>CacheDir\<close>, \<open>DirectMount\<close>: the options of a mount, the guard against shadowing content, the
    writable cache directory, the FUSE frontend (\<^verbatim>\<open>options.go\<close>, \<^verbatim>\<open>scaffoldguard.go\<close>, \<^verbatim>\<open>cachedir.go\<close>,
    \<^verbatim>\<open>directmount*.go\<close>, \<^verbatim>\<open>xattr_enotsup.go\<close>).
  \<^item> \<^emph>\<open>cmd\<close>.  \<open>Entrypoint\<close>: the flags, the steps of a run and the exit code
    (\<^verbatim>\<open>src/cmd/ocu-rclone-filestore\<close>, with \<^verbatim>\<open>mounter.New\<close> and its options).  \<open>PostureProbe\<close>: the one-shot posture
    witness (\<^verbatim>\<open>src/cmd/posture-probe\<close>).

  \<open>Prelude\<close>, \<open>GoPath\<close>, \<open>GoErrors\<close>, \<open>GoJson\<close>, \<open>GoRegexp\<close> and \<open>Streams\<close> model what the sources use of Go and its
  library: byte strings and 64-bit integers, cleaned paths, error trees with \<^verbatim>\<open>errors.Is\<close>, decoding
  of JSON values into structs, regular expressions by derivatives, and readers that deliver in chunks.

  \<^bold>\<open>How state and effects are modelled.\<close>  A struct is a record with the source's fields, a Go error a value of
  \<open>gerror\<close> that keeps format, arguments and wrapped errors, a fallible function a sum.  The network is
  a peer and the log of the requests sent (\<open>net\<close>); the object behind a pointer is returned updated.  The
  orchestrator threads a \<open>session\<close> with a log of events; signals, the scheduler of the unmount goroutines
  and failing file operations are an arbitrary \<open>host\<close>.  The production seam keeps each mount point it
  started and the log of what was done to it.  Code that is not in the repository is a parameter: the
  parsers of URLs, certificates, JSON text and times, the option parsers and encoders of rclone, mountlib,
  go-fuse and the kernel.  What a property needs of them is a named hypothesis (\<open>encoder_laws\<close>,
  \<open>parser_laws\<close>, \<open>configstruct_laws\<close>, \<open>mountlib_defaults\<close>, \<open>probes_independent\<close>), with an instance that meets it.

  \<^bold>\<open>What is shown.\<close>
  \<^item> On the wire: every request is stamped with the configured scope, credential and the intent of its
    route; a read-only mount asks only for reads (\<open>Session\<close>; from the configuration on, below).
  \<^item> Streams and pages: a listing ends and is complete, a download is exact or fails, an upload sends the
    source's bytes and is decided by the status (\<open>Brokerrpc_Correct\<close>).
  \<^item> The backend: depth-one listing, names that survive the encoding, windows that select the bytes asked
    for, the verdict that reaches rclone (\<open>Ocufs_Correct\<close>).
  \<^item> The configuration: accepted exactly in its shape (\<open>Mountcfg_Correct\<close>).
  \<^item> A session: readiness only while all mounts are up, every mount torn down once, the ready-file
    retracted, errors independent of scheduling, destinations disjoint (\<open>Orchestrator_Correct\<close>); over the
    production seam, write-back drained before each detach, no mount left attached, the readiness poll
    bounded (\<open>RealPoint_Correct\<close>).
  \<^item> The guard, the options, the cache directory, the FUSE frontend, the entry point and the probe: each in
    its own theory.

  Interfaces are locales, interpreted on the model: \<open>go_reader\<close> (bounded bodies and download readers),
  \<open>broker_reads\<close>, \<open>broker_client\<close> (the REST client), \<open>fs_reader\<close>, \<open>fs_backend\<close> (the backend over it),
  \<open>seam_invariant\<close>, \<open>mount_seam\<close> (the production seam).  \<open>Examples\<close> and the \<open>ex_\<close> definitions beside the
  properties are the concrete world the hypotheses are checked on.

  \<^bold>\<open>Bounds and termination.\<close>  No loop carries fuel.  The paging loop ends by the page ceiling, the copy and read
  loops by the length of what is left, the guard's walk by its ceiling of 4096 entries (its recursion is written
  with the call stack as a list, \<open>walk_Cons\<close> gives the recursive equation), the readiness poll by the
  clock, which advances by at least the pause of each poll.  Lengths and offsets are integers with the
  wrap at 64 bits where a product or sum can pass it; mount flags are 64-bit words.

  \<^bold>\<open>Not modelled.\<close>  The text of JSON and of numbers in messages, TLS and connection reuse, and goroutines other than
  those of the upload pipe and of the teardown, since no decision of the code depends on them; the serve loop of
  go-fuse and the VFS of rclone, which are not in the repository; log lines and usage texts; the
  registration of the backend and its help texts (\<^verbatim>\<open>init\<close> in \<^verbatim>\<open>ocufs.go\<close>, \<^verbatim>\<open>fsOptions\<close>), which are data
  for rclone.  In a session one operation of the production seam is one step; that concurrent unmounts of one
  point refine the atomic one is shown in \<open>UnmountOnce\<close>.  \<^verbatim>\<open>internal/testca\<close> and the
  conformance harness are test support.
\<close>

section \<open>Properties across the components\<close>



end
